(* ===== verification/Osmo_Prelude.thy ===== *)
theory Osmo_Prelude
  imports Main "HOL-Library.Word"
begin

unbundle bit_operations_syntax

section \<open>Shared types, faults and byte-level lemmas\<close>

text \<open>
  What every component of the development uses: the machine integer types of the C code,
  the way a C function that may abort or read outside its buffer is modelled, errno
  values, and the lemmas on octets and lists that carry the component proofs.

  A C function that can hit \<^verbatim>\<open>OSMO_ASSERT\<close> or undefined behaviour returns a value of
  type \<open>'a exec\<close>: \<open>Inl f\<close> is the fault \<open>f\<close> (the process does not continue),
  \<open>Inr v\<close> is an ordinary return.  C return codes (negative errno values included)
  stay ordinary \<open>int\<close> values inside \<open>Inr\<close>.
\<close>

named_theorems octet_simps \<open>facts that evaluate octets built from and split into integers\<close>
named_theorems exec_simps \<open>rewriting of the sequencing of computations that may fault\<close>

type_synonym u8 = "8 word"
type_synonym u16 = "16 word"
type_synonym u32 = "32 word"
type_synonym octets = "u8 list"

text \<open>
  The ways a run of the modelled C code leaves its defined behaviour: a failed
  \<^verbatim>\<open>OSMO_ASSERT\<close>, a read or write outside the object it points to, the use of a variable
  that has not been set, and a second
  \<^verbatim>\<open>talloc_free\<close> of the same chunk.
\<close>

datatype cfault = Assert_fail | Oob_access | Double_free | Uninit_read

type_synonym 'a exec = "cfault + 'a"

definition ebind :: "'a exec \<Rightarrow> ('a \<Rightarrow> 'b exec) \<Rightarrow> 'b exec" where
  "ebind m f = (case m of Inl e \<Rightarrow> Inl e | Inr x \<Rightarrow> f x)"

lemma ebind_simps [simp, exec_simps]:
  "ebind (Inl e) f = Inl e"
  "ebind (Inr x) f = f x"
  by (simp_all add: ebind_def)

lemma ebind_Inr_iff: "ebind m f = Inr y \<longleftrightarrow> (\<exists>x. m = Inr x \<and> f x = Inr y)"
  by (cases m) simp_all

lemma ebind_assoc: "ebind (ebind m f) g = ebind m (\<lambda>x. ebind (f x) g)"
  by (cases m) simp_all

lemma ebind_split: "P (ebind m f) \<longleftrightarrow> (\<forall>e. m = Inl e \<longrightarrow> P (Inl e)) \<and> (\<forall>x. m = Inr x \<longrightarrow> P (f x))"
  by (cases m) simp_all

text \<open>What holds of the result of a computation when it does not fault.\<close>

definition ensures :: "'a exec \<Rightarrow> ('a \<Rightarrow> bool) \<Rightarrow> bool" where
  "ensures m Q \<longleftrightarrow> (\<forall>x. m = Inr x \<longrightarrow> Q x)"

lemma ensures_simps [simp]:
  "ensures (Inr x) Q = Q x"
  "ensures (Inl e) Q"
  "ensures (ebind m f) Q = ensures m (\<lambda>x. ensures (f x) Q)"
  by (cases m; simp add: ensures_def)+

lemma ensuresI: "(\<And>x. m = Inr x \<Longrightarrow> Q x) \<Longrightarrow> ensures m Q"
  by (simp add: ensures_def)

lemma ensuresD: "ensures m Q \<Longrightarrow> m = Inr x \<Longrightarrow> Q x"
  by (simp add: ensures_def)

lemma ensures_mono: "ensures m P \<Longrightarrow> (\<And>x. m = Inr x \<Longrightarrow> P x \<Longrightarrow> Q x) \<Longrightarrow> ensures m Q"
  by (simp add: ensures_def)

text \<open>\<^verbatim>\<open>OSMO_ASSERT(c)\<close> as a computation of its own.\<close>

definition osmo_assert :: "bool \<Rightarrow> unit exec" where
  "osmo_assert c = (if c then Inr () else Inl Assert_fail)"

lemma osmo_assert_simps [simp, exec_simps]:
  "osmo_assert True = Inr ()"
  "osmo_assert False = Inl Assert_fail"
  by (simp_all add: osmo_assert_def)

lemma osmo_assert_Inr [simp]: "osmo_assert c = Inr u \<longleftrightarrow> c"
  by (simp add: osmo_assert_def)

lemma ebind_assert [simp]:
  "ebind (osmo_assert c) f = (if c then f () else Inl Assert_fail)"
  by (simp add: osmo_assert_def)

text \<open>Reading one octet at an offset of the memory a pointer addresses.\<close>

definition rd :: "octets \<Rightarrow> nat \<Rightarrow> u8 exec" where
  "rd mem i = (if i < length mem then Inr (mem ! i) else Inl Oob_access)"

lemma rd_simps [simp, exec_simps]:
  "rd (b # bs) 0 = Inr b"
  "rd (b # bs) (Suc i) = rd bs i"
  "rd [] i = Inl Oob_access"
  by (simp_all add: rd_def)

lemma rd_Cons_1 [simp]: "rd (b # bs) 1 = rd bs 0"
  by (simp add: rd_def)

lemma rd_Cons_numeral [simp]: "rd (b # bs) (numeral k) = rd bs (pred_numeral k)"
  by (simp add: numeral_eq_Suc)

lemma rd_in: "i < length mem \<Longrightarrow> rd mem i = Inr (mem ! i)"
  by (simp add: rd_def)

text \<open>Following a pointer that may be NULL.\<close>

definition deref :: "'a option \<Rightarrow> 'a exec" where
  "deref p = (case p of None \<Rightarrow> Inl Oob_access | Some x \<Rightarrow> Inr x)"

lemma deref_simps [simp, exec_simps]: "deref None = Inl Oob_access" "deref (Some x) = Inr x"
  by (simp_all add: deref_def)

text \<open>Changing the first entry of a list that satisfies a predicate.\<close>

fun upd_first :: "('a \<Rightarrow> bool) \<Rightarrow> ('a \<Rightarrow> 'a) \<Rightarrow> 'a list \<Rightarrow> 'a list" where
  "upd_first P f [] = []"
| "upd_first P f (x # xs) = (if P x then f x # xs else x # upd_first P f xs)"

fun remove_first :: "('a \<Rightarrow> bool) \<Rightarrow> 'a list \<Rightarrow> 'a list" where
  "remove_first P [] = []"
| "remove_first P (x # xs) = (if P x then xs else x # remove_first P xs)"

lemma set_upd_first: "set (upd_first P f xs) \<subseteq> set xs \<union> f ` {x \<in> set xs. P x}"
  by (induction xs) auto

lemma set_remove_first: "set (remove_first P xs) \<subseteq> set xs"
  by (induction xs) auto

lemma map_upd_first: "(\<And>x. g (f x) = g x) \<Longrightarrow> map g (upd_first P f xs) = map g xs"
  by (induction xs) auto

lemma remove_first_filter: "distinct (map g xs) \<Longrightarrow> remove_first (\<lambda>x. g x = k) xs = filter (\<lambda>x. g x \<noteq> k) xs"
  by (induction xs) (auto intro!: filter_True [symmetric] dest: rev_image_eqI [OF _ sym])

subsection \<open>errno\<close>

definition EPERM :: int where "EPERM = 1"
definition EIO :: int where "EIO = 5"
definition ENOMEM :: int where "ENOMEM = 12"
definition EEXIST :: int where "EEXIST = 17"
definition EINVAL :: int where "EINVAL = 22"
definition ENOENT :: int where "ENOENT = 2"

lemmas errno_defs = EPERM_def EIO_def ENOMEM_def EEXIST_def EINVAL_def ENOENT_def

subsection \<open>Octets of an integer\<close>

text \<open>
  \<^verbatim>\<open>(v >> 8) & 0xFF\<close> and \<^verbatim>\<open>v & 0xFF\<close> stored into an octet, and the
  big-endian value of two octets.
\<close>

definition hi8 :: "int \<Rightarrow> u8" where
  "hi8 v = word_of_int (drop_bit 8 v AND 0xFF)"

definition lo8 :: "int \<Rightarrow> u8" where
  "lo8 v = word_of_int (v AND 0xFF)"

definition be16 :: "u8 \<Rightarrow> u8 \<Rightarrow> u16" where
  "be16 a b = (push_bit 8 (ucast a) AND 0xFF00) OR ucast b"

lemma and_FF_mod: "(v::int) AND 0xFF = v mod 256"
  using take_bit_eq_mask [of 8 v] by (simp add: mask_eq_exp_minus_1 take_bit_eq_mod)

lemma uint_hi8 [octet_simps]: "uint (hi8 v) = v div 256 mod 256"
  by (simp add: hi8_def and_FF_mod drop_bit_eq_div uint_word_of_int)

lemma uint_lo8 [octet_simps]: "uint (lo8 v) = v mod 256"
  by (simp add: lo8_def and_FF_mod uint_word_of_int)

lemma FF00_push_bit: "(0xFF00 :: u16) = push_bit 8 (mask 8)"
  by (simp add: mask_eq_exp_minus_1 push_bit_eq_mult)

lemma uint_be16 [octet_simps]: "uint (be16 a b) = 256 * uint a + uint b"
proof -
  have m: "(push_bit 8 (ucast a) :: u16) AND 0xFF00 = push_bit 8 (ucast a)"
    unfolding FF00_push_bit by (rule bit_word_eqI) (auto simp: bit_simps dest: bit_imp_le_length)
  have d: "(push_bit 8 (ucast a) :: u16) OR ucast b = push_bit 8 (ucast a) + ucast b"
    by (rule disjunctive_add [symmetric]) (auto simp: bit_simps dest: bit_imp_le_length)
  have "uint (push_bit 8 (ucast a) :: u16) = 256 * uint a"
    using uint_lt2p [of a]
    by (simp add: push_bit_eq_mult uint_word_ariths unsigned_ucast_eq take_bit_eq_mod)
  then show ?thesis
    unfolding be16_def m d
    using uint_lt2p [of a] uint_lt2p [of b]
    by (simp add: uint_word_ariths unsigned_ucast_eq take_bit_eq_mod)
qed

lemma be16_hi8_lo8 [octet_simps]:
  "0 \<le> v \<Longrightarrow> v \<le> 65535 \<Longrightarrow> uint (be16 (hi8 v) (lo8 v)) = v"
  by (simp add: uint_be16 uint_hi8 uint_lo8)

subsection \<open>Octets bit by bit\<close>

text \<open>
  Two octets are equal when their eight bits are: after this rule the simplifier decides
  each bit of a shift-and-mask expression by itself (\<open>bit_simps\<close>).
\<close>

lemma u8_eqI:
  fixes a b :: u8
  assumes "bit a 0 = bit b 0" "bit a 1 = bit b 1" "bit a 2 = bit b 2" "bit a 3 = bit b 3"
    "bit a 4 = bit b 4" "bit a 5 = bit b 5" "bit a 6 = bit b 6" "bit a 7 = bit b 7"
  shows "a = b"
proof (rule bit_word_eqI)
  fix n assume "n < LENGTH(8)"
  then have "n \<in> {0,1,2,3,4,5,6,7}" by auto
  with assms show "bit a n = bit b n" by auto
qed

lemma not_bit_if_less:
  assumes "uint x < 2 ^ n" and "n \<le> m"
  shows "\<not> bit (x :: 'a::len word) m"
proof -
  have "uint x = take_bit n (uint x)" using assms by (simp add: take_bit_int_eq_self)
  then have "bit (uint x) m = bit (take_bit n (uint x)) m" by simp
  then show ?thesis using assms by (auto simp: bit_simps bit_uint_iff dest: bit_imp_le_length)
qed

lemma bits_le_31: "(x::u8) \<le> 31 \<Longrightarrow> \<not> bit x 5 \<and> \<not> bit x 6 \<and> \<not> bit x 7"
  using not_bit_if_less [of x 5] by (simp add: word_le_def)

lemma bits_le_15: "(x::u8) \<le> 15 \<Longrightarrow> \<not> bit x 4 \<and> \<not> bit x 5 \<and> \<not> bit x 6 \<and> \<not> bit x 7"
  using not_bit_if_less [of x 4] by (simp add: word_le_def)

lemma bits_le_3:
  "(x::u8) \<le> 3 \<Longrightarrow> \<not> bit x 2 \<and> \<not> bit x 3 \<and> \<not> bit x 4 \<and> \<not> bit x 5 \<and> \<not> bit x 6 \<and> \<not> bit x 7"
  using not_bit_if_less [of x 2] by (simp add: word_le_def)

lemma uint_u8_of_nat [octet_simps]: "n \<le> 255 \<Longrightarrow> uint (word_of_nat n :: u8) = int n"
  by (simp add: unsigned_of_nat take_bit_nat_eq_self)

lemma unat_u8_of_nat [octet_simps]: "n \<le> 255 \<Longrightarrow> unat (word_of_nat n :: u8) = n"
  by (simp add: unsigned_of_nat take_bit_nat_eq_self)

lemma unat_ucast_u16_u32 [octet_simps]: "unat (ucast (x :: u16) :: u32) = unat x"
proof -
  have "unat x < 2 ^ LENGTH(16)" by (rule unsigned_less)
  then show ?thesis by (simp add: unsigned_ucast_eq take_bit_nat_eq_self)
qed

lemma ucast_u16_u32_inj: "(ucast (a :: u16) :: u32) = ucast b \<longleftrightarrow> a = b"
proof
  assume e: "(ucast a :: u32) = ucast b"
  have "ucast (ucast a :: u32) = a" "ucast (ucast b :: u32) = b" by (rule bit_word_eqI; auto simp: bit_simps)+
  with e show "a = b" by metis
qed simp

subsection \<open>Streams of encoded fields\<close>

text \<open>
  Two components decode a run of fields with a loop of the same shape: decode one field at
  the head of the remaining octets, stop when none are left, give up when a budget of
  iterations is used up.  The interface below states what such a loop relies on (one
  iteration undoes one encoding) and proves once that the loop then undoes a whole run.
  The result list is built by \<^verbatim>\<open>llist_add\<close>, so it comes out reversed.
\<close>

locale field_stream =
  fixes ok :: "'f \<Rightarrow> bool"
    and enc :: "'f \<Rightarrow> octets"
    and limit :: nat
    and loop :: "octets \<Rightarrow> nat \<Rightarrow> nat \<Rightarrow> 'f list \<Rightarrow> 'r"
    and final :: "'f list \<Rightarrow> nat \<Rightarrow> 'r"
  assumes enc_nonempty: "ok f \<Longrightarrow> 0 < length (enc f)"
    and loop_step: "\<lbrakk>ok f; length (enc f) \<le> n; n \<le> limit; 0 < budget\<rbrakk> \<Longrightarrow>
      loop (enc f @ rest) n budget acc =
        (if n = length (enc f) then final (f # acc) (budget - 1)
         else loop rest (n - length (enc f)) (budget - 1) (f # acc))"
begin

lemma stream_length:
  assumes "\<forall>f\<in>set fs. ok f"
  shows "length fs \<le> length (concat (map enc fs))"
  using assms
proof (induction fs)
  case (Cons f fs)
  then have "0 < length (enc f)" by (simp add: enc_nonempty del: length_greater_0_conv)
  with Cons show ?case by (cases "enc f") simp_all
qed simp

lemma loop_stream:
  assumes "\<forall>f\<in>set fs. ok f" and "fs \<noteq> []"
    and "length (concat (map enc fs)) \<le> limit" and "length fs \<le> budget"
  shows "loop (concat (map enc fs) @ rest) (length (concat (map enc fs))) budget acc =
    final (rev fs @ acc) (budget - length fs)"
  using assms
proof (induction fs arbitrary: budget acc)
  case (Cons f fs)
  let ?bs = "concat (map enc fs)"
  have ok: "ok f" "\<forall>f\<in>set fs. ok f" using Cons.prems(1) by simp_all
  have "loop (enc f @ ?bs @ rest) (length (enc f @ ?bs)) budget acc =
    (if length (enc f @ ?bs) = length (enc f) then final (f # acc) (budget - 1)
     else loop (?bs @ rest) (length (enc f @ ?bs) - length (enc f)) (budget - 1) (f # acc))"
    using Cons.prems(3,4) by (intro loop_step [OF ok(1)]) auto
  then have step: "loop (concat (map enc (f # fs)) @ rest) (length (concat (map enc (f # fs)))) budget acc =
    (if ?bs = [] then final (f # acc) (budget - 1)
     else loop (?bs @ rest) (length ?bs) (budget - 1) (f # acc))" by simp
  show ?case
  proof (cases "fs = []")
    case True
    with step show ?thesis by simp
  next
    case False
    with stream_length [OF ok(2)] have "?bs \<noteq> []" by (metis le_zero_eq length_0_conv)
    with step have "loop (concat (map enc (f # fs)) @ rest) (length (concat (map enc (f # fs))))
        budget acc = loop (?bs @ rest) (length ?bs) (budget - 1) (f # acc)"
      by (simp only: if_False)
    also have "\<dots> = final (rev fs @ f # acc) (budget - 1 - length fs)"
      using Cons.prems(3,4) by (intro Cons.IH [OF ok(2) False]) auto
    finally show ?thesis by simp
  qed
qed simp

end

end
