(* ===== verification/Crc24.thy ===== *)
theory Crc24
  imports Osmo_Prelude
begin

unbundle bit_operations_syntax

section \<open>The frame check sequence (src/src/gprs/crc24.c)\<close>

text \<open>
  The table-driven CRC-24 of the LLC layer and \<open>gprs_llc_fcs\<close>
  (src/src/gprs/gprs\_llc\_parse.c).  The lemmas show that the table is the one of the
  bit-serial CRC with the reflected generator \<open>0xAD85DD\<close>, that one octet step is linear and
  injective on 24-bit states, and that the FCS therefore detects every error burst of up
  to three consecutive octets.
\<close>

subsection \<open>Model\<close>

definition tbl_crc24 :: "u32 list" where
  "tbl_crc24 =
    [0x000000, 0xd6a776, 0xf64557, 0x20e221, 0xb78115, 0x612663, 0x41c442, 0x976334,
     0x340991, 0xe2aee7, 0xc24cc6, 0x14ebb0, 0x838884, 0x552ff2, 0x75cdd3, 0xa36aa5,
     0x681322, 0xbeb454, 0x9e5675, 0x48f103, 0xdf9237, 0x093541, 0x29d760, 0xff7016,
     0x5c1ab3, 0x8abdc5, 0xaa5fe4, 0x7cf892, 0xeb9ba6, 0x3d3cd0, 0x1ddef1, 0xcb7987,
     0xd02644, 0x068132, 0x266313, 0xf0c465, 0x67a751, 0xb10027, 0x91e206, 0x474570,
     0xe42fd5, 0x3288a3, 0x126a82, 0xc4cdf4, 0x53aec0, 0x8509b6, 0xa5eb97, 0x734ce1,
     0xb83566, 0x6e9210, 0x4e7031, 0x98d747, 0x0fb473, 0xd91305, 0xf9f124, 0x2f5652,
     0x8c3cf7, 0x5a9b81, 0x7a79a0, 0xacded6, 0x3bbde2, 0xed1a94, 0xcdf8b5, 0x1b5fc3,
     0xfb4733, 0x2de045, 0x0d0264, 0xdba512, 0x4cc626, 0x9a6150, 0xba8371, 0x6c2407,
     0xcf4ea2, 0x19e9d4, 0x390bf5, 0xefac83, 0x78cfb7, 0xae68c1, 0x8e8ae0, 0x582d96,
     0x935411, 0x45f367, 0x651146, 0xb3b630, 0x24d504, 0xf27272, 0xd29053, 0x043725,
     0xa75d80, 0x71faf6, 0x5118d7, 0x87bfa1, 0x10dc95, 0xc67be3, 0xe699c2, 0x303eb4,
     0x2b6177, 0xfdc601, 0xdd2420, 0x0b8356, 0x9ce062, 0x4a4714, 0x6aa535, 0xbc0243,
     0x1f68e6, 0xc9cf90, 0xe92db1, 0x3f8ac7, 0xa8e9f3, 0x7e4e85, 0x5eaca4, 0x880bd2,
     0x437255, 0x95d523, 0xb53702, 0x639074, 0xf4f340, 0x225436, 0x02b617, 0xd41161,
     0x777bc4, 0xa1dcb2, 0x813e93, 0x5799e5, 0xc0fad1, 0x165da7, 0x36bf86, 0xe018f0,
     0xad85dd, 0x7b22ab, 0x5bc08a, 0x8d67fc, 0x1a04c8, 0xcca3be, 0xec419f, 0x3ae6e9,
     0x998c4c, 0x4f2b3a, 0x6fc91b, 0xb96e6d, 0x2e0d59, 0xf8aa2f, 0xd8480e, 0x0eef78,
     0xc596ff, 0x133189, 0x33d3a8, 0xe574de, 0x7217ea, 0xa4b09c, 0x8452bd, 0x52f5cb,
     0xf19f6e, 0x273818, 0x07da39, 0xd17d4f, 0x461e7b, 0x90b90d, 0xb05b2c, 0x66fc5a,
     0x7da399, 0xab04ef, 0x8be6ce, 0x5d41b8, 0xca228c, 0x1c85fa, 0x3c67db, 0xeac0ad,
     0x49aa08, 0x9f0d7e, 0xbfef5f, 0x694829, 0xfe2b1d, 0x288c6b, 0x086e4a, 0xdec93c,
     0x15b0bb, 0xc317cd, 0xe3f5ec, 0x35529a, 0xa231ae, 0x7496d8, 0x5474f9, 0x82d38f,
     0x21b92a, 0xf71e5c, 0xd7fc7d, 0x015b0b, 0x96383f, 0x409f49, 0x607d68, 0xb6da1e,
     0x56c2ee, 0x806598, 0xa087b9, 0x7620cf, 0xe143fb, 0x37e48d, 0x1706ac, 0xc1a1da,
     0x62cb7f, 0xb46c09, 0x948e28, 0x42295e, 0xd54a6a, 0x03ed1c, 0x230f3d, 0xf5a84b,
     0x3ed1cc, 0xe876ba, 0xc8949b, 0x1e33ed, 0x8950d9, 0x5ff7af, 0x7f158e, 0xa9b2f8,
     0x0ad85d, 0xdc7f2b, 0xfc9d0a, 0x2a3a7c, 0xbd5948, 0x6bfe3e, 0x4b1c1f, 0x9dbb69,
     0x86e4aa, 0x5043dc, 0x70a1fd, 0xa6068b, 0x3165bf, 0xe7c2c9, 0xc720e8, 0x11879e,
     0xb2ed3b, 0x644a4d, 0x44a86c, 0x920f1a, 0x056c2e, 0xd3cb58, 0xf32979, 0x258e0f,
     0xeef788, 0x3850fe, 0x18b2df, 0xce15a9, 0x59769d, 0x8fd1eb, 0xaf33ca, 0x7994bc,
     0xdafe19, 0x0c596f, 0x2cbb4e, 0xfa1c38, 0x6d7f0c, 0xbbd87a, 0x9b3a5b, 0x4d9d2d]"

definition INIT_CRC24 :: u32 where "INIT_CRC24 = 0xffffff"

definition crc24_octet :: "u32 \<Rightarrow> u8 \<Rightarrow> u32" where
  "crc24_octet fcs c = drop_bit 8 fcs XOR tbl_crc24 ! unat ((fcs XOR ucast c) AND 0xff)"

text \<open>
  The loop of \<open>crc24_calc\<close>: \<open>cp\<close> is the memory at the pointer, \<open>len\<close> the number of octets
  to read.
\<close>

fun crc24_calc :: "u32 \<Rightarrow> octets \<Rightarrow> nat \<Rightarrow> u32 exec" where
  "crc24_calc fcs cp 0 = Inr fcs"
| "crc24_calc fcs [] (Suc len) = Inl Oob_access"
| "crc24_calc fcs (c # cp) (Suc len) = crc24_calc (crc24_octet fcs c) cp len"

definition gprs_llc_fcs :: "octets \<Rightarrow> nat \<Rightarrow> u32 exec" where
  "gprs_llc_fcs data len =
     ebind (crc24_calc INIT_CRC24 data len) (\<lambda>fcs_calc. Inr (NOT fcs_calc AND 0xffffff))"

subsection \<open>The bit-serial CRC\<close>

definition crc24_bit :: "u32 \<Rightarrow> u32" where
  "crc24_bit x = drop_bit 1 x XOR (if bit x 0 then 0xAD85DD else 0)"

definition crc24_bits :: "u32 \<Rightarrow> u32" where
  "crc24_bits x = crc24_bit (crc24_bit (crc24_bit (crc24_bit (crc24_bit (crc24_bit (crc24_bit (crc24_bit x)))))))"

text \<open>One bit step, hence one octet step, is linear over \<open>XOR\<close>.\<close>

lemma crc24_bit_xor: "crc24_bit (x XOR y) = crc24_bit x XOR crc24_bit y"
  by (rule bit_word_eqI) (auto simp: crc24_bit_def bit_simps)

lemma crc24_bits_xor: "crc24_bits (x XOR y) = crc24_bits x XOR crc24_bits y"
  by (simp add: crc24_bits_def crc24_bit_xor)

lemma crc24_bits_0 [simp]: "crc24_bits 0 = 0"
  by (simp add: crc24_bits_def crc24_bit_def)

text \<open>The table is built by doubling, which the kernel checks once per power of two.\<close>

lemma tbl_crc24_double:
  "take 1 (drop 1 tbl_crc24) = map (\<lambda>x. tbl_crc24 ! 1 XOR x) (take 1 tbl_crc24)"
  "take 2 (drop 2 tbl_crc24) = map (\<lambda>x. tbl_crc24 ! 2 XOR x) (take 2 tbl_crc24)"
  "take 4 (drop 4 tbl_crc24) = map (\<lambda>x. tbl_crc24 ! 4 XOR x) (take 4 tbl_crc24)"
  "take 8 (drop 8 tbl_crc24) = map (\<lambda>x. tbl_crc24 ! 8 XOR x) (take 8 tbl_crc24)"
  "take 16 (drop 16 tbl_crc24) = map (\<lambda>x. tbl_crc24 ! 16 XOR x) (take 16 tbl_crc24)"
  "take 32 (drop 32 tbl_crc24) = map (\<lambda>x. tbl_crc24 ! 32 XOR x) (take 32 tbl_crc24)"
  "take 64 (drop 64 tbl_crc24) = map (\<lambda>x. tbl_crc24 ! 64 XOR x) (take 64 tbl_crc24)"
  "take 128 (drop 128 tbl_crc24) = map (\<lambda>x. tbl_crc24 ! 128 XOR x) (take 128 tbl_crc24)"
  by (simp_all add: tbl_crc24_def)

lemma tbl_crc24_powers:
  "tbl_crc24 ! 1 = crc24_bits 1" "tbl_crc24 ! 2 = crc24_bits 2" "tbl_crc24 ! 4 = crc24_bits 4"
  "tbl_crc24 ! 8 = crc24_bits 8" "tbl_crc24 ! 16 = crc24_bits 16" "tbl_crc24 ! 32 = crc24_bits 32"
  "tbl_crc24 ! 64 = crc24_bits 64" "tbl_crc24 ! 128 = crc24_bits 128"
  by (simp_all add: tbl_crc24_def crc24_bits_def crc24_bit_def)

lemma tbl_crc24_length: "length tbl_crc24 = 256"
  by (simp add: tbl_crc24_def)

lemma of_nat_add_xor:
  assumes "i < 2 ^ k"
  shows "(word_of_nat (2 ^ k + i) :: 'a::len word) = word_of_nat (2 ^ k) XOR word_of_nat i"
proof -
  have "2 ^ k + i = 2 ^ k OR i"
    using assms by (intro disjunctive_add)
      (auto simp: bit_simps, metis bit_take_bit_iff less_irrefl take_bit_nat_eq_self)
  moreover have "\<not> (bit (2 ^ k :: nat) n \<and> bit i n)" for n
    using assms by (auto simp: bit_simps, metis bit_take_bit_iff less_irrefl take_bit_nat_eq_self)
  ultimately show ?thesis
    by (intro bit_word_eqI) (auto simp: bit_simps)
qed

lemma tbl_step:
  assumes "take (2 ^ k) (drop (2 ^ k) tbl_crc24) = map (\<lambda>x. tbl_crc24 ! (2 ^ k) XOR x) (take (2 ^ k) tbl_crc24)"
    and "tbl_crc24 ! (2 ^ k) = crc24_bits (word_of_nat (2 ^ k))" and "(2::nat) ^ Suc k \<le> 256"
    and IH: "\<And>i. i < 2 ^ k \<Longrightarrow> tbl_crc24 ! i = crc24_bits (word_of_nat i)"
    and "i < 2 ^ Suc k"
  shows "tbl_crc24 ! i = crc24_bits (word_of_nat i)"
proof (cases "i < 2 ^ k")
  case False
  define j where "j = i - 2 ^ k"
  have j: "j < 2 ^ k" "i = 2 ^ k + j" using False assms(5) by (auto simp: j_def)
  have "take (2 ^ k) (drop (2 ^ k) tbl_crc24) ! j = tbl_crc24 ! i"
    using j assms(3) by (simp add: tbl_crc24_length)
  then have "tbl_crc24 ! i = tbl_crc24 ! (2 ^ k) XOR tbl_crc24 ! j"
    unfolding assms(1) using j assms(3) by (simp add: tbl_crc24_length)
  then show ?thesis
    using IH [OF j(1)] assms(2) by (simp only: j(2) of_nat_add_xor [OF j(1)] crc24_bits_xor)
qed (rule IH)

lemma tbl_crc24_bits: "i < 256 \<Longrightarrow> tbl_crc24 ! i = crc24_bits (word_of_nat i)"
proof -
  have 0: "i < 2 ^ 0 \<Longrightarrow> tbl_crc24 ! i = crc24_bits (word_of_nat i)" for i :: nat
    by (simp add: tbl_crc24_def)
  note d = tbl_crc24_double and p = tbl_crc24_powers
  have 1: "i < 2 ^ Suc 0 \<Longrightarrow> tbl_crc24 ! i = crc24_bits (word_of_nat i)" for i
    by (rule tbl_step [of 0]) (use d(1) p(1) 0 in simp_all)
  have 2: "i < 2 ^ Suc 1 \<Longrightarrow> tbl_crc24 ! i = crc24_bits (word_of_nat i)" for i
    by (rule tbl_step [of 1]) (use d(2) p(2) 1 in simp_all)
  have 3: "i < 2 ^ Suc 2 \<Longrightarrow> tbl_crc24 ! i = crc24_bits (word_of_nat i)" for i
    by (rule tbl_step [of 2]) (use d(3) p(3) 2 in simp_all)
  have 4: "i < 2 ^ Suc 3 \<Longrightarrow> tbl_crc24 ! i = crc24_bits (word_of_nat i)" for i
    by (rule tbl_step [of 3]) (use d(4) p(4) 3 in simp_all)
  have 5: "i < 2 ^ Suc 4 \<Longrightarrow> tbl_crc24 ! i = crc24_bits (word_of_nat i)" for i
    by (rule tbl_step [of 4]) (use d(5) p(5) 4 in simp_all)
  have 6: "i < 2 ^ Suc 5 \<Longrightarrow> tbl_crc24 ! i = crc24_bits (word_of_nat i)" for i
    by (rule tbl_step [of 5]) (use d(6) p(6) 5 in simp_all)
  have 7: "i < 2 ^ Suc 6 \<Longrightarrow> tbl_crc24 ! i = crc24_bits (word_of_nat i)" for i
    by (rule tbl_step [of 6]) (use d(7) p(7) 6 in simp_all)
  show "i < 256 \<Longrightarrow> tbl_crc24 ! i = crc24_bits (word_of_nat i)"
    by (rule tbl_step [of 7]) (use d(8) p(8) 7 in simp_all)
qed

subsection \<open>One octet\<close>

lemma crc24_bits_shift:
  assumes "x AND 0xff = 0"
  shows "crc24_bits x = drop_bit 8 x"
proof -
  have b: "\<not> bit x n" if "n < 8" for n
    using arg_cong [OF assms, of "\<lambda>w. bit w n"] that by (auto simp: bit_simps numeral_eq_Suc less_Suc_eq)
  have s: "crc24_bit (drop_bit n x) = drop_bit (Suc n) x" if "n < 8" for n
    using b [OF that] by (simp add: crc24_bit_def bit_simps drop_bit_Suc)
  show ?thesis
    unfolding crc24_bits_def using s [of 0] s [of 1] s [of 2] s [of 3] s [of 4] s [of 5] s [of 6] s [of 7]
    by (simp add: numeral_eq_Suc)
qed

lemma mask_8: "(0xff :: u32) = mask 8"
  by (simp add: mask_eq_exp_minus_1)

lemma crc24_octet_bits: "crc24_octet fcs c = crc24_bits (fcs XOR ucast c)"
proof -
  let ?x = "fcs XOR ucast c"
  have split: "?x = (?x AND NOT 0xff) XOR (?x AND 0xff)"
    by (rule bit_word_eqI) (auto simp: bit_simps)
  have "unat (?x AND 0xff) < 256"
    using word_and_le1 [of ?x "0xff"] by (simp add: word_le_nat_alt)
  then have "tbl_crc24 ! unat (?x AND 0xff) = crc24_bits (?x AND 0xff)"
    by (simp add: tbl_crc24_bits)
  moreover have "crc24_bits (?x AND NOT 0xff) = drop_bit 8 (?x AND NOT 0xff)"
    by (rule crc24_bits_shift) (rule bit_word_eqI, auto simp: bit_simps)
  moreover have "drop_bit 8 (?x AND NOT 0xff) = drop_bit 8 fcs"
    unfolding mask_8 by (rule bit_word_eqI) (auto simp: bit_simps dest: bit_imp_le_length)
  ultimately show ?thesis
    by (subst split) (simp add: crc24_octet_def crc24_bits_xor)
qed

text \<open>On 24-bit states the steps stay 24-bit and are injective: bit 23 tells what was shifted out.\<close>

definition is24 :: "u32 \<Rightarrow> bool" where
  "is24 x \<longleftrightarrow> drop_bit 24 x = 0"

lemma drop_bit_0_iff: "drop_bit m (x :: 'a::len word) = 0 \<longleftrightarrow> (\<forall>n\<ge>m. \<not> bit x n)"
proof -
  have "drop_bit m x = 0 \<longleftrightarrow> (\<forall>k. \<not> bit x (m + k))"
    by (auto simp: bit_eq_iff bit_simps) (metis add_lessD1 add.commute bit_imp_le_length)
  then show ?thesis by (metis le_Suc_ex le_add1)
qed

lemma is24_iff: "is24 x \<longleftrightarrow> (\<forall>n\<ge>24. \<not> bit x n)"
  by (simp add: is24_def drop_bit_0_iff)

lemma is24_xor: "is24 x \<Longrightarrow> is24 y \<Longrightarrow> is24 (x XOR y)"
  by (simp add: is24_def)

lemma is24_octet: "is24 (ucast (c :: u8))"
  by (auto simp: is24_iff bit_simps dest: bit_imp_le_length)

lemma crc24_bit_is24:
  assumes "is24 x"
  shows "is24 (crc24_bit x)"
  unfolding crc24_bit_def
proof (rule is24_xor)
  show "is24 (drop_bit 1 x)" using assms by (simp add: is24_iff bit_simps)
  show "is24 (if bit x 0 then 0xAD85DD else 0)" by (simp add: is24_def)
qed

lemma crc24_bit_eq_0:
  assumes "is24 x" "crc24_bit x = 0"
  shows "x = 0"
proof -
  have "bit (crc24_bit x) 23 = bit x 0" using assms(1) by (auto simp: crc24_bit_def bit_simps is24_iff)
  with assms(2) have 0: "\<not> bit x 0" by simp
  with assms(2) have "\<forall>n\<ge>1. \<not> bit x n" by (simp add: crc24_bit_def drop_bit_0_iff)
  with 0 have "\<not> bit x n" for n by (cases n) auto
  then show ?thesis by (simp add: bit_eq_iff)
qed

lemma crc24_bits_is24: "is24 x \<Longrightarrow> is24 (crc24_bits x)"
  by (simp add: crc24_bits_def crc24_bit_is24)

lemma crc24_bits_eq_0: "is24 x \<Longrightarrow> crc24_bits x = 0 \<Longrightarrow> x = 0"
  unfolding crc24_bits_def by (metis crc24_bit_eq_0 crc24_bit_is24)

lemma xor_eq_0: "(x :: 'a::len word) XOR y = 0 \<longleftrightarrow> x = y"
  by (metis xor.assoc xor_self_eq xor.left_neutral xor.right_neutral)

lemma xor_cancel: "(x :: 'a::len word) XOR z = y XOR z \<longleftrightarrow> x = y"
  by (metis xor.assoc xor_self_eq xor.right_neutral)

lemma crc24_bits_inj: "is24 x \<Longrightarrow> is24 y \<Longrightarrow> crc24_bits x = crc24_bits y \<longleftrightarrow> x = y"
  by (metis crc24_bits_eq_0 crc24_bits_xor is24_xor xor_eq_0)

subsection \<open>Messages\<close>

lemma crc24_calc_foldl:
  "len \<le> length cp \<Longrightarrow> crc24_calc fcs cp len = Inr (foldl crc24_octet fcs (take len cp))"
  by (induction fcs cp len rule: crc24_calc.induct) simp_all

lemma foldl_is24: "is24 fcs \<Longrightarrow> is24 (foldl crc24_octet fcs bs)"
  by (induction bs arbitrary: fcs) (simp_all add: crc24_octet_bits crc24_bits_is24 is24_xor is24_octet)

lemma foldl_inj:
  "is24 x \<Longrightarrow> is24 y \<Longrightarrow> foldl crc24_octet x bs = foldl crc24_octet y bs \<longleftrightarrow> x = y"
proof (induction bs arbitrary: x y)
  case (Cons b bs)
  have "is24 (crc24_octet x b)" "is24 (crc24_octet y b)"
    using Cons.prems by (simp_all add: crc24_octet_bits crc24_bits_is24 is24_xor is24_octet)
  moreover have "crc24_octet x b = crc24_octet y b \<longleftrightarrow> x = y"
    using Cons.prems by (simp add: crc24_octet_bits crc24_bits_inj is24_xor is24_octet xor_cancel)
  ultimately show ?case using Cons.IH by simp
qed simp

text \<open>A difference that an octet step maps below \<open>2 ^ 16\<close> came from the octets above.\<close>

lemma crc24_bits_eq_small:
  assumes "is24 x" "crc24_bits x = z" "drop_bit 16 z = 0"
  shows "x = push_bit 8 z"
proof -
  have z: "\<not> bit z n" if "16 \<le> n" for n
    using assms(3) that by (simp add: drop_bit_0_iff)
  have "is24 (push_bit 8 z)" unfolding is24_def by (rule bit_word_eqI) (auto simp: bit_simps z)
  moreover have "crc24_bits (push_bit 8 z) = drop_bit 8 (push_bit 8 z)"
    by (rule crc24_bits_shift) (unfold mask_8, rule bit_word_eqI, auto simp: bit_simps)
  moreover have "drop_bit 8 (push_bit 8 z) = z"
    by (rule bit_word_eqI) (auto simp: bit_simps, rule ccontr, simp add: z)
  ultimately show ?thesis using assms(1,2) crc24_bits_inj by metis
qed

lemma octet_shifted_0:
  assumes "drop_bit 8 x = 0" and "x = push_bit 8 (y :: u32)"
  shows "x = 0"
proof -
  have "\<not> bit x n" for n
  proof (cases "8 \<le> n")
    case True
    then show ?thesis using assms(1) by (simp add: drop_bit_0_iff)
  next
    case False
    then show ?thesis unfolding assms(2) by (simp add: bit_simps)
  qed
  then show ?thesis by (simp add: bit_eq_iff)
qed

lemma octet_push_0:
  assumes "drop_bit 8 (x :: u32) = 0" and "push_bit 8 x = 0"
  shows "x = 0"
proof -
  have "\<not> bit x n" for n
  proof (cases "8 \<le> n")
    case True
    then show ?thesis using assms(1) by (simp add: drop_bit_0_iff)
  next
    case False
    moreover have "\<not> bit (push_bit 8 x) (n + 8)" using assms(2) by simp
    ultimately show ?thesis by (simp add: bit_simps)
  qed
  then show ?thesis by (simp add: bit_eq_iff)
qed

lemma burst_differs:
  assumes A: "drop_bit 8 A = 0" and B: "drop_bit 8 B = 0" and C: "drop_bit 8 C = 0"
    and "crc24_bits (crc24_bits (crc24_bits A XOR B) XOR C) = 0"
  shows "A = 0 \<and> B = 0 \<and> C = 0"
proof -
  have i: "is24 A" "is24 B" "is24 C" using A B C by (simp_all add: is24_iff drop_bit_0_iff)
  let ?d1 = "crc24_bits A" let ?d2 = "crc24_bits (?d1 XOR B)"
  have "is24 (?d2 XOR C)" using i by (intro is24_xor crc24_bits_is24)
  then have "?d2 = C" using assms(4) crc24_bits_eq_0 xor_eq_0 by metis
  then have "?d1 XOR B = push_bit 8 C"
    using i C by (intro crc24_bits_eq_small is24_xor crc24_bits_is24) (simp_all add: drop_bit_0_iff)
  then have d1: "?d1 = push_bit 8 C XOR B" by (metis xor.assoc xor_self_eq xor.right_neutral)
  then have "A = push_bit 8 (push_bit 8 C XOR B)"
    using i B C by (intro crc24_bits_eq_small; unfold drop_bit_0_iff) (auto simp: bit_simps)
  with A have A0: "A = 0" by (rule octet_shifted_0)
  with d1 have BC: "B = push_bit 8 C" by (metis crc24_bits_0 xor_eq_0)
  with B have "B = 0" by (rule octet_shifted_0)
  with BC C have "C = 0" by (metis octet_push_0)
  with A0 \<open>B = 0\<close> show ?thesis by simp
qed

text \<open>The difference of two runs over three octets from the same state.\<close>

lemma foldl_diff:
  "foldl crc24_octet x [a, b, c] XOR foldl crc24_octet x [a', b', c'] =
   crc24_bits (crc24_bits (crc24_bits (ucast a XOR ucast a') XOR (ucast b XOR ucast b')) XOR (ucast c XOR ucast c'))"
  by (simp add: crc24_octet_bits crc24_bits_xor xor.assoc xor.left_commute xor.commute)

lemma ucast_xor_0: "ucast (a :: u8) XOR ucast a' = (0 :: u32) \<longleftrightarrow> a = a'"
proof
  assume "ucast a XOR ucast a' = (0 :: u32)"
  then have "ucast a = (ucast a' :: u32)" by (simp only: xor_eq_0)
  from arg_cong [OF this, of uint] show "a = a'"
    using uint_lt2p [of a] uint_lt2p [of a'] by (simp add: unsigned_ucast_eq take_bit_eq_mod word_uint_eq_iff)
qed simp

lemma burst_detected:
  assumes "is24 x" and "[a, b, c] \<noteq> [a', b', c']"
  shows "foldl crc24_octet x (pre @ [a, b, c] @ post) \<noteq> foldl crc24_octet x (pre @ [a', b', c'] @ post)"
proof
  let ?y = "foldl crc24_octet x pre"
  have o: "drop_bit 8 (ucast (u :: u8) XOR ucast v :: u32) = 0" for u v :: u8
    unfolding drop_bit_0_iff by (auto simp: bit_simps dest: bit_imp_le_length)
  assume "foldl crc24_octet x (pre @ [a, b, c] @ post) = foldl crc24_octet x (pre @ [a', b', c'] @ post)"
  then have "foldl crc24_octet ?y [a, b, c] = foldl crc24_octet ?y [a', b', c']"
    using foldl_inj foldl_is24 [OF assms(1)] by (metis foldl_append)
  then have "foldl crc24_octet ?y [a, b, c] XOR foldl crc24_octet ?y [a', b', c'] = 0" by (simp only: xor_eq_0)
  then have "crc24_bits (crc24_bits (crc24_bits (ucast a XOR ucast a') XOR (ucast b XOR ucast b')) XOR
      (ucast c XOR ucast c')) = 0"
    unfolding foldl_diff .
  from burst_differs [OF o o o this] show False using assms(2) by (simp add: ucast_xor_0)
qed

lemma mask_24: "(0xffffff :: u32) = mask 24"
  by (simp add: mask_eq_exp_minus_1)

lemma not24_inj:
  assumes "is24 x" "is24 y" "NOT x AND 0xffffff = NOT y AND (0xffffff :: u32)"
  shows "x = y"
proof (rule bit_word_eqI)
  fix n assume "n < LENGTH(32)"
  then show "bit x n = bit y n"
    using assms(1,2) arg_cong [OF assms(3) [unfolded mask_24], of "\<lambda>w. bit w n"]
    by (cases "n < 24") (auto simp: bit_simps is24_iff)
qed

lemma INIT_is24: "is24 INIT_CRC24"
  by (simp add: is24_def INIT_CRC24_def)

lemma gprs_llc_fcs_foldl:
  "len \<le> length data \<Longrightarrow>
   gprs_llc_fcs data len = Inr (NOT (foldl crc24_octet INIT_CRC24 (take len data)) AND 0xffffff)"
  by (simp add: gprs_llc_fcs_def crc24_calc_foldl)

lemma gprs_llc_fcs_is24: "gprs_llc_fcs data len = Inr fcs \<Longrightarrow> is24 fcs"
  by (auto simp: gprs_llc_fcs_def ebind_Inr_iff is24_def)

subsection \<open>Properties\<close>

text \<open>
  C16. The table-driven loop computes the bit-serial CRC-24 with the reflected generator
  \<open>0xAD85DD\<close> over the first \<open>len\<close> octets.
\<close>

theorem crc24_calc_bitwise:
  assumes "len \<le> length cp"
  shows "crc24_calc fcs cp len = Inr (foldl (\<lambda>x c. crc24_bits (x XOR ucast c)) fcs (take len cp))"
  unfolding crc24_calc_foldl [OF assms] crc24_octet_bits [abs_def] ..

theorem crc24_calc_bitwise_witness:
  "crc24_calc INIT_CRC24 [1, 2, 3] 2 = Inr (foldl (\<lambda>x c. crc24_bits (x XOR ucast (c :: u8))) INIT_CRC24 [1, 2])"
  using crc24_calc_bitwise [of 2 "[1, 2, 3]" INIT_CRC24] by simp

text \<open>
  C17. Two frames of the same length that differ only within three consecutive octets have
  different frame check sequences.
\<close>

theorem fcs_detects_burst:
  assumes "[a, b, c] \<noteq> [a', b', c']" and "len = length pre + 3 + length post"
  shows "gprs_llc_fcs (pre @ [a, b, c] @ post) len \<noteq> gprs_llc_fcs (pre @ [a', b', c'] @ post) len"
proof
  assume "gprs_llc_fcs (pre @ [a, b, c] @ post) len = gprs_llc_fcs (pre @ [a', b', c'] @ post) len"
  then have "NOT (foldl crc24_octet INIT_CRC24 (pre @ [a, b, c] @ post)) AND 0xffffff =
      NOT (foldl crc24_octet INIT_CRC24 (pre @ [a', b', c'] @ post)) AND 0xffffff"
    using assms(2) by (simp add: gprs_llc_fcs_foldl del: foldl_append foldl_Cons)
  from not24_inj [OF foldl_is24 [OF INIT_is24] foldl_is24 [OF INIT_is24] this]
  show False using burst_detected [OF INIT_is24 assms(1)] by blast
qed

theorem fcs_detects_burst_witness:
  "gprs_llc_fcs [1, 0xC0, 1, 7, 8] 5 \<noteq> gprs_llc_fcs [1, 0xC0, 5, 9, 8] 5"
  using fcs_detects_burst [of "0xC0" 1 7 "0xC0" 5 9 5 "[1]" "[8]"] by simp

end
