(* ===== verification/Llc_Parse.thy ===== *)
theory Llc_Parse
  imports Crc24
begin

unbundle bit_operations_syntax

section \<open>LLC frame headers (src/src/gprs/gprs\_llc\_parse.c)\<close>

text \<open>
  Parsing of the address and control fields of an LLC frame (3GPP TS 44.064).  A frame is
  the memory from \<^verbatim>\<open>llc_hdr\<close> on and its length; pointers into it are offsets, NULL is
  \<open>None\<close>.  The struct is passed in because the code only writes some of its members.
\<close>

subsection \<open>Model\<close>

datatype llc_cmd =
  GPRS_LLC_NULL | GPRS_LLC_RR | GPRS_LLC_ACK | GPRS_LLC_RNR | GPRS_LLC_SACK | GPRS_LLC_DM
| GPRS_LLC_DISC | GPRS_LLC_UA | GPRS_LLC_SABM | GPRS_LLC_FRMR | GPRS_LLC_XID | GPRS_LLC_UI

record llc_hdr_parsed =
  gh_sapi :: u8
  gh_is_cmd :: bool
  gh_ack_req :: bool
  gh_is_encrypted :: bool
  gh_seq_rx :: u32
  gh_seq_tx :: u32
  gh_fcs :: u32
  gh_fcs_calc :: u32
  gh_data :: "nat option"
  gh_data_len :: u16
  gh_crc_length :: u16
  gh_cmd :: llc_cmd

definition zero_hdr_parsed :: llc_hdr_parsed where
  "zero_hdr_parsed = \<lparr>gh_sapi = 0, gh_is_cmd = False, gh_ack_req = False, gh_is_encrypted = False,
     gh_seq_rx = 0, gh_seq_tx = 0, gh_fcs = 0, gh_fcs_calc = 0, gh_data = None, gh_data_len = 0,
     gh_crc_length = 0, gh_cmd = GPRS_LLC_NULL\<rparr>"

definition CRC24_LENGTH :: int where "CRC24_LENGTH = 3"
definition UI_HDR_LEN :: u16 where "UI_HDR_LEN = 3"
definition N202 :: u16 where "N202 = 4"

text \<open>\<^verbatim>\<open>(llc_hdr + len - 3) - ghp->data\<close>, converted to \<^verbatim>\<open>uint16_t\<close>.\<close>

definition info_len :: "int \<Rightarrow> nat \<Rightarrow> u16" where
  "info_len len data = word_of_int (len - 3 - int data)"

text \<open>The two low bits of a supervisory control field.\<close>

definition s_cmd :: "u8 \<Rightarrow> llc_cmd" where
  "s_cmd b = (if b AND 0x03 = 0 then GPRS_LLC_RR else if b AND 0x03 = 1 then GPRS_LLC_ACK
              else if b AND 0x03 = 2 then GPRS_LLC_RNR else GPRS_LLC_SACK)"

text \<open>The unnumbered commands; \<open>None\<close> is the default branch.\<close>

definition u_cmd :: "u8 \<Rightarrow> llc_cmd option" where
  "u_cmd b =
     (if b AND 0xf = 0x00 then Some GPRS_LLC_NULL
      else if b AND 0xf = 0x01 then Some GPRS_LLC_DM
      else if b AND 0xf = 0x04 then Some GPRS_LLC_DISC
      else if b AND 0xf = 0x06 then Some GPRS_LLC_UA
      else if b AND 0xf = 0x07 then Some GPRS_LLC_SABM
      else if b AND 0xf = 0x08 then Some GPRS_LLC_FRMR
      else if b AND 0xf = 0x0b then Some GPRS_LLC_XID
      else None)"

text \<open>The nine-bit sequence numbers, from five and four or from three and six bits.\<close>

definition seq_5_4 :: "u8 \<Rightarrow> u8 \<Rightarrow> u32" where
  "seq_5_4 a b = push_bit 4 (ucast (a AND 0x1f)) OR ucast (drop_bit 4 b)"

definition seq_3_6 :: "u8 \<Rightarrow> u8 \<Rightarrow> u32" where
  "seq_3_6 a b = push_bit 6 (ucast (a AND 0x7)) OR ucast (drop_bit 2 b)"

definition parse_i_format :: "llc_hdr_parsed \<Rightarrow> octets \<Rightarrow> int \<Rightarrow> u8 \<Rightarrow> (int \<times> llc_hdr_parsed) exec" where
  "parse_i_format ghp llc_hdr len c0 =
     ebind (rd llc_hdr 2) (\<lambda>c1. ebind (rd llc_hdr 3) (\<lambda>c2.
     let ghp = ghp\<lparr>gh_ack_req := (if c0 AND 0x40 \<noteq> 0 then True else gh_ack_req ghp),
                   gh_seq_tx := seq_5_4 c0 c1,
                   gh_seq_rx := seq_3_6 c1 c2,
                   gh_cmd := s_cmd c2\<rparr>
     in if s_cmd c2 = GPRS_LLC_SACK
        then ebind (rd llc_hdr 4) (\<lambda>c3.
          let data = 4 + 1 + unat (c3 AND 0x1f)
          in Inr (0, ghp\<lparr>gh_data := Some data, gh_data_len := info_len len data\<rparr>))
        else Inr (0, ghp\<lparr>gh_data := Some 4, gh_data_len := info_len len 4\<rparr>)))"

definition parse_s_format :: "llc_hdr_parsed \<Rightarrow> octets \<Rightarrow> u8 \<Rightarrow> (int \<times> llc_hdr_parsed) exec" where
  "parse_s_format ghp llc_hdr c0 =
     ebind (rd llc_hdr 2) (\<lambda>c1.
     Inr (0, ghp\<lparr>gh_data := None, gh_data_len := 0,
                 gh_ack_req := (if c0 AND 0x20 \<noteq> 0 then True else gh_ack_req ghp),
                 gh_seq_rx := seq_3_6 c0 c1,
                 gh_cmd := s_cmd c1\<rparr>))"

definition parse_ui_format :: "llc_hdr_parsed \<Rightarrow> octets \<Rightarrow> int \<Rightarrow> u8 \<Rightarrow> (int \<times> llc_hdr_parsed) exec" where
  "parse_ui_format ghp llc_hdr len c0 =
     ebind (rd llc_hdr 2) (\<lambda>c1.
     Inr (0, ghp\<lparr>gh_cmd := GPRS_LLC_UI, gh_data := Some 3, gh_data_len := info_len len 3,
                 gh_seq_tx := seq_3_6 c0 c1,
                 gh_is_encrypted := (if c1 AND 0x02 \<noteq> 0 then True else gh_is_encrypted ghp),
                 gh_crc_length :=
                   (if c1 AND 0x01 \<noteq> 0 then gh_crc_length ghp
                    else if gh_crc_length ghp > UI_HDR_LEN + N202 then UI_HDR_LEN + N202
                    else gh_crc_length ghp)\<rparr>))"

definition parse_u_format :: "llc_hdr_parsed \<Rightarrow> int \<Rightarrow> u8 \<Rightarrow> (int \<times> llc_hdr_parsed) exec" where
  "parse_u_format ghp len c0 =
     (let ghp = ghp\<lparr>gh_data := None, gh_data_len := 0\<rparr> in
      case u_cmd c0 of
        None \<Rightarrow> Inr (- EIO, ghp)
      | Some cmd \<Rightarrow>
          if cmd = GPRS_LLC_XID
          then Inr (0, ghp\<lparr>gh_cmd := cmd, gh_data := Some 2, gh_data_len := info_len len 2\<rparr>)
          else Inr (0, ghp\<lparr>gh_cmd := cmd\<rparr>))"

definition reserved_sapi :: "u8 \<Rightarrow> bool" where
  "reserved_sapi sapi \<longleftrightarrow> sapi \<in> {0, 4, 6, 0xa, 0xc, 0xd, 0xf}"

text \<open>The control field, once the address field is accepted; a SACK frame is refused at the end.\<close>

definition parse_format :: "llc_hdr_parsed \<Rightarrow> octets \<Rightarrow> int \<Rightarrow> u8 \<Rightarrow> (int \<times> llc_hdr_parsed) exec" where
  "parse_format ghp llc_hdr len c0 =
     (if c0 AND 0x80 = 0 then parse_i_format ghp llc_hdr len c0
      else if c0 AND 0xc0 = 0x80 then parse_s_format ghp llc_hdr c0
      else if c0 AND 0xe0 = 0xc0 then parse_ui_format ghp llc_hdr len c0
      else parse_u_format ghp len c0)"

definition parse_ctrl :: "llc_hdr_parsed \<Rightarrow> octets \<Rightarrow> int \<Rightarrow> (int \<times> llc_hdr_parsed) exec" where
  "parse_ctrl ghp llc_hdr len =
     ebind (rd llc_hdr 1) (\<lambda>c0.
     ebind (parse_format ghp llc_hdr len c0) (\<lambda>(rc, ghp).
     if rc < 0 then Inr (rc, ghp)
     else if gh_cmd ghp = GPRS_LLC_SACK then Inr (- EIO, ghp)
     else Inr (0, ghp)))"

text \<open>The three octets of the FCS, least significant first.\<close>

definition fcs_at :: "octets \<Rightarrow> nat \<Rightarrow> u32 exec" where
  "fcs_at mem i =
     ebind (rd mem i) (\<lambda>f0. ebind (rd mem (i + 1)) (\<lambda>f1. ebind (rd mem (i + 2)) (\<lambda>f2.
       Inr (ucast f0 OR push_bit 8 (ucast f1) OR push_bit 16 (ucast f2)))))"

definition gprs_llc_hdr_parse :: "llc_hdr_parsed \<Rightarrow> octets \<Rightarrow> int \<Rightarrow> (int \<times> llc_hdr_parsed) exec" where
  "gprs_llc_hdr_parse ghp llc_hdr len =
     (if len \<le> CRC24_LENGTH then Inr (- EIO, ghp)
      else
        ebind (fcs_at llc_hdr (nat (len - 3))) (\<lambda>fcs.
        let ghp = ghp\<lparr>gh_crc_length := word_of_int (len - CRC24_LENGTH), gh_ack_req := False,
                      gh_fcs := fcs\<rparr> in
        ebind (rd llc_hdr 0) (\<lambda>a.
        if a AND 0x80 \<noteq> 0 then Inr (- EIO, ghp)
        else
          let ghp = ghp\<lparr>gh_is_cmd := (a AND 0x40 = 0), gh_sapi := a AND 0xf\<rparr> in
          if reserved_sapi (a AND 0xf) then Inr (- EINVAL, ghp)
          else parse_ctrl ghp llc_hdr len)))"

text \<open>\<open>gprs_llc_is_retransmit\<close> of include/osmocom/sgsn/gprs\_llc.h.\<close>

definition gprs_llc_is_retransmit :: "u16 \<Rightarrow> u16 \<Rightarrow> bool" where
  "gprs_llc_is_retransmit nu vur =
     (let delta = (uint vur - uint nu) AND 0x1ff in 0 < delta \<and> delta < 32)"

subsection \<open>Bounds\<close>

lemma parse_ctrl_safe:
  assumes "5 \<le> length mem"
  shows "\<exists>rc g. parse_ctrl ghp mem len = Inr (rc, g)"
  using assms
  by (auto simp: parse_ctrl_def parse_format_def parse_i_format_def parse_s_format_def parse_ui_format_def
      parse_u_format_def rd_in Let_def split: option.splits)

lemma fcs_at_in: "i + 2 < length mem \<Longrightarrow>
    fcs_at mem i = Inr (ucast (mem ! i) OR push_bit 8 (ucast (mem ! (i + 1))) OR push_bit 16 (ucast (mem ! (i + 2))))"
  by (simp add: fcs_at_def rd_in)

text \<open>Each format leaves the struct with no information field or with one of at most four header octets before it.\<close>

definition info_ok :: "int \<Rightarrow> llc_hdr_parsed \<Rightarrow> bool" where
  "info_ok len g \<longleftrightarrow> gh_cmd g = GPRS_LLC_SACK \<or>
     (case gh_data g of None \<Rightarrow> True | Some d \<Rightarrow> d \<le> 4 \<and> gh_data_len g = info_len len d)"

lemma parse_i_format_info: "parse_i_format ghp mem len c0 = Inr (rc, g) \<Longrightarrow> info_ok len g"
  by (auto simp: info_ok_def parse_i_format_def ebind_Inr_iff Let_def split: if_split_asm)

lemma parse_s_format_info: "parse_s_format ghp mem c0 = Inr (rc, g) \<Longrightarrow> info_ok len g"
  by (auto simp: info_ok_def parse_s_format_def ebind_Inr_iff)

lemma parse_ui_format_info: "parse_ui_format ghp mem len c0 = Inr (rc, g) \<Longrightarrow> info_ok len g"
  by (auto simp: info_ok_def parse_ui_format_def ebind_Inr_iff)

lemma parse_u_format_info: "parse_u_format ghp len c0 = Inr (rc, g) \<Longrightarrow> info_ok len g"
  by (auto simp: info_ok_def parse_u_format_def Let_def split: if_split_asm option.split_asm)

lemma parse_format_info: "parse_format ghp mem len c0 = Inr (rc, g) \<Longrightarrow> info_ok len g"
  unfolding parse_format_def
  by (auto dest: parse_i_format_info parse_s_format_info parse_ui_format_info parse_u_format_info
      split: if_split_asm)

lemma parse_ctrl_data:
  assumes "parse_ctrl ghp mem len = Inr (0, g)" and "7 \<le> len" "len \<le> 65535" and "gh_data g = Some d"
  shows "int d + uint (gh_data_len g) = len - 3"
proof -
  obtain c0 rc where "parse_format ghp mem len c0 = Inr (rc, g)" "gh_cmd g \<noteq> GPRS_LLC_SACK"
    using assms(1) by (auto simp: parse_ctrl_def ebind_Inr_iff errno_defs split: if_split_asm)
  then have "info_ok len g" "gh_cmd g \<noteq> GPRS_LLC_SACK" by (auto dest: parse_format_info)
  then have "d \<le> 4" "gh_data_len g = info_len len d" using assms(4) by (simp_all add: info_ok_def)
  then show ?thesis using assms(2,3) by (simp only: info_len_def uint_word_of_int) simp
qed

lemma is_retransmit_mod:
  "gprs_llc_is_retransmit nu vur \<longleftrightarrow> 0 < (uint vur - uint nu) mod 512 \<and> (uint vur - uint nu) mod 512 < 32"
proof -
  have "(uint vur - uint nu) AND 0x1ff = (uint vur - uint nu) mod 512"
    using take_bit_eq_mask [of 9 "uint vur - uint nu"] by (simp add: mask_eq_exp_minus_1 take_bit_eq_mod)
  then show ?thesis by (simp add: gprs_llc_is_retransmit_def Let_def)
qed

lemma hdr_parse_in:
  assumes "5 \<le> len" and "nat len \<le> length mem"
  shows "\<exists>rc g. gprs_llc_hdr_parse ghp mem len = Inr (rc, g)"
proof -
  have l: "nat (len - 3) + 2 < length mem" "5 \<le> length mem" "0 < length mem" using assms by linarith+
  show ?thesis
    unfolding gprs_llc_hdr_parse_def fcs_at_in [OF l(1)] rd_in [OF l(3)] Let_def
    using parse_ctrl_safe [OF l(2)] by (auto simp: CRC24_LENGTH_def)
qed

text \<open>A frame of four octets that ends with the buffer.\<close>

lemma hdr_parse_four:
  "gprs_llc_hdr_parse ghp [a, c0, c1, c2] 4 = Inl f \<longleftrightarrow>
     f = Oob_access \<and> a AND 0x80 = 0 \<and> \<not> reserved_sapi (a AND 0xf) \<and> c0 AND 0x80 = 0 \<and> s_cmd c2 = GPRS_LLC_SACK"
proof -
  have "parse_ctrl g [a, c0, c1, c2] 4 = Inl f \<longleftrightarrow> f = Oob_access \<and> c0 AND 0x80 = 0 \<and> s_cmd c2 = GPRS_LLC_SACK" for g
    by (auto simp: parse_ctrl_def parse_format_def parse_i_format_def parse_s_format_def parse_ui_format_def
        parse_u_format_def Let_def split: option.splits)
  then show ?thesis by (auto simp: gprs_llc_hdr_parse_def fcs_at_def CRC24_LENGTH_def Let_def)
qed

subsection \<open>Properties\<close>

text \<open>
  C18. Parsing a frame of at least five octets that lie in the buffer never reads outside
  it, whatever the octets are.
\<close>

theorem hdr_parse_safe:
  assumes "5 \<le> len" and "nat len \<le> length mem"
  shows "\<exists>rc g. gprs_llc_hdr_parse ghp mem len = Inr (rc, g)"
  using assms by (rule hdr_parse_in)

theorem hdr_parse_safe_witness:
  "\<exists>rc g. gprs_llc_hdr_parse zero_hdr_parsed [1, 0xC0, 1, 0, 0, 0] 6 = Inr (rc, g)"
  by (rule hdr_parse_safe) simp_all

text \<open>
  C40. The frames that are read past their end, when the buffer ends with the frame: exactly those of four octets with an accepted
  address field whose control field is in the I format with the SACK command; the length of the bitmap is then read behind
  the frame.  No other frame of any length is read outside the buffer.
\<close>

theorem hdr_parse_overread:
  "gprs_llc_hdr_parse ghp mem (int (length mem)) = Inl f \<longleftrightarrow>
     f = Oob_access \<and> length mem = 4 \<and> mem ! 0 AND 0x80 = 0 \<and> \<not> reserved_sapi (mem ! 0 AND 0xf) \<and>
     mem ! 1 AND 0x80 = 0 \<and> s_cmd (mem ! 3) = GPRS_LLC_SACK"
proof -
  consider "length mem \<le> 3" | "length mem = 4" | "5 \<le> int (length mem)" by linarith
  then show ?thesis
  proof cases
    case 1
    then show ?thesis by (simp add: gprs_llc_hdr_parse_def CRC24_LENGTH_def)
  next
    case 2
    then obtain a c0 c1 c2 where "mem = [a, c0, c1, c2]" by (auto simp: numeral_eq_Suc length_Suc_conv)
    then show ?thesis using hdr_parse_four [of ghp a c0 c1 c2 f] by (simp add: numeral_3_eq_3)
  next
    case 3
    then show ?thesis using hdr_parse_in [OF 3, of mem ghp] by auto
  qed
qed

text \<open>
  When a frame of 7 to 65535 octets is accepted and carries an information field, that
  field starts at the returned offset and ends exactly before the three octets of the FCS.
\<close>

theorem hdr_parse_info_field:
  assumes "gprs_llc_hdr_parse ghp mem len = Inr (0, g)"
    and "7 \<le> len" and "len \<le> 65535" and "gh_data g = Some d"
  shows "int d + uint (gh_data_len g) = len - 3"
proof -
  from assms(1) obtain ghp' where "parse_ctrl ghp' mem len = Inr (0, g)"
    by (auto simp: gprs_llc_hdr_parse_def ebind_Inr_iff Let_def errno_defs split: if_splits)
  then show ?thesis using assms(2-4) by (rule parse_ctrl_data)
qed

theorem hdr_parse_info_field_witness:
  "\<exists>g d. gprs_llc_hdr_parse zero_hdr_parsed [1, 0xC0, 1, 9, 9, 9, 0, 0, 0] 9 = Inr (0, g) \<and>
     gh_data g = Some d \<and> int d + uint (gh_data_len g) = 9 - 3"
proof -
  obtain g where g: "gprs_llc_hdr_parse zero_hdr_parsed [1, 0xC0, 1, 9, 9, 9, 0, 0, 0] 9 = Inr (0, g)" "gh_data g = Some 3"
    by (simp add: gprs_llc_hdr_parse_def fcs_at_def CRC24_LENGTH_def reserved_sapi_def parse_ctrl_def parse_format_def
      parse_ui_format_def Let_def)
  from hdr_parse_info_field [OF g(1) _ _ g(2)] show ?thesis
    using g by auto
qed

text \<open>
  A UI frame of four octets is accepted with an information field of 65534 octets: the
  difference of the pointers is negative and is stored in a \<^verbatim>\<open>uint16_t\<close>.
\<close>

theorem hdr_parse_short_ui:
  "\<exists>g. gprs_llc_hdr_parse zero_hdr_parsed [0x01, 0xC0, 0x01, 0x00] 4 = Inr (0, g) \<and>
     gh_cmd g = GPRS_LLC_UI \<and> gh_data g = Some 3 \<and> gh_data_len g = 65534"
  by (simp add: gprs_llc_hdr_parse_def fcs_at_def CRC24_LENGTH_def reserved_sapi_def parse_ctrl_def parse_format_def
      parse_ui_format_def info_len_def Let_def)

text \<open>
  A sequence number counts as retransmitted exactly when it is one of the 31 numbers
  before V(UR) modulo 512; the number 32 before, which the comment includes, is accepted
  as new.
\<close>

theorem is_retransmit_window:
  "gprs_llc_is_retransmit nu vur \<longleftrightarrow> (\<exists>k\<in>{1..31}. (uint nu + k) mod 512 = uint vur mod 512)"
proof -
  have "(uint nu + k) mod 512 = uint vur mod 512 \<longleftrightarrow> (uint vur - uint nu) mod 512 = k" if "k \<in> {1..31}" for k
  proof -
    have "uint nu + k - uint vur = - (uint vur - uint nu - k)" by simp
    then have "(uint nu + k) mod 512 = uint vur mod 512 \<longleftrightarrow> (uint vur - uint nu) mod 512 = k mod 512"
      by (simp only: mod_eq_dvd_iff dvd_minus_iff)
    moreover have "k mod 512 = k" using that by simp
    ultimately show ?thesis by simp
  qed
  then show ?thesis unfolding is_retransmit_mod by (auto simp: Bex_def)
qed

end
