(* ===== verification/Llc_Xid.thy ===== *)
theory Llc_Xid
  imports Osmo_Prelude
begin

unbundle bit_operations_syntax

section \<open>LLC XID parameter fields (src/src/sgsn/gprs\_llc\_xid.c)\<close>

text \<open>
  Encoding and decoding of the XID parameter fields of the LLC layer (3GPP TS 44.064,
  6.4.1.6).  A \<open>struct gprs_llc_xid_field\<close> is the record below; the lists the code
  links through \<^verbatim>\<open>struct llist_head\<close> are HOL lists from the first to the last entry,
  so \<^verbatim>\<open>llist_add\<close> is \<open>#\<close>.  The bytes written to \<^verbatim>\<open>dst\<close> are the list
  returned next to the return code.  The lemmas show that parsing never reads outside its
  input, that it is inverse to compiling, and what happens to inputs of 256 octets.
\<close>

subsection \<open>Model\<close>

record llc_xid_field =
  xid_type :: u8
  xid_data :: "octets option"   \<comment> \<open>None is a NULL pointer\<close>
  xid_data_len :: nat

definition zero_xid_field :: llc_xid_field where
  "zero_xid_field = \<lparr>xid_type = 0, xid_data = None, xid_data_len = 0\<rparr>"

text \<open>The bit fields of the first header octet, and the length with the extension octet.\<close>

definition xid_hdr_xl :: "u8 \<Rightarrow> u8" where
  "xid_hdr_xl b0 = drop_bit 7 b0 AND 1"

definition xid_hdr_type :: "u8 \<Rightarrow> u8" where
  "xid_hdr_type b0 = drop_bit 2 b0 AND 0x1F"

definition xid_hdr_len :: "u8 \<Rightarrow> u8" where
  "xid_hdr_len b0 = b0 AND 0x3"

definition xid_hdr_len_ext :: "u8 \<Rightarrow> u8 \<Rightarrow> u8" where
  "xid_hdr_len_ext len b1 = (push_bit 6 len AND 0xC0) OR (drop_bit 2 b1 AND 0x3F)"

text \<open>The tail of \<open>decode_xid_field\<close>: fill out the struct once type and length are known.\<close>

definition fill_xid_field :: "u8 \<Rightarrow> u8 \<Rightarrow> octets \<Rightarrow> u8 \<Rightarrow> nat \<Rightarrow> (int \<times> llc_xid_field) exec" where
  "fill_xid_field typ len src src_len src_counter =
     (let f = \<lparr>xid_type = typ, xid_data = None, xid_data_len = unat len\<rparr> in
      if len > 0 then
        if unat src_len < src_counter + unat len then Inr (- EINVAL, f)
        else if length src < unat len then Inl Oob_access
        else Inr (int (src_counter + unat len), f\<lparr>xid_data := Some (take (unat len) src)\<rparr>)
      else Inr (int (src_counter + unat len), f))"

definition decode_xid_field :: "octets \<Rightarrow> u8 \<Rightarrow> (int \<times> llc_xid_field) exec" where
  "decode_xid_field src src_len =
     (if src_len < 1 then Inr (- EINVAL, zero_xid_field)
      else ebind (rd src 0) (\<lambda>b0.
        if xid_hdr_xl b0 \<noteq> 0 then
          if src_len < 2 then Inr (- EINVAL, zero_xid_field)
          else ebind (rd src 1) (\<lambda>b1.
            fill_xid_field (xid_hdr_type b0) (xid_hdr_len_ext (xid_hdr_len b0) b1)
              (drop 2 src) src_len 2)
        else fill_xid_field (xid_hdr_type b0) (xid_hdr_len b0) (drop 1 src) src_len 1))"

text \<open>The header octets \<open>encode_xid_field\<close> writes, in the extended and the short format.\<close>

definition xid_hdr_long :: "u8 \<Rightarrow> int \<Rightarrow> octets" where
  "xid_hdr_long typ dl =
     [(0x80 OR push_bit 2 (typ AND 0x1F)) OR word_of_int (drop_bit 6 dl AND 0x03),
      word_of_int (push_bit 2 dl AND 0xFC)]"

definition xid_hdr_short :: "u8 \<Rightarrow> int \<Rightarrow> octets" where
  "xid_hdr_short typ dl = [push_bit 2 (typ AND 0x1F) OR word_of_int (dl AND 0x03)]"

definition encode_xid_field :: "nat \<Rightarrow> llc_xid_field \<Rightarrow> (int \<times> octets) exec" where
  "encode_xid_field dst_maxlen f =
     (let xl = (if xid_data_len f > 3 then 1 else 0);
          dl = int (xid_data_len f)
      in if dst_maxlen < xid_data_len f + 1 + xl then Inr (- EINVAL, [])
         else if xid_type f > 31 then Inr (- EINVAL, [])
         else
           let hdr = (if xl = 1 then xid_hdr_long (xid_type f) dl
                      else xid_hdr_short (xid_type f) dl)
           in case xid_data f of
                None \<Rightarrow> Inr (dl + 1 + int xl, hdr @ replicate (xid_data_len f) 0)
              | Some d \<Rightarrow>
                  if length d < xid_data_len f then Inl Oob_access
                  else Inr (dl + 1 + int xl, hdr @ take (xid_data_len f) d))"

text \<open>
  \<^verbatim>\<open>llist_for_each_entry_reverse\<close> of \<open>gprs_llc_compile_xid\<close>: the argument is the
  list in the order it is visited; \<open>dst_maxlen\<close> shrinks by what each field took.
\<close>

fun compile_xid_fields :: "nat \<Rightarrow> llc_xid_field list \<Rightarrow> (int \<times> octets) exec" where
  "compile_xid_fields dst_maxlen [] = Inr (0, [])"
| "compile_xid_fields dst_maxlen (f # fs) =
     ebind (encode_xid_field dst_maxlen f) (\<lambda>(rc, bs).
       if rc < 0 then Inr (- EINVAL, [])
       else ebind (compile_xid_fields (dst_maxlen - nat rc) fs) (\<lambda>(n, bs').
         if n < 0 then Inr (- EINVAL, []) else Inr (rc + n, bs @ bs')))"

definition gprs_llc_compile_xid :: "nat \<Rightarrow> llc_xid_field list \<Rightarrow> (int \<times> octets) exec" where
  "gprs_llc_compile_xid dst_maxlen xid_fields = compile_xid_fields dst_maxlen (rev xid_fields)"

text \<open>
  The loop of \<open>gprs_llc_parse_xid\<close>; \<open>src_len\<close> is converted to \<^verbatim>\<open>uint8_t\<close> at the call
  of \<open>decode_xid_field\<close>, as its prototype says.  \<open>None\<close> is the NULL the function returns.
\<close>

function parse_xid_loop ::
  "octets \<Rightarrow> int \<Rightarrow> int \<Rightarrow> llc_xid_field list \<Rightarrow> llc_xid_field list option exec" where
  "parse_xid_loop src src_len max_loops xid_fields =
     (if max_loops \<le> 0 then Inr None
      else ebind (decode_xid_field src (word_of_int src_len)) (\<lambda>(rc, f).
        if rc < 0 then Inr None
        else let src_len = src_len - rc in
          if src_len = 0 then Inr (Some (f # xid_fields))
          else parse_xid_loop (drop (nat rc) src) src_len (max_loops - 1) (f # xid_fields)))"
  by pat_completeness auto
termination
  by (relation "measure (\<lambda>(src, src_len, max_loops, fs). nat max_loops)") auto

declare parse_xid_loop.simps [simp del]

definition gprs_llc_parse_xid :: "octets \<Rightarrow> int \<Rightarrow> llc_xid_field list option exec" where
  "gprs_llc_parse_xid src src_len = parse_xid_loop src src_len src_len []"

text \<open>
  \<open>gprs_llc_dup_xid_field\<close>: a duplicate of no octets holds no octets, whatever pointer
  \<^verbatim>\<open>talloc_memdup\<close> returns for it; a NULL pointer stands for it here.
\<close>

definition gprs_llc_dup_xid_field :: "llc_xid_field \<Rightarrow> llc_xid_field exec" where
  "gprs_llc_dup_xid_field f =
     (case xid_data f of
        None \<Rightarrow> if xid_data_len f > 0 then Inl Oob_access else Inr f
      | Some d \<Rightarrow> if length d < xid_data_len f then Inl Oob_access
                  else Inr (f\<lparr>xid_data := Some (take (xid_data_len f) d)\<rparr>))"

fun copy_xid_fields :: "llc_xid_field list \<Rightarrow> llc_xid_field list \<Rightarrow> llc_xid_field list exec" where
  "copy_xid_fields acc [] = Inr acc"
| "copy_xid_fields acc (f # fs) =
     ebind (gprs_llc_dup_xid_field f) (\<lambda>d. copy_xid_fields (d # acc) fs)"

definition gprs_llc_copy_xid :: "llc_xid_field list \<Rightarrow> llc_xid_field list exec" where
  "gprs_llc_copy_xid xid_fields = copy_xid_fields [] xid_fields"

subsection \<open>The shape of an encoded field\<close>

text \<open>
  A field as the decoder produces it: five bits of type, at most 255 octets of data, and a
  NULL data pointer exactly when there are none.  \<open>xid_field_octets\<close> is the encoding of
  such a field when there is room for it.
\<close>

definition xid_field_ok :: "llc_xid_field \<Rightarrow> bool" where
  "xid_field_ok f \<longleftrightarrow> xid_type f \<le> 31 \<and> xid_data_len f \<le> 255 \<and>
     (case xid_data f of None \<Rightarrow> xid_data_len f = 0
      | Some d \<Rightarrow> 0 < xid_data_len f \<and> length d = xid_data_len f)"

definition xid_payload :: "llc_xid_field \<Rightarrow> octets" where
  "xid_payload f = (case xid_data f of None \<Rightarrow> [] | Some d \<Rightarrow> d)"

definition xid_field_octets :: "llc_xid_field \<Rightarrow> octets" where
  "xid_field_octets f =
     (if xid_data_len f > 3 then xid_hdr_long (xid_type f) (int (xid_data_len f))
      else xid_hdr_short (xid_type f) (int (xid_data_len f))) @ xid_payload f"

lemma xid_payload_length: "xid_field_ok f \<Longrightarrow> length (xid_payload f) = xid_data_len f"
  by (auto simp: xid_field_ok_def xid_payload_def split: option.splits)

lemma xid_field_octets_length:
  "xid_field_ok f \<Longrightarrow>
   length (xid_field_octets f) = xid_data_len f + 1 + (if xid_data_len f > 3 then 1 else 0)"
  by (simp add: xid_field_octets_def xid_payload_length xid_hdr_long_def xid_hdr_short_def)

lemma xid_hdr_long_decode:
  assumes "typ \<le> 31" and "n \<le> 255"
  obtains b0 b1 where "xid_hdr_long typ (int n) = [b0, b1]" and "xid_hdr_xl b0 \<noteq> 0"
    and "xid_hdr_type b0 = typ" and "xid_hdr_len_ext (xid_hdr_len b0) b1 = word_of_nat n"
proof -
  have n: "int n = uint (word_of_nat n :: u8)" using assms(2) by (simp add: uint_u8_of_nat)
  let ?L = "word_of_nat n :: u8"
  let ?b0 = "0x80 OR push_bit 2 (typ AND 0x1F) OR word_of_int (drop_bit 6 (uint ?L) AND 3)"
  let ?b1 = "word_of_int (push_bit 2 (uint ?L) AND 0xFC)"
  show thesis
  proof
    show "xid_hdr_long typ (int n) = [?b0, ?b1]"
      unfolding n xid_hdr_long_def by (simp add: or.assoc)
    have "xid_hdr_xl ?b0 = 1"
      unfolding xid_hdr_xl_def by (rule u8_eqI; simp add: bit_simps)
    then show "xid_hdr_xl ?b0 \<noteq> 0" by simp
    show "xid_hdr_type ?b0 = typ"
      unfolding xid_hdr_type_def
      by (rule u8_eqI; use bits_le_31 [OF assms(1)] in \<open>simp add: bit_simps\<close>)
    show "xid_hdr_len_ext (xid_hdr_len ?b0) ?b1 = ?L"
      unfolding xid_hdr_len_ext_def xid_hdr_len_def by (rule u8_eqI; simp add: bit_simps)
  qed
qed

lemma xid_hdr_short_decode:
  assumes "typ \<le> 31" and "n \<le> 3"
  obtains b0 where "xid_hdr_short typ (int n) = [b0]" and "xid_hdr_xl b0 = 0"
    and "xid_hdr_type b0 = typ" and "xid_hdr_len b0 = word_of_nat n"
proof -
  let ?L = "word_of_nat n :: u8"
  have n: "int n = uint ?L" using assms(2) by (simp add: uint_u8_of_nat)
  have L: "?L \<le> 3" using assms(2) by (simp add: word_le_nat_alt unat_u8_of_nat)
  note bits = bits_le_31 [OF assms(1)] bits_le_3 [OF L]
  let ?b0 = "push_bit 2 (typ AND 0x1F) OR word_of_int (uint ?L AND 3)"
  show thesis
  proof
    show "xid_hdr_short typ (int n) = [?b0]"
      unfolding n xid_hdr_short_def by simp
    show "xid_hdr_xl ?b0 = 0"
      unfolding xid_hdr_xl_def by (rule u8_eqI; use bits in \<open>simp add: bit_simps\<close>)
    show "xid_hdr_type ?b0 = typ"
      unfolding xid_hdr_type_def by (rule u8_eqI; use bits in \<open>simp add: bit_simps\<close>)
    show "xid_hdr_len ?b0 = ?L"
      unfolding xid_hdr_len_def by (rule u8_eqI; use bits in \<open>simp add: bit_simps\<close>)
  qed
qed

subsection \<open>One field: encoding and decoding\<close>

lemma encode_xid_field_ok:
  assumes "xid_field_ok f"
  shows "encode_xid_field dst_maxlen f =
    (if dst_maxlen < length (xid_field_octets f) then Inr (- EINVAL, [])
     else Inr (int (length (xid_field_octets f)), xid_field_octets f))"
  using assms xid_field_octets_length [OF assms]
  by (auto simp: encode_xid_field_def xid_field_ok_def xid_field_octets_def xid_payload_def Let_def
      split: option.splits)

lemma fill_xid_field_ok:
  assumes "xid_field_ok f" and "k + xid_data_len f \<le> unat src_len"
  shows "fill_xid_field (xid_type f) (word_of_nat (xid_data_len f)) (xid_payload f @ rest) src_len k
         = Inr (int (k + xid_data_len f), f)"
  using assms
  by (cases f) (auto simp: xid_field_ok_def fill_xid_field_def xid_payload_def Let_def
      word_less_nat_alt unat_u8_of_nat split: option.splits)

lemma decode_xid_field_octets:
  assumes ok: "xid_field_ok f" and len: "length (xid_field_octets f) \<le> unat src_len"
  shows "decode_xid_field (xid_field_octets f @ rest) src_len =
    Inr (int (length (xid_field_octets f)), f)"
proof -
  have t: "xid_type f \<le> 31" and dl: "xid_data_len f \<le> 255"
    using ok by (simp_all add: xid_field_ok_def)
  note l = xid_field_octets_length [OF ok]
  show ?thesis
  proof (cases "xid_data_len f > 3")
    case True
    obtain b0 b1 where h: "xid_hdr_long (xid_type f) (int (xid_data_len f)) = [b0, b1]"
      "xid_hdr_xl b0 \<noteq> 0" "xid_hdr_type b0 = xid_type f"
      "xid_hdr_len_ext (xid_hdr_len b0) b1 = word_of_nat (xid_data_len f)"
      by (rule xid_hdr_long_decode [OF t dl])
    have "xid_field_octets f = b0 # b1 # xid_payload f"
      using True h(1) by (simp add: xid_field_octets_def)
    then show ?thesis
      using True l len h fill_xid_field_ok [OF ok, of 2 src_len rest]
      by (simp add: decode_xid_field_def word_less_nat_alt)
  next
    case False
    then have "xid_data_len f \<le> 3" by simp
    from xid_hdr_short_decode [OF t this] obtain b0 where
      h: "xid_hdr_short (xid_type f) (int (xid_data_len f)) = [b0]" "xid_hdr_xl b0 = 0"
      "xid_hdr_type b0 = xid_type f" "xid_hdr_len b0 = word_of_nat (xid_data_len f)" .
    have "xid_field_octets f = b0 # xid_payload f"
      using False h(1) by (simp add: xid_field_octets_def)
    then show ?thesis
      using False l len h fill_xid_field_ok [OF ok, of 1 src_len rest]
      by (simp add: decode_xid_field_def word_less_nat_alt)
  qed
qed

subsection \<open>Lists of fields\<close>

lemma parse_xid_loop_step:
  assumes ok: "xid_field_ok f" and n: "length (xid_field_octets f) \<le> n" "n \<le> 255" and b: "0 < budget"
  shows "parse_xid_loop (xid_field_octets f @ rest) (int n) (int budget) acc =
    (if n = length (xid_field_octets f) then Inr (Some (f # acc))
     else parse_xid_loop rest (int (n - length (xid_field_octets f))) (int (budget - 1)) (f # acc))"
proof -
  have "decode_xid_field (xid_field_octets f @ rest) (word_of_int (int n)) =
      Inr (int (length (xid_field_octets f)), f)"
    using n by (intro decode_xid_field_octets [OF ok]) (simp add: unat_u8_of_nat)
  then show ?thesis
    using n b by (subst parse_xid_loop.simps) (auto simp: Let_def)
qed

interpretation llc_stream: field_stream xid_field_ok xid_field_octets 255
  "\<lambda>src n budget acc. parse_xid_loop src (int n) (int budget) acc" "\<lambda>acc _. Inr (Some acc)"
  by unfold_locales (simp_all add: xid_field_octets_length parse_xid_loop_step
      flip: length_greater_0_conv)

lemma compile_xid_fields_ok:
  assumes "\<forall>f\<in>set fs. xid_field_ok f"
  shows "compile_xid_fields dst_maxlen fs =
    (if dst_maxlen < length (concat (map xid_field_octets fs)) then Inr (- EINVAL, [])
     else Inr (int (length (concat (map xid_field_octets fs))), concat (map xid_field_octets fs)))"
  using assms
  by (induction fs arbitrary: dst_maxlen) (auto simp: encode_xid_field_ok errno_defs)

subsection \<open>No read outside the message\<close>

lemma fill_xid_field_safe:
  assumes "unat src_len \<le> k + length src" and "k \<le> unat src_len"
  shows "\<exists>rc f. fill_xid_field typ len src src_len k = Inr (rc, f) \<and> nat rc \<le> unat src_len"
  using assms by (auto simp: fill_xid_field_def Let_def errno_defs word_less_nat_alt nat_add_distrib)

lemma decode_xid_field_safe:
  assumes "unat src_len \<le> length src"
  shows "\<exists>rc f. decode_xid_field src src_len = Inr (rc, f) \<and> nat rc \<le> unat src_len"
proof (cases "src_len < 1")
  case True
  then show ?thesis by (simp add: decode_xid_field_def errno_defs)
next
  case False
  with assms have r: "rd src 0 = Inr (src ! 0)" by (intro rd_in) (auto simp: word_less_nat_alt)
  have l1: "unat src_len \<le> 1 + length (drop 1 src)" "1 \<le> unat src_len"
    using assms False by (auto simp: word_less_nat_alt Suc_le_eq)
  show ?thesis
  proof (cases "xid_hdr_xl (src ! 0) \<noteq> 0 \<and> \<not> src_len < 2")
    case True
    then have l2: "unat src_len \<le> 2 + length (drop 2 src)" "2 \<le> unat src_len"
      using assms by (auto simp: word_less_nat_alt)
    then have "rd src 1 = Inr (src ! 1)" using assms by (intro rd_in) simp
    then show ?thesis
      using True False r fill_xid_field_safe [OF l2] by (simp add: decode_xid_field_def)
  next
    case F: False
    then show ?thesis
      using False r fill_xid_field_safe [OF l1] by (auto simp: decode_xid_field_def errno_defs)
  qed
qed

lemma parse_xid_loop_safe:
  "0 \<le> src_len \<Longrightarrow> nat src_len \<le> length src \<Longrightarrow>
   \<exists>r. parse_xid_loop src src_len max_loops acc = Inr r"
proof (induction src src_len max_loops acc rule: parse_xid_loop.induct)
  case (1 src src_len max_loops acc)
  let ?w = "word_of_int src_len :: u8"
  have "unat ?w = nat (src_len mod 256)" by (simp add: unat_eq_nat_uint uint_word_of_int)
  then have w: "unat ?w \<le> nat src_len"
    using "1.prems"(1) by (simp add: zmod_le_nonneg_dividend nat_mono)
  with decode_xid_field_safe [of ?w src] "1.prems"(2) obtain rc f
    where d: "decode_xid_field src ?w = Inr (rc, f)" "nat rc \<le> unat ?w" by auto
  with w "1.prems"(1) have "rc \<le> src_len" by linarith
  then show ?case
    by (subst parse_xid_loop.simps) (use d "1.IH" "1.prems" in \<open>auto simp: Let_def\<close>)
qed

lemma gprs_llc_dup_xid_field_ok: "xid_field_ok f \<Longrightarrow> gprs_llc_dup_xid_field f = Inr f"
  by (cases f) (auto simp: gprs_llc_dup_xid_field_def xid_field_ok_def split: option.splits)

lemma copy_xid_fields_ok:
  "\<forall>f\<in>set fs. xid_field_ok f \<Longrightarrow> copy_xid_fields acc fs = Inr (rev fs @ acc)"
  by (induction fs arbitrary: acc) (auto simp: gprs_llc_dup_xid_field_ok)

lemma compile_parse_xid:
  assumes "\<forall>f\<in>set fs. xid_field_ok f" and "fs \<noteq> []"
    and "gprs_llc_compile_xid dst_maxlen fs = Inr (n, bs)" and "0 \<le> n" and "length bs \<le> 255"
  shows "n = int (length bs) \<and> length bs \<le> dst_maxlen \<and> gprs_llc_parse_xid bs n = Inr (Some fs)"
proof -
  have ok: "\<forall>f\<in>set (rev fs). xid_field_ok f" using assms(1) by simp
  from assms(3,4) have bs: "bs = concat (map xid_field_octets (rev fs))"
    and n: "n = int (length bs)" and m: "length bs \<le> dst_maxlen"
    by (auto simp: gprs_llc_compile_xid_def compile_xid_fields_ok [OF ok] errno_defs split: if_splits)
  have "parse_xid_loop (bs @ []) (int (length bs)) (int (length bs)) [] = Inr (Some (rev (rev fs) @ []))"
    unfolding bs
    by (rule llc_stream.loop_stream [OF ok])
       (use assms(2,5) bs llc_stream.stream_length [OF ok] in simp_all)
  with n m show ?thesis by (simp add: gprs_llc_parse_xid_def)
qed

subsection \<open>Properties\<close>

definition xid_example :: "llc_xid_field list" where
  "xid_example =
     [\<lparr>xid_type = 11, xid_data = Some [1, 2, 3, 4, 5], xid_data_len = 5\<rparr>,
      \<lparr>xid_type = 12, xid_data = None, xid_data_len = 0\<rparr>,
      \<lparr>xid_type = 5, xid_data = Some [6, 7], xid_data_len = 2\<rparr>]"

lemma xid_example_compile:
  "gprs_llc_compile_xid 64 xid_example = Inr (11, [22, 6, 7, 48, 172, 20, 1, 2, 3, 4, 5])"
  by (simp add: gprs_llc_compile_xid_def xid_example_def encode_xid_field_def xid_hdr_long_def
      xid_hdr_short_def)

text \<open>
  C15. Compiling a list of well-formed XID fields into a buffer and parsing the resulting
  message gives the same list back, provided the message has at most 255 octets; the
  message never exceeds the buffer's size and the return code is its length.
\<close>

theorem llc_xid_roundtrip:
  assumes "\<forall>f\<in>set fs. xid_field_ok f" and "fs \<noteq> []"
    and "gprs_llc_compile_xid dst_maxlen fs = Inr (n, bs)" and "0 \<le> n" and "length bs \<le> 255"
  shows "n = int (length bs) \<and> length bs \<le> dst_maxlen \<and> gprs_llc_parse_xid bs n = Inr (Some fs)"
  by (rule compile_parse_xid [OF assms])

theorem llc_xid_roundtrip_witness:
  "gprs_llc_parse_xid [22, 6, 7, 48, 172, 20, 1, 2, 3, 4, 5] 11 = Inr (Some xid_example)"
  using llc_xid_roundtrip [OF _ _ xid_example_compile] by (simp add: xid_example_def xid_field_ok_def)

text \<open>
  C19. Parsing an XID message that lies in a buffer of at least \<open>src_len\<close> octets returns
  (a list or NULL) without ever reading outside that buffer, whatever the octets are.
\<close>

theorem llc_xid_parse_safe:
  assumes "0 \<le> src_len" and "nat src_len \<le> length src"
  shows "\<exists>r. gprs_llc_parse_xid src src_len = Inr r"
  unfolding gprs_llc_parse_xid_def by (rule parse_xid_loop_safe [OF assms])

theorem llc_xid_parse_safe_witness: "\<exists>r. gprs_llc_parse_xid [0xFF, 0xFF, 0x80] 3 = Inr r"
  by (rule llc_xid_parse_safe) simp_all

text \<open>
  A message of 256 octets is rejected whatever it holds: the length is converted to
  \<^verbatim>\<open>uint8_t\<close> when the first field is decoded and becomes zero.
\<close>

theorem llc_xid_parse_256: "gprs_llc_parse_xid src 256 = Inr None"
  by (simp add: gprs_llc_parse_xid_def parse_xid_loop.simps [of src 256] decode_xid_field_def
      errno_defs)

text \<open>
  Copying a list of well-formed XID fields duplicates every field and reverses the list.
\<close>

theorem llc_xid_copy:
  assumes "\<forall>f\<in>set fs. xid_field_ok f"
  shows "gprs_llc_copy_xid fs = Inr (rev fs)"
  using copy_xid_fields_ok [OF assms] by (simp add: gprs_llc_copy_xid_def)

theorem llc_xid_copy_witness: "gprs_llc_copy_xid xid_example = Inr (rev xid_example)"
  by (rule llc_xid_copy) (simp add: xid_example_def xid_field_ok_def)

end
