(* ===== verification/Llc_Entity.thy ===== *)
theory Llc_Entity
  imports Llc_Parse Llc_Xid
begin

unbundle bit_operations_syntax

section \<open>LLC entities (src/src/sgsn/gprs\_llc.c)\<close>

text \<open>
  The logical link management entities, their sixteen logical link entities, TLLI
  assignment and key management.  An LLME is identified by the address it was allocated
  at (\<open>llme_id\<close>); the list \<open>llc_llmes\<close> is \<^verbatim>\<open>gprs_llc_llmes\<close> from head to tail.
  \<open>struct gprs_llc_lle\<close> is embedded in its LLME, so a pointer to one is the address of the
  LLME and the SAPI.  Members that no function of this file reads or writes (the
  acknowledged-mode counters, the timers) are left out, and so are the two compression
  entity lists, which belong to the SNDCP components.
\<close>

definition ENOMSG :: int where "ENOMSG = 42"
definition EFBIG :: int where "EFBIG = 27"

datatype lle_state =
  GPRS_LLES_UNASSIGNED | GPRS_LLES_ASSIGNED_ADM | GPRS_LLES_LOCAL_EST | GPRS_LLES_REMOTE_EST
| GPRS_LLES_ABM | GPRS_LLES_LOCAL_REL | GPRS_LLES_TIMER_REC

datatype llme_state = GPRS_LLMS_UNASSIGNED | GPRS_LLMS_ASSIGNED

datatype ciph_algo = GEA0 | GEA1 | GEA2 | GEA3 | GEA4

record llc_params =
  lp_iov_i_exp :: u16
  lp_t200_201 :: u16
  lp_n200 :: u16
  lp_n201_u :: u16
  lp_n201_i :: u16
  lp_mD :: u16
  lp_mU :: u16
  lp_kD :: u16
  lp_kU :: u16

record lle =
  lle_sapi :: nat
  lle_state :: lle_state
  lle_vu_send :: u16
  lle_vu_recv :: u16
  lle_vu_recv_last :: u16
  lle_vu_recv_duplicates :: u16
  lle_oc_ui_send :: u32
  lle_oc_ui_recv :: u32
  lle_retrans_ctr :: u32
  lle_params :: llc_params
  lle_xid :: "llc_xid_field list option"

record llme =
  llme_id :: nat
  llme_state :: llme_state
  llme_tlli :: u32
  llme_old_tlli :: u32
  llme_algo :: ciph_algo
  llme_kc :: octets
  llme_cksn :: u8
  llme_iov_ui :: u32
  llme_bvci :: u16
  llme_nsei :: u16
  llme_lle :: "lle list"
  llme_age_timestamp :: u32

definition NUM_SAPIS :: nat where "NUM_SAPIS = 16"
definition TLLI_UNASSIGNED :: u32 where "TLLI_UNASSIGNED = 0xffffffff"
definition GPRS_LLME_RESET_AGE :: u32 where "GPRS_LLME_RESET_AGE = 0"

text \<open>The key sequence number that stands for ``no key'' (3GPP TS 24.008).\<close>

definition GSM_KEY_SEQ_INVAL :: u8 where "GSM_KEY_SEQ_INVAL = 7"

definition zero_params :: llc_params where
  "zero_params = \<lparr>lp_iov_i_exp = 0, lp_t200_201 = 0, lp_n200 = 0, lp_n201_u = 0, lp_n201_i = 0,
     lp_mD = 0, lp_mU = 0, lp_kD = 0, lp_kU = 0\<rparr>"

definition data_params :: "u16 \<Rightarrow> u16 \<Rightarrow> u16 \<Rightarrow> llc_params" where
  "data_params t200 m k = \<lparr>lp_iov_i_exp = 27, lp_t200_201 = t200, lp_n200 = 3, lp_n201_u = 500,
     lp_n201_i = 1503, lp_mD = m, lp_mU = m, lp_kD = k, lp_kU = k\<rparr>"

definition llc_default_params :: "nat \<Rightarrow> llc_params" where
  "llc_default_params sapi =
     (if sapi = 1 then zero_params\<lparr>lp_t200_201 := 5, lp_n200 := 3, lp_n201_u := 400\<rparr>
      else if sapi = 2 then zero_params\<lparr>lp_t200_201 := 5, lp_n200 := 3, lp_n201_u := 270\<rparr>
      else if sapi = 3 then data_params 5 1520 16
      else if sapi = 5 then data_params 10 760 8
      else if sapi = 7 then zero_params\<lparr>lp_t200_201 := 20, lp_n200 := 3, lp_n201_u := 270\<rparr>
      else if sapi = 8 then zero_params\<lparr>lp_t200_201 := 20, lp_n200 := 3, lp_n201_u := 270\<rparr>
      else if sapi = 9 then data_params 20 380 4
      else if sapi = 11 then data_params 40 190 2
      else zero_params)"

text \<open>
  Everything the layer hands to its neighbours, in the order of the calls: frames for BSSGP
  with the identifiers of the message buffer, information fields for GMM and SNDCP, layer 3
  XID confirmations, and the call for help of an unknown SNDCP link.  The return code of
  \<^verbatim>\<open>bssgp_tx_dl_ud\<close> is 0.
\<close>

record msgb_ids =
  mi_tlli :: u32
  mi_bvci :: u16
  mi_nsei :: u16

datatype llc_event =
  Bssgp_tx_dl_ud msgb_ids octets
| Gmm_rcvmsg octets nat bool nat
| Sndcp_unitdata_ind octets nat nat nat
| Sndcp_xid_conf llc_xid_field llc_xid_field nat nat
| Sndcp_deactivate nat
| Force_reattach msgb_ids

record llc =
  llc_llmes :: "llme list"
  llc_next :: nat
  llc_out :: "llc_event list"

definition emit :: "llc_event \<Rightarrow> llc \<Rightarrow> llc" where
  "emit e st = st\<lparr>llc_out := llc_out st @ [e]\<rparr>"

subsection \<open>Access by address\<close>

definition llme_at :: "llc \<Rightarrow> nat \<Rightarrow> llme exec" where
  "llme_at st i = (case find (\<lambda>m. llme_id m = i) (llc_llmes st) of Some m \<Rightarrow> Inr m | None \<Rightarrow> Inl Oob_access)"

definition llme_upd :: "nat \<Rightarrow> (llme \<Rightarrow> llme) \<Rightarrow> llc \<Rightarrow> llc" where
  "llme_upd i f st = st\<lparr>llc_llmes := map (\<lambda>m. if llme_id m = i then f m else m) (llc_llmes st)\<rparr>"

definition lle_at :: "llme \<Rightarrow> nat \<Rightarrow> lle exec" where
  "lle_at m sapi = (if sapi < length (llme_lle m) then Inr (llme_lle m ! sapi) else Inl Oob_access)"

definition lle_upd :: "nat \<Rightarrow> (lle \<Rightarrow> lle) \<Rightarrow> llme \<Rightarrow> llme" where
  "lle_upd sapi f m = m\<lparr>llme_lle := (llme_lle m)[sapi := f (llme_lle m ! sapi)]\<rparr>"

subsection \<open>Allocation and lookup\<close>

definition lle_init :: "nat \<Rightarrow> lle" where
  "lle_init sapi = \<lparr>lle_sapi = sapi, lle_state = GPRS_LLES_UNASSIGNED, lle_vu_send = 0, lle_vu_recv = 0,
     lle_vu_recv_last = 0, lle_vu_recv_duplicates = 0, lle_oc_ui_send = 0, lle_oc_ui_recv = 0,
     lle_retrans_ctr = 0, lle_params = llc_default_params sapi, lle_xid = None\<rparr>"

definition llme_alloc :: "u32 \<Rightarrow> llc \<Rightarrow> nat \<times> llc" where
  "llme_alloc tlli st =
     (let i = llc_next st;
          m = \<lparr>llme_id = i, llme_state = GPRS_LLMS_UNASSIGNED, llme_tlli = tlli,
               llme_old_tlli = TLLI_UNASSIGNED, llme_algo = GEA0, llme_kc = replicate 16 0,
               llme_cksn = GSM_KEY_SEQ_INVAL, llme_iov_ui = 0, llme_bvci = 0, llme_nsei = 0,
               llme_lle = map lle_init [0..<NUM_SAPIS], llme_age_timestamp = GPRS_LLME_RESET_AGE\<rparr>
      in (i, st\<lparr>llc_llmes := m # llc_llmes st, llc_next := Suc i\<rparr>))"

text \<open>\<open>lle_by_tlli_sapi\<close>: the address of the LLME; the SAPI selects the entity within it.\<close>

definition lle_by_tlli_sapi :: "llc \<Rightarrow> u32 \<Rightarrow> nat option" where
  "lle_by_tlli_sapi st tlli =
     map_option llme_id (find (\<lambda>m. llme_tlli m = tlli \<or> llme_old_tlli m = tlli) (llc_llmes st))"

definition gprs_lle_get_or_create :: "u32 \<Rightarrow> llc \<Rightarrow> nat \<times> llc" where
  "gprs_lle_get_or_create tlli st =
     (case lle_by_tlli_sapi st tlli of Some i \<Rightarrow> (i, st) | None \<Rightarrow> llme_alloc tlli st)"

text \<open>
  \<open>lle_for_rx_by_tlli_sapi\<close>: the second lookup the code makes for a foreign TLLI repeats
  the first one and finds nothing either.
\<close>

definition lle_for_rx_by_tlli_sapi :: "u32 \<Rightarrow> nat \<Rightarrow> llc_cmd \<Rightarrow> llc \<Rightarrow> nat option \<times> llc" where
  "lle_for_rx_by_tlli_sapi tlli sapi cmd st =
     (case lle_by_tlli_sapi st tlli of
        Some i \<Rightarrow> (Some i, st)
      | None \<Rightarrow>
          if sapi = 1 \<and> (cmd = GPRS_LLC_XID \<or> cmd = GPRS_LLC_UI)
          then let (i, st) = llme_alloc tlli st in (Some i, st)
          else (None, st))"

definition llme_free :: "nat \<Rightarrow> llc \<Rightarrow> llc" where
  "llme_free i st = (emit (Sndcp_deactivate i) st)\<lparr>llc_llmes := filter (\<lambda>m. llme_id m \<noteq> i) (llc_llmes st)\<rparr>"

subsection \<open>TLLI assignment\<close>

definition lle_assigned :: "lle \<Rightarrow> lle" where
  "lle_assigned l = l\<lparr>lle_vu_send := 0, lle_vu_recv := 0, lle_retrans_ctr := 0,
     lle_state := GPRS_LLES_ASSIGNED_ADM\<rparr>"

definition gprs_llgmm_assign :: "nat \<Rightarrow> u32 \<Rightarrow> u32 \<Rightarrow> llc \<Rightarrow> (int \<times> llc) exec" where
  "gprs_llgmm_assign i old_tlli new_tlli st =
     ebind (llme_at st i) (\<lambda>m.
     if old_tlli = TLLI_UNASSIGNED \<and> new_tlli \<noteq> TLLI_UNASSIGNED then
       if llme_old_tlli m \<noteq> TLLI_UNASSIGNED
       then Inr (0, llme_upd i (\<lambda>m. m\<lparr>llme_old_tlli := TLLI_UNASSIGNED, llme_tlli := new_tlli\<rparr>) st)
       else Inr (0, llme_upd i (\<lambda>m. m\<lparr>llme_old_tlli := TLLI_UNASSIGNED, llme_tlli := new_tlli,
                     llme_state := GPRS_LLMS_ASSIGNED, llme_lle := map lle_assigned (llme_lle m)\<rparr>) st)
     else if old_tlli \<noteq> TLLI_UNASSIGNED \<and> new_tlli \<noteq> TLLI_UNASSIGNED then
       Inr (0, llme_upd i (\<lambda>m. m\<lparr>llme_old_tlli := old_tlli, llme_tlli := new_tlli,
                     llme_state := GPRS_LLMS_ASSIGNED\<rparr>) st)
     else if old_tlli \<noteq> TLLI_UNASSIGNED \<and> new_tlli = TLLI_UNASSIGNED then
       Inr (0, llme_free i (llme_upd i (\<lambda>m. m\<lparr>llme_tlli := TLLI_UNASSIGNED, llme_old_tlli := TLLI_UNASSIGNED,
                     llme_state := GPRS_LLMS_UNASSIGNED,
                     llme_lle := map (\<lambda>l. l\<lparr>lle_state := GPRS_LLES_UNASSIGNED\<rparr>) (llme_lle m)\<rparr>) st))
     else Inr (- EINVAL, st))"

definition gprs_llgmm_unassign :: "nat \<Rightarrow> llc \<Rightarrow> (int \<times> llc) exec" where
  "gprs_llgmm_unassign i st =
     ebind (llme_at st i) (\<lambda>m. gprs_llgmm_assign i (llme_tlli m) TLLI_UNASSIGNED st)"

subsection \<open>Keys\<close>

text \<open>
  What the layer uses of libosmocore's cipher and key derivation interface: the keystream
  generator with its return code, the input parameter of a UI frame, the key length of an
  algorithm, and the 128-bit key derivation.
\<close>

datatype ciph_dir = GPRS_CIPH_MS2SGSN | GPRS_CIPH_SGSN2MS

record cipher_env =
  ce_run :: "nat \<Rightarrow> ciph_algo \<Rightarrow> octets \<Rightarrow> u32 \<Rightarrow> ciph_dir \<Rightarrow> int \<times> octets"
  ce_gen_input_ui :: "u32 \<Rightarrow> nat \<Rightarrow> u16 \<Rightarrow> u32 \<Rightarrow> u32"
  ce_key_length :: "ciph_algo \<Rightarrow> nat"
  ce_kdf_kc128 :: "octets \<Rightarrow> octets \<Rightarrow> octets"

text \<open>The members of \<open>struct sgsn_mm_ctx\<close> that LLC reads; \<open>mm_llme\<close> is \<^verbatim>\<open>mmctx->gb.llme\<close>.\<close>

record mm_view =
  mm_ciph_algo :: ciph_algo
  mm_key_seq :: u8
  mm_kc :: octets
  mm_ck :: octets
  mm_ik :: octets
  mm_llme :: "nat option"

definition gprs_llme_copy_key :: "cipher_env \<Rightarrow> mm_view option \<Rightarrow> llme \<Rightarrow> llme" where
  "gprs_llme_copy_key env mm m =
     (case mm of
        None \<Rightarrow> m
      | Some mm \<Rightarrow>
          if mm_ciph_algo mm \<noteq> GEA0 then
            let m = m\<lparr>llme_algo := mm_ciph_algo mm\<rparr> in
            if llme_cksn m \<noteq> mm_key_seq mm \<and> mm_key_seq mm \<noteq> GSM_KEY_SEQ_INVAL then
              m\<lparr>llme_kc := (if mm_ciph_algo mm = GEA4 then ce_kdf_kc128 env (mm_ck mm) (mm_ik mm)
                            else let n = ce_key_length env (mm_ciph_algo mm)
                                 in take n (mm_kc mm) @ drop n (llme_kc m)),
                llme_cksn := mm_key_seq mm\<rparr>
            else m
          else m\<lparr>llme_cksn := GSM_KEY_SEQ_INVAL\<rparr>)"

end
