(* ===== verification/Llc_Frames.thy ===== *)
theory Llc_Frames
  imports Llc_Entity
begin

unbundle bit_operations_syntax

section \<open>LLC frames: sending and receiving (src/src/sgsn/gprs\_llc.c)\<close>

text \<open>
  Construction and encryption of UI and U frames, XID negotiation, and the receive path from
  BSSGP to GMM and SNDCP.  A message buffer is its identifiers and the octets from its first
  header on.  \<open>sndcp_sn_xid_ind\<close> and \<open>sndcp_sn_xid_conf\<close> are calls into gprs\_sndcp.c: the
  first is an argument (its result decides what is sent), the second an output event.
\<close>

subsection \<open>Frame construction\<close>

definition fcs_octets :: "u32 \<Rightarrow> octets" where
  "fcs_octets fcs = [ucast (fcs AND 0xff), ucast (drop_bit 8 fcs AND 0xff), ucast (drop_bit 16 fcs AND 0xff)]"

definition put_fcs :: "octets \<Rightarrow> nat \<Rightarrow> u32 \<Rightarrow> octets exec" where
  "put_fcs mem i fcs = (if i + 3 \<le> length mem then Inr (take i mem @ fcs_octets fcs @ drop (i + 3) mem)
                        else Inl Oob_access)"

definition llc_addr :: "nat \<Rightarrow> bool \<Rightarrow> u8" where
  "llc_addr sapi command = (word_of_nat sapi AND 0xf) OR (if command then 0x40 else 0)"

definition llc_u_ctrl :: "u8 \<Rightarrow> bool \<Rightarrow> u8" where
  "llc_u_ctrl ucmd pf_bit = (0xe0 OR ucmd) OR (if pf_bit then 0x10 else 0)"

definition GPRS_LLC_U_DM_RESP :: u8 where "GPRS_LLC_U_DM_RESP = 0x01"
definition GPRS_LLC_U_XID :: u8 where "GPRS_LLC_U_XID = 0x0b"

definition with_fcs :: "octets \<Rightarrow> octets exec" where
  "with_fcs frame = ebind (gprs_llc_fcs frame (length frame)) (\<lambda>fcs. Inr (frame @ fcs_octets fcs))"

text \<open>
  \<open>_bssgp_tx_dl_ud\<close>: a message whose TLLI is not one of the MM context's LLME is freed, not sent.
\<close>

definition bssgp_tx_dl_ud :: "msgb_ids \<Rightarrow> octets \<Rightarrow> mm_view option \<Rightarrow> llc \<Rightarrow> (int \<times> llc) exec" where
  "bssgp_tx_dl_ud ids frame mm st =
     (case mm of
        None \<Rightarrow> Inr (0, emit (Bssgp_tx_dl_ud ids frame) st)
      | Some mm \<Rightarrow>
          (case mm_llme mm of
             None \<Rightarrow> Inr (0, emit (Bssgp_tx_dl_ud ids frame) st)
           | Some i \<Rightarrow>
               ebind (llme_at st i) (\<lambda>m.
                 if mi_tlli ids = llme_tlli m \<or> mi_tlli ids = llme_old_tlli m
                 then Inr (0, emit (Bssgp_tx_dl_ud ids frame) st)
                 else Inr (- EINVAL, st))))"

definition gprs_llc_tx_u :: "msgb_ids \<Rightarrow> octets \<Rightarrow> nat \<Rightarrow> bool \<Rightarrow> u8 \<Rightarrow> bool \<Rightarrow> llc \<Rightarrow> (int \<times> llc) exec" where
  "gprs_llc_tx_u ids info sapi command ucmd pf_bit st =
     ebind (with_fcs (llc_addr sapi command # llc_u_ctrl ucmd pf_bit # info)) (\<lambda>frame.
       bssgp_tx_dl_ud ids frame None st)"

definition llme_ids :: "llme \<Rightarrow> msgb_ids" where
  "llme_ids m = \<lparr>mi_tlli = llme_tlli m, mi_bvci = llme_bvci m, mi_nsei = llme_nsei m\<rparr>"

definition gprs_llc_tx_xid :: "nat \<Rightarrow> nat \<Rightarrow> octets \<Rightarrow> bool \<Rightarrow> llc \<Rightarrow> (int \<times> llc) exec" where
  "gprs_llc_tx_xid i sapi info command st =
     ebind (llme_at st i) (\<lambda>m. ebind (lle_at m sapi) (\<lambda>l.
       gprs_llc_tx_u (llme_ids m) info (lle_sapi l) command GPRS_LLC_U_XID True st))"

definition gprs_llc_tx_dm :: "nat \<Rightarrow> nat \<Rightarrow> llc \<Rightarrow> (int \<times> llc) exec" where
  "gprs_llc_tx_dm i sapi st =
     ebind (llme_at st i) (\<lambda>m. ebind (lle_at m sapi) (\<lambda>l.
       gprs_llc_tx_u (llme_ids m) [] (lle_sapi l) False GPRS_LLC_U_DM_RESP True st))"

subsection \<open>Encryption\<close>

text \<open>\<^verbatim>\<open>for (r = 0; r < crypt_len; r++) *(data + r) ^= cipher_out[r]\<close>.\<close>

definition xor_octets :: "octets \<Rightarrow> octets \<Rightarrow> octets" where
  "xor_octets xs ks = map2 (\<lambda>x k. x XOR k) xs ks"

definition xor_at :: "octets \<Rightarrow> nat \<Rightarrow> nat \<Rightarrow> octets \<Rightarrow> octets exec" where
  "xor_at mem data n cipher_out =
     (if data + n \<le> length mem \<and> n \<le> length cipher_out
      then Inr (take data mem @ xor_octets (take n (drop data mem)) (take n cipher_out) @ drop (data + n) mem)
      else Inl Oob_access)"

definition mark_encrypted :: "octets \<Rightarrow> nat \<Rightarrow> octets exec" where
  "mark_encrypted mem data =
     ebind (rd mem (data + 2)) (\<lambda>b. Inr (mem[data + 2 := b OR 0x02]))"

text \<open>
  \<open>fcs\<close> is the offset of the FCS in the transmit direction and \<open>None\<close> in the receive
  direction; \<open>data\<close> is an offset too.
\<close>

definition apply_gea ::
  "cipher_env \<Rightarrow> llme \<Rightarrow> u16 \<Rightarrow> u16 \<Rightarrow> u32 \<Rightarrow> nat \<Rightarrow> nat option \<Rightarrow> nat \<Rightarrow> octets \<Rightarrow> (int \<times> octets) exec" where
  "apply_gea env m crypt_len nu oc sapi fcs data mem =
     (if llme_algo m = GEA0 then Inr (- EINVAL, mem)
      else
        let iv = ce_gen_input_ui env (llme_iov_ui m) sapi nu oc;
            (r, cipher_out) = ce_run env (unat crypt_len) (llme_algo m) (llme_kc m) iv
                                (if fcs \<noteq> None then GPRS_CIPH_SGSN2MS else GPRS_CIPH_MS2SGSN)
        in
        if r < 0 then Inr (- ENOMSG, mem)
        else
          ebind (case fcs of
                   None \<Rightarrow> Inr (mem, data)
                 | Some f \<Rightarrow>
                     ebind (mark_encrypted mem data) (\<lambda>mem.
                     ebind (gprs_llc_fcs (drop data mem) (f - data)) (\<lambda>fcs_calc.
                     ebind (put_fcs mem f fcs_calc) (\<lambda>mem.
                       Inr (mem, data + 3))))) (\<lambda>(mem, data).
          ebind (xor_at mem data (unat crypt_len) cipher_out) (\<lambda>mem. Inr (0, mem))))"

subsection \<open>Sending a UI frame\<close>

definition ui_ctrl0 :: "u16 \<Rightarrow> u8" where
  "ui_ctrl0 nu = 0xc0 OR ucast (drop_bit 6 nu)"

definition ui_ctrl1 :: "u16 \<Rightarrow> u8" where
  "ui_ctrl1 nu = (ucast (push_bit 2 nu) AND 0xfc) OR 0x01"

text \<open>
  N(U) and the overflow counter of the frame, and the entity afterwards: V(U) is
  incremented modulo 512 and the counter is increased when the incremented V(U) is 511.
\<close>

definition lle_next_ui :: "lle \<Rightarrow> (u16 \<times> u32) \<times> lle" where
  "lle_next_ui l =
     (let vu = word_of_int ((uint (lle_vu_send l) + 1) mod 512) :: u16
      in ((lle_vu_send l, lle_oc_ui_send l),
          l\<lparr>lle_vu_send := vu,
            lle_oc_ui_send := (if (uint vu + 1) div 512 \<noteq> 0 then lle_oc_ui_send l + 512
                               else lle_oc_ui_send l)\<rparr>))"

text \<open>Header, FCS and, where the algorithm and the caller ask for it, encryption.\<close>

definition build_ui_frame ::
  "cipher_env \<Rightarrow> llme \<Rightarrow> u16 \<Rightarrow> u32 \<Rightarrow> nat \<Rightarrow> bool \<Rightarrow> bool \<Rightarrow> octets \<Rightarrow> (int \<times> octets) exec" where
  "build_ui_frame env m nu oc sapi command encryptable info =
     ebind (with_fcs (llc_addr sapi command # ui_ctrl0 nu # ui_ctrl1 nu # info)) (\<lambda>frame.
       if llme_algo m \<noteq> GEA0 \<and> encryptable then
         let fcs = length frame - 3 in apply_gea env m (word_of_nat fcs) nu oc sapi (Some fcs) 0 frame
       else Inr (0, frame))"

definition gprs_llc_tx_ui ::
  "cipher_env \<Rightarrow> msgb_ids \<Rightarrow> octets \<Rightarrow> nat \<Rightarrow> bool \<Rightarrow> mm_view option \<Rightarrow> bool \<Rightarrow> llc \<Rightarrow> (int \<times> llc) exec" where
  "gprs_llc_tx_ui env ids info sapi command mm encryptable st =
     (let (i, st) = gprs_lle_get_or_create (mi_tlli ids) st in
      ebind (llme_at st i) (\<lambda>m. ebind (lle_at m sapi) (\<lambda>l.
      if length info > unat (lp_n201_u (lle_params l)) then Inr (- EFBIG, st)
      else
        let m = (gprs_llme_copy_key env mm m)\<lparr>llme_bvci := mi_bvci ids, llme_nsei := mi_nsei ids\<rparr>;
            ((nu, oc), l) = lle_next_ui l;
            st = llme_upd i (\<lambda>_. lle_upd sapi (\<lambda>_. l) m) st
        in
        ebind (build_ui_frame env m nu oc sapi command encryptable info) (\<lambda>(rc, frame).
        if rc < 0 then Inr (rc, st) else bssgp_tx_dl_ud ids frame mm st))))"

subsection \<open>XID negotiation\<close>

definition XID_T_VERSION :: u8 where "XID_T_VERSION = 0"
definition XID_T_IOV_UI :: u8 where "XID_T_IOV_UI = 1"
definition XID_T_N201_U :: u8 where "XID_T_N201_U = 5"
definition XID_T_N201_I :: u8 where "XID_T_N201_I = 6"
definition XID_T_L3_PAR :: u8 where "XID_T_L3_PAR = 11"
definition XID_T_RESET :: u8 where "XID_T_RESET = 12"

definition xid_fld :: "u8 \<Rightarrow> octets \<Rightarrow> llc_xid_field" where
  "xid_fld t d = \<lparr>xid_type = t, xid_data = Some d, xid_data_len = length d\<rparr>"

text \<open>\<^verbatim>\<open>htons\<close> and the octets of a \<^verbatim>\<open>uint16_t\<close> in memory.\<close>

definition htons_octets :: "u16 \<Rightarrow> octets" where
  "htons_octets v = [hi8 (uint v), lo8 (uint v)]"

definition own_xid_fields :: "llc_params \<Rightarrow> llc_xid_field option \<Rightarrow> llc_xid_field list" where
  "own_xid_fields p l3 =
     (let fields = [xid_fld XID_T_N201_I (htons_octets (lp_n201_i p)),
                    xid_fld XID_T_N201_U (htons_octets (lp_n201_u p)),
                    xid_fld XID_T_VERSION [0]]
      in case l3 of None \<Rightarrow> fields | Some f \<Rightarrow> f\<lparr>xid_type := XID_T_L3_PAR\<rparr> # fields)"

definition gprs_llc_generate_xid ::
  "nat \<Rightarrow> llc_xid_field option \<Rightarrow> lle \<Rightarrow> ((int \<times> octets) \<times> lle) exec" where
  "gprs_llc_generate_xid bytes_len l3_xid_field l =
     (let fields = own_xid_fields (lle_params l) l3_xid_field in
      ebind (gprs_llc_copy_xid fields) (\<lambda>copy.
      ebind (gprs_llc_compile_xid bytes_len fields) (\<lambda>r.
        Inr (r, l\<lparr>lle_xid := Some copy\<rparr>))))"

text \<open>The four octets of \<open>iov_ui\<close> are sent as they lie in memory (\<open>iov_ui_mem\<close>).\<close>

definition gprs_llc_generate_xid_for_gmm_reset ::
  "nat \<Rightarrow> octets \<Rightarrow> lle \<Rightarrow> ((int \<times> octets) \<times> lle) exec" where
  "gprs_llc_generate_xid_for_gmm_reset bytes_len iov_ui_mem l =
     (let fields = [\<lparr>xid_type = XID_T_RESET, xid_data = None, xid_data_len = 0\<rparr>, xid_fld XID_T_IOV_UI iov_ui_mem] in
      ebind (gprs_llc_copy_xid fields) (\<lambda>copy.
      ebind (gprs_llc_compile_xid bytes_len fields) (\<lambda>r.
        Inr (r, l\<lparr>lle_xid := Some copy\<rparr>))))"

text \<open>\<open>gprs_llc_process_xid_conf\<close>: the last layer 3 field of the request, if any.\<close>

definition last_l3 :: "llc_xid_field list option \<Rightarrow> llc_xid_field option" where
  "last_l3 xid =
     (case xid of None \<Rightarrow> None | Some fs \<Rightarrow> find (\<lambda>f. xid_type f = XID_T_L3_PAR) (rev fs))"

definition gprs_llc_process_xid_conf :: "octets \<Rightarrow> int \<Rightarrow> nat \<Rightarrow> nat \<Rightarrow> llc \<Rightarrow> llc exec" where
  "gprs_llc_process_xid_conf bytes bytes_len i sapi st =
     ebind (llme_at st i) (\<lambda>m. ebind (lle_at m sapi) (\<lambda>l.
     ebind (gprs_llc_parse_xid bytes bytes_len) (\<lambda>parsed.
       let l3 = last_l3 (lle_xid l);
           confs = (case (parsed, l3) of
                      (Some fs, Some req) \<Rightarrow>
                        map (\<lambda>f. Sndcp_xid_conf f req i sapi) (filter (\<lambda>f. xid_type f = XID_T_L3_PAR) fs)
                    | _ \<Rightarrow> [])
       in Inr (llme_upd i (lle_upd sapi (\<lambda>l. l\<lparr>lle_xid := None\<rparr>)) (fold emit confs st)))))"

text \<open>\<open>gprs_llc_process_xid_ind\<close>: echo every LLC field, then add what SNDCP answers.\<close>

fun echo_xid_fields :: "llc_xid_field list \<Rightarrow> llc_xid_field list \<Rightarrow> llc_xid_field list exec" where
  "echo_xid_fields acc [] = Inr acc"
| "echo_xid_fields acc (f # fs) =
     (if xid_type f \<noteq> XID_T_L3_PAR
      then ebind (gprs_llc_dup_xid_field f) (\<lambda>d. echo_xid_fields (d # acc) fs)
      else echo_xid_fields acc fs)"

fun answer_l3_fields ::
  "(llc_xid_field \<Rightarrow> int \<times> llc_xid_field) \<Rightarrow> llc_xid_field list \<Rightarrow> llc_xid_field list \<Rightarrow> llc_xid_field list" where
  "answer_l3_fields sndcp_sn_xid_ind acc [] = acc"
| "answer_l3_fields sndcp_sn_xid_ind acc (f # fs) =
     (if xid_type f = XID_T_L3_PAR then
        let (rc, resp) = sndcp_sn_xid_ind f in
        answer_l3_fields sndcp_sn_xid_ind (if rc = 0 then resp # acc else acc) fs
      else answer_l3_fields sndcp_sn_xid_ind acc fs)"

definition gprs_llc_process_xid_ind ::
  "(llc_xid_field \<Rightarrow> int \<times> llc_xid_field) \<Rightarrow> octets \<Rightarrow> int \<Rightarrow> nat \<Rightarrow> (int \<times> octets) exec" where
  "gprs_llc_process_xid_ind sndcp_sn_xid_ind bytes_request bytes_request_len bytes_response_maxlen =
     ebind (gprs_llc_parse_xid bytes_request bytes_request_len) (\<lambda>parsed.
     case parsed of
       None \<Rightarrow> Inr (- EINVAL, [])
     | Some fs \<Rightarrow>
         ebind (echo_xid_fields [] fs) (\<lambda>resp.
           gprs_llc_compile_xid bytes_response_maxlen (answer_l3_fields sndcp_sn_xid_ind resp fs)))"

definition rx_llc_xid ::
  "(llc_xid_field \<Rightarrow> int \<times> llc_xid_field) \<Rightarrow> nat \<Rightarrow> nat \<Rightarrow> llc_hdr_parsed \<Rightarrow> octets \<Rightarrow> llc \<Rightarrow> llc exec" where
  "rx_llc_xid sndcp_sn_xid_ind i sapi gph mem st =
     (let bytes = (case gh_data gph of None \<Rightarrow> [] | Some d \<Rightarrow> drop d mem);
          len = uint (gh_data_len gph)
      in if gh_is_cmd gph then
           ebind (gprs_llc_process_xid_ind sndcp_sn_xid_ind bytes len 1024) (\<lambda>(response_len, response).
           ebind (gprs_llc_tx_xid i sapi (if response_len < 0 then [] else response) False st) (\<lambda>(rc, st).
             Inr st))
         else gprs_llc_process_xid_conf bytes len i sapi st)"

definition gprs_ll_xid_req :: "nat \<Rightarrow> nat \<Rightarrow> llc_xid_field option \<Rightarrow> llc \<Rightarrow> (int \<times> llc) exec" where
  "gprs_ll_xid_req i sapi l3_xid_field st =
     ebind (llme_at st i) (\<lambda>m. ebind (lle_at m sapi) (\<lambda>l.
     ebind (gprs_llc_generate_xid 1024 l3_xid_field l) (\<lambda>((xid_bytes_len, xid_bytes), l).
     let st = llme_upd i (lle_upd sapi (\<lambda>_. l)) st in
     if xid_bytes_len > 0 then
       ebind (gprs_llc_tx_xid i sapi xid_bytes True st) (\<lambda>(rc, st). Inr (0, st))
     else Inr (- EINVAL, st))))"

text \<open>
  \<open>gprs_llgmm_reset\<close> and \<open>gprs_llgmm_reset_oldmsg\<close>: \<open>rand\<close> is the result of
  \<^verbatim>\<open>osmo_get_rand_id\<close>, its return code with the four octets it wrote into \<open>iov_ui\<close>;
  \<open>of_mem\<close> reads them as the integer they are.
\<close>

definition gprs_llgmm_reset :: "int \<times> octets \<Rightarrow> (octets \<Rightarrow> u32) \<Rightarrow> nat \<Rightarrow> llc \<Rightarrow> (int \<times> llc) exec" where
  "gprs_llgmm_reset rand of_mem i st =
     (let (rc, iov) = rand in
      if rc < 0 then Inr (rc, st)
      else
        let st = llme_upd i (\<lambda>m. m\<lparr>llme_iov_ui := of_mem iov\<rparr>) st in
        ebind (llme_at st i) (\<lambda>m. ebind (lle_at m 1) (\<lambda>l.
        ebind (gprs_llc_generate_xid_for_gmm_reset 1024 iov l) (\<lambda>((n, xid_bytes), l).
        if n < 0 then Inr (- EINVAL, llme_upd i (lle_upd 1 (\<lambda>_. l)) st)
        else
          let l = l\<lparr>lle_vu_recv := 0, lle_vu_send := 0, lle_oc_ui_send := 0, lle_oc_ui_recv := 0\<rparr> in
          gprs_llc_tx_xid i 1 xid_bytes True (llme_upd i (lle_upd 1 (\<lambda>_. l)) st)))))"

definition gprs_llgmm_reset_oldmsg ::
  "int \<times> octets \<Rightarrow> (octets \<Rightarrow> u32) \<Rightarrow> msgb_ids \<Rightarrow> nat \<Rightarrow> nat \<Rightarrow> llc \<Rightarrow> (int \<times> llc) exec" where
  "gprs_llgmm_reset_oldmsg rand of_mem oldmsg sapi i st =
     (let (rc, iov) = rand in
      if rc < 0 then Inr (rc, st)
      else
        let st = llme_upd i (\<lambda>m. m\<lparr>llme_iov_ui := of_mem iov\<rparr>) st in
        ebind (llme_at st i) (\<lambda>m. ebind (lle_at m sapi) (\<lambda>l.
        ebind (gprs_llc_generate_xid_for_gmm_reset 1024 iov l) (\<lambda>((n, xid_bytes), l).
        let st = llme_upd i (lle_upd sapi (\<lambda>_. l)) st in
        if n < 0 then Inr (- EINVAL, st)
        else gprs_llc_tx_u oldmsg xid_bytes sapi True GPRS_LLC_U_XID True st))))"

subsection \<open>Receiving\<close>

text \<open>
  The UI branch of \<open>gprs_llc_hdr_rx\<close>: \<open>None\<close> is the \<^verbatim>\<open>return -EIO\<close>, with the entity
  changed before it.
\<close>

definition lle_accept :: "u32 \<Rightarrow> lle \<Rightarrow> lle" where
  "lle_accept seq l =
     l\<lparr>lle_vu_recv := word_of_int ((uint seq + 1) mod 512),
       lle_oc_ui_recv := (if (uint seq + 1) div 512 \<noteq> 0 then lle_oc_ui_recv l + 512 else lle_oc_ui_recv l)\<rparr>"

definition lle_rx_ui :: "u32 \<Rightarrow> lle \<Rightarrow> int \<times> lle" where
  "lle_rx_ui seq l =
     (if gprs_llc_is_retransmit (ucast seq) (lle_vu_recv l) then
        if seq \<noteq> ucast (lle_vu_recv_last l)
        then (0, lle_accept seq (l\<lparr>lle_vu_recv_last := ucast seq, lle_vu_recv_duplicates := 0\<rparr>))
        else
          let l = l\<lparr>lle_vu_recv_duplicates := lle_vu_recv_duplicates l + 1\<rparr> in
          if lle_vu_recv_duplicates l < 3 then (- EIO, l) else (0, lle_accept seq l)
      else (0, lle_accept seq l))"

definition gprs_llc_hdr_rx ::
  "(llc_xid_field \<Rightarrow> int \<times> llc_xid_field) \<Rightarrow> llc_hdr_parsed \<Rightarrow> octets \<Rightarrow> nat \<Rightarrow> nat \<Rightarrow> llc \<Rightarrow> (int \<times> llc) exec" where
  "gprs_llc_hdr_rx sndcp_sn_xid_ind gph mem i sapi st =
     (case gh_cmd gph of
        GPRS_LLC_SABM \<Rightarrow> ebind (gprs_llc_tx_dm i sapi st) (\<lambda>(rc, st). Inr (0, st))
      | GPRS_LLC_DISC \<Rightarrow> ebind (gprs_llc_tx_dm i sapi st) (\<lambda>(rc, st). Inr (0, st))
      | GPRS_LLC_XID \<Rightarrow> ebind (rx_llc_xid sndcp_sn_xid_ind i sapi gph mem st) (\<lambda>st. Inr (0, st))
      | GPRS_LLC_UI \<Rightarrow>
          ebind (llme_at st i) (\<lambda>m. ebind (lle_at m sapi) (\<lambda>l.
            let (rc, l) = lle_rx_ui (gh_seq_tx gph) l
            in Inr (rc, llme_upd i (lle_upd sapi (\<lambda>_. l)) st)))
      | _ \<Rightarrow> Inr (0, st))"

text \<open>
  Delivery of the information field: GMM and SNDCP get the memory from the field's first
  octet on and its length; their return codes become the function's, here left at 0.
\<close>

definition deliver_ui :: "llc_hdr_parsed \<Rightarrow> octets \<Rightarrow> bool \<Rightarrow> nat \<Rightarrow> llc \<Rightarrow> int \<times> llc" where
  "deliver_ui gph mem drop_cipherable i st =
     (case gh_data gph of
        None \<Rightarrow> (0, st)
      | Some d \<Rightarrow>
          if gh_cmd gph = GPRS_LLC_UI \<and> gh_data_len gph \<noteq> 0 then
            let info = drop d mem; len = unat (gh_data_len gph); sapi = unat (gh_sapi gph) in
            if sapi = 1 then (0, emit (Gmm_rcvmsg info len drop_cipherable i) st)
            else if sapi \<in> {3, 5, 9, 11} then (0, emit (Sndcp_unitdata_ind info len i sapi) st)
            else (- EINVAL, st)
          else (0, st))"

text \<open>
  Decryption of a received UI frame: the header with the decrypted FCS, the memory and
  whether an unciphered message has to be dropped by GMM.  \<open>Inl rc\<close> ends the function.
\<close>

definition decrypt_ui ::
  "cipher_env \<Rightarrow> llme \<Rightarrow> lle \<Rightarrow> llc_hdr_parsed \<Rightarrow> octets \<Rightarrow> (int + (llc_hdr_parsed \<times> octets \<times> bool)) exec" where
  "decrypt_ui env m l gph mem =
     (if gh_is_encrypted gph then
        if llme_algo m \<noteq> GEA0 then
          (let d = (case gh_data gph of Some d \<Rightarrow> d | None \<Rightarrow> 0) in
           ebind (apply_gea env m (gh_data_len gph + 3) (ucast (gh_seq_tx gph)) (lle_oc_ui_recv l)
                    (lle_sapi l) None d mem) (\<lambda>(rc, mem).
           if rc < 0 then Inr (Inl rc)
           else ebind (fcs_at mem (d + unat (gh_data_len gph))) (\<lambda>fcs.
             Inr (Inr (gph\<lparr>gh_fcs := fcs\<rparr>, mem, False)))))
        else Inr (Inl 0)
      else Inr (Inr (gph, mem, llme_algo m \<noteq> GEA0 \<and> llme_cksn m \<noteq> GSM_KEY_SEQ_INVAL)))"

text \<open>From the FCS check on, with the header and the memory as decryption left them.\<close>

definition llc_rx_checked ::
  "(llc_xid_field \<Rightarrow> int \<times> llc_xid_field) \<Rightarrow> msgb_ids \<Rightarrow> llc_hdr_parsed \<Rightarrow> octets \<Rightarrow> bool \<Rightarrow> nat \<Rightarrow> nat \<Rightarrow> llc \<Rightarrow>
   (int \<times> llc) exec" where
  "llc_rx_checked sndcp_sn_xid_ind ids gph mem drop_cipherable i sapi st =
     ebind (gprs_llc_fcs mem (unat (gh_crc_length gph))) (\<lambda>fcs_calc.
     if gh_fcs gph \<noteq> fcs_calc then Inr (- EIO, st)
     else
       let st = llme_upd i (\<lambda>m. m\<lparr>llme_bvci := mi_bvci ids, llme_nsei := mi_nsei ids\<rparr>) st in
       ebind (gprs_llc_hdr_rx sndcp_sn_xid_ind (gph\<lparr>gh_fcs_calc := fcs_calc\<rparr>) mem i sapi st) (\<lambda>(rc, st).
       if rc < 0 then Inr (rc, st) else Inr (deliver_ui gph mem drop_cipherable i st)))"

text \<open>From the entity on: the age is reset, the frame decrypted.\<close>

definition llc_rx_lle ::
  "cipher_env \<Rightarrow> (llc_xid_field \<Rightarrow> int \<times> llc_xid_field) \<Rightarrow> msgb_ids \<Rightarrow> llc_hdr_parsed \<Rightarrow> octets \<Rightarrow> nat \<Rightarrow> nat \<Rightarrow> llc \<Rightarrow>
   (int \<times> llc) exec" where
  "llc_rx_lle env sndcp_sn_xid_ind ids gph mem i sapi st =
     (let st = llme_upd i (\<lambda>m. m\<lparr>llme_age_timestamp := GPRS_LLME_RESET_AGE\<rparr>) st in
      ebind (llme_at st i) (\<lambda>m. ebind (lle_at m sapi) (\<lambda>l.
      ebind (decrypt_ui env m l gph mem) (\<lambda>dec.
      case dec of
        Inl rc \<Rightarrow> Inr (rc, st)
      | Inr (gph, mem, drop_cipherable) \<Rightarrow>
          llc_rx_checked sndcp_sn_xid_ind ids gph mem drop_cipherable i sapi st))))"

definition gprs_llc_rcvmsg ::
  "cipher_env \<Rightarrow> (llc_xid_field \<Rightarrow> int \<times> llc_xid_field) \<Rightarrow> msgb_ids \<Rightarrow> octets \<Rightarrow> u16 \<Rightarrow> llc \<Rightarrow> (int \<times> llc) exec" where
  "gprs_llc_rcvmsg env sndcp_sn_xid_ind ids mem llc_len st =
     ebind (gprs_llc_hdr_parse zero_hdr_parsed mem (uint llc_len)) (\<lambda>(rc, gph).
     if rc < 0 then Inr (rc, st)
     else
       let sapi = unat (gh_sapi gph);
           (lle, st) = lle_for_rx_by_tlli_sapi (mi_tlli ids) sapi (gh_cmd gph) st
       in case lle of
         None \<Rightarrow> if sapi \<in> {3, 5, 9, 11} then Inr (0, emit (Force_reattach ids) st) else Inr (0, st)
       | Some i \<Rightarrow> llc_rx_lle env sndcp_sn_xid_ind ids gph mem i sapi st)"

end
