(* ===== verification/Llc_Ui.thy ===== *)
theory Llc_Ui
  imports Llc_Frames
begin

unbundle bit_operations_syntax

section \<open>LLC: unacknowledged frames from sender to receiver\<close>

text \<open>
  Proofs about the UI frames of \<^verbatim>\<open>gprs_llc.c\<close>: the header that \<^verbatim>\<open>gprs_llc_tx_ui\<close> writes is the header
  \<^verbatim>\<open>gprs_llc_hdr_parse\<close> reads, decryption undoes encryption, a frame sent is delivered, and
  how the sequence numbers and overflow counters of the two ends run.
\<close>

subsection \<open>The UI header\<close>

lemma with_fcs_ok:
  obtains fcs where "with_fcs frame = Inr (frame @ fcs_octets fcs)" "gprs_llc_fcs frame (length frame) = Inr fcs" "is24 fcs"
proof -
  obtain fcs where f: "gprs_llc_fcs frame (length frame) = Inr fcs" by (simp add: gprs_llc_fcs_foldl)
  then show thesis using that [of fcs] gprs_llc_fcs_is24 [OF f] by (simp add: with_fcs_def)
qed

lemma fcs_octets_length [simp]: "length (fcs_octets fcs) = 3"
  by (simp add: fcs_octets_def)

lemma fcs_at_octets:
  assumes "is24 fcs"
  shows "fcs_at (frame @ fcs_octets fcs @ rest) (length frame) = Inr fcs"
proof -
  let ?f = "\<lambda>n. ucast (drop_bit n fcs AND 0xff) :: u8"
  have "ucast (?f 0) OR push_bit 8 (ucast (?f 8)) OR push_bit 16 (ucast (?f 16)) = fcs"
  proof (rule bit_word_eqI)
    fix n assume "n < LENGTH(32)"
    then show "bit (ucast (?f 0) OR push_bit 8 (ucast (?f 8)) OR push_bit 16 (ucast (?f 16)) :: u32) n = bit fcs n"
      using assms unfolding mask_8
      by (cases "n < 8"; cases "n < 16"; cases "n < 24") (auto simp: bit_simps is24_iff)
  qed
  then show ?thesis by (simp add: fcs_at_def rd_def fcs_octets_def nth_append)
qed

lemma ui_ctrl_bits:
  assumes "nu < (512 :: u16)"
  shows "seq_3_6 (ui_ctrl0 nu) (ui_ctrl1 nu) = ucast nu"
    and "ui_ctrl0 nu AND 0x80 \<noteq> 0" "ui_ctrl0 nu AND 0xc0 \<noteq> 0x80" "ui_ctrl0 nu AND 0xe0 = 0xc0"
    and "ui_ctrl1 nu AND 0x02 = 0" "ui_ctrl1 nu AND 0x01 \<noteq> 0"
    and "seq_3_6 (ui_ctrl0 nu) (ui_ctrl1 nu OR 0x02) = ucast nu"
    and "(ui_ctrl1 nu OR 0x02) AND 0x02 \<noteq> 0" "(ui_ctrl1 nu OR 0x02) AND 0x01 \<noteq> 0"
proof -
  have "uint nu < 2 ^ 9" using assms by (simp add: word_less_def)
  note nb = not_bit_if_less [OF this]
  have k: "n \<in> {0,1,2,3,4,5,6,7,8,9,10,11,12,13,14,15,16,17,18,19,20,21,22,23,24,25,26,27,28,29,30,31}" if "n < LENGTH(32)" for n
    using that by (simp, presburger)
  show "seq_3_6 (ui_ctrl0 nu) (ui_ctrl1 nu) = ucast nu"
    unfolding seq_3_6_def ui_ctrl0_def ui_ctrl1_def
    by (rule bit_word_eqI, drule k) (use nb in \<open>auto simp: bit_simps\<close>)
  show "seq_3_6 (ui_ctrl0 nu) (ui_ctrl1 nu OR 0x02) = ucast nu"
    unfolding seq_3_6_def ui_ctrl0_def ui_ctrl1_def
    by (rule bit_word_eqI, drule k) (use nb in \<open>auto simp: bit_simps\<close>)
  have "ui_ctrl0 nu AND 0x80 = 0x80" "ui_ctrl0 nu AND 0xc0 = 0xc0" "ui_ctrl0 nu AND 0xe0 = 0xc0"
    "ui_ctrl1 nu AND 0x02 = 0" "ui_ctrl1 nu AND 0x01 = 1" "(ui_ctrl1 nu OR 0x02) AND 0x02 = 2" "(ui_ctrl1 nu OR 0x02) AND 0x01 = 1"
    unfolding ui_ctrl0_def ui_ctrl1_def
    by (rule u8_eqI; use nb in \<open>simp add: bit_simps\<close>)+
  then show "ui_ctrl0 nu AND 0x80 \<noteq> 0" "ui_ctrl0 nu AND 0xc0 \<noteq> 0x80" "ui_ctrl0 nu AND 0xe0 = 0xc0"
    "ui_ctrl1 nu AND 0x02 = 0" "ui_ctrl1 nu AND 0x01 \<noteq> 0" 
    "(ui_ctrl1 nu OR 0x02) AND 0x02 \<noteq> 0" "(ui_ctrl1 nu OR 0x02) AND 0x01 \<noteq> 0" by simp_all
qed

lemma llc_addr_bits:
  assumes "sapi < 16"
  shows "llc_addr sapi command AND 0x80 = 0" "llc_addr sapi command AND 0xf = word_of_nat sapi"
    "llc_addr sapi command AND 0x40 = 0 \<longleftrightarrow> \<not> command"
proof -
  have s: "(word_of_nat sapi :: u8) \<le> 15" using assms by (simp add: word_le_nat_alt unat_u8_of_nat)
  show "llc_addr sapi command AND 0x80 = 0" "llc_addr sapi command AND 0xf = word_of_nat sapi"
    unfolding llc_addr_def by (rule u8_eqI; use bits_le_15 [OF s] in \<open>simp add: bit_simps\<close>)+
  have "llc_addr sapi command AND 0x40 = (if command then 0x40 else 0)"
    unfolding llc_addr_def by (rule u8_eqI; use bits_le_15 [OF s] in \<open>simp add: bit_simps\<close>)
  then show "llc_addr sapi command AND 0x40 = 0 \<longleftrightarrow> \<not> command" by simp
qed

definition ui_header :: "nat \<Rightarrow> bool \<Rightarrow> u16 \<Rightarrow> bool \<Rightarrow> octets" where
  "ui_header sapi command nu enc = [llc_addr sapi command, ui_ctrl0 nu, if enc then ui_ctrl1 nu OR 0x02 else ui_ctrl1 nu]"

definition ui_parsed :: "nat \<Rightarrow> bool \<Rightarrow> u16 \<Rightarrow> bool \<Rightarrow> nat \<Rightarrow> u32 \<Rightarrow> llc_hdr_parsed" where
  "ui_parsed sapi command nu enc n fcs = zero_hdr_parsed\<lparr>gh_sapi := word_of_nat sapi, gh_is_cmd := \<not> command,
     gh_is_encrypted := enc, gh_seq_tx := ucast nu, gh_fcs := fcs, gh_data := Some 3, gh_data_len := word_of_nat n,
     gh_crc_length := word_of_nat (3 + n), gh_cmd := GPRS_LLC_UI\<rparr>"

lemma ui_header_length [simp]: "length (ui_header sapi command nu enc) = 3"
  by (simp add: ui_header_def)

lemma ui_parse:
  assumes "sapi < 16" "\<not> reserved_sapi (word_of_nat sapi)" "nu < 512" "is24 fcs" "length info \<le> 2000"
  shows "gprs_llc_hdr_parse zero_hdr_parsed (ui_header sapi command nu enc @ info @ fcs_octets fcs)
      (int (6 + length info)) = Inr (0, ui_parsed sapi command nu enc (length info) fcs)"
proof -
  let ?m = "ui_header sapi command nu enc @ info @ fcs_octets fcs"
  have f: "fcs_at ?m (nat (int (6 + length info) - 3)) = Inr fcs"
    using fcs_at_octets [OF assms(4), of "ui_header sapi command nu enc @ info" "[]"] by (simp add: nat_add_distrib)
  have il: "info_len (6 + int n) 3 = word_of_nat n" for n by (simp add: info_len_def)
  note c = ui_ctrl_bits [OF assms(3)] and a = llc_addr_bits [OF assms(1)]
  have r: "rd ?m 0 = Inr (llc_addr sapi command)" "rd ?m 1 = Inr (ui_ctrl0 nu)"
    "rd ?m 2 = Inr (if enc then ui_ctrl1 nu OR 0x02 else ui_ctrl1 nu)" by (simp_all add: ui_header_def)
  have "parse_ui_format g ?m (int (6 + length info)) (ui_ctrl0 nu) = Inr (0, g\<lparr>gh_cmd := GPRS_LLC_UI,
      gh_data := Some 3, gh_data_len := word_of_nat (length info), gh_seq_tx := ucast nu,
      gh_is_encrypted := enc \<or> gh_is_encrypted g\<rparr>)" for g
    unfolding parse_ui_format_def r(3) using c by (simp add: il)
  then show ?thesis
    unfolding gprs_llc_hdr_parse_def f r(1) parse_ctrl_def r(2) parse_format_def
    using assms(2) c(2-4) a
    by (simp add: CRC24_LENGTH_def Let_def ui_parsed_def zero_hdr_parsed_def)
qed

subsection \<open>Encryption\<close>

text \<open>
  What libosmocore documents of the keystream generator: when it succeeds it has written as
  many octets as were asked for.  \<open>peer_env\<close> is the interface as the other end of the link
  uses it, with the two directions exchanged.
\<close>

definition cipher_spec :: "cipher_env \<Rightarrow> bool" where
  "cipher_spec env \<longleftrightarrow> (\<forall>n a kc iv dir r ks. ce_run env n a kc iv dir = (r, ks) \<and> 0 \<le> r \<longrightarrow> length ks = n)"

definition peer_env :: "cipher_env \<Rightarrow> cipher_env" where
  "peer_env env = env\<lparr>ce_run := \<lambda>n a kc iv dir.
     ce_run env n a kc iv (if dir = GPRS_CIPH_MS2SGSN then GPRS_CIPH_SGSN2MS else GPRS_CIPH_MS2SGSN)\<rparr>"

lemma xor_octets_length [simp]: "length (xor_octets xs ks) = min (length xs) (length ks)"
  by (simp add: xor_octets_def)

lemma xor_octets_twice: "length xs = length ks \<Longrightarrow> xor_octets (xor_octets xs ks) ks = xs"
  unfolding xor_octets_def by (induction xs ks rule: list_induct2) (simp_all add: xor.assoc)

lemma unat_u16_of_nat: "n \<le> 65535 \<Longrightarrow> unat (word_of_nat n :: u16) = n"
  by (simp add: unsigned_of_nat take_bit_nat_eq_self)

lemma apply_gea_tx:
  assumes "apply_gea env m (word_of_nat (3 + length info)) nu oc sapi (Some (3 + length info)) 0
      (ui_header sapi' command nu' False @ info @ fcs_octets f0) = Inr (0, frame)"
    and "cipher_spec env" "length info \<le> 2000"
  obtains r ks fcs where
    "ce_run env (3 + length info) (llme_algo m) (llme_kc m) (ce_gen_input_ui env (llme_iov_ui m) sapi nu oc)
       GPRS_CIPH_SGSN2MS = (r, ks)" "0 \<le> r"
    "length ks = 3 + length info"
    "gprs_llc_fcs (ui_header sapi' command nu' True @ info) (3 + length info) = Inr fcs" "is24 fcs"
    "frame = ui_header sapi' command nu' True @ xor_octets (info @ fcs_octets fcs) ks"
proof -
  let ?n = "3 + length info"
  let ?run = "ce_run env ?n (llme_algo m) (llme_kc m) (ce_gen_input_ui env (llme_iov_ui m) sapi nu oc) GPRS_CIPH_SGSN2MS"
  obtain r ks where run: "?run = (r, ks)" by force
  have n: "unat (word_of_nat ?n :: u16) = ?n" using assms(3) by (intro unat_u16_of_nat) simp
  obtain fcs where fcs: "gprs_llc_fcs (ui_header sapi' command nu' True @ info) ?n = Inr fcs"
    by (simp add: gprs_llc_fcs_foldl)
  have mark: "mark_encrypted (ui_header sapi' command nu' False @ info @ fcs_octets f0) 0 =
      Inr (ui_header sapi' command nu' True @ info @ fcs_octets f0)"
    by (simp add: mark_encrypted_def ui_header_def)
  have calc: "gprs_llc_fcs (ui_header sapi' command nu' True @ info @ fcs_octets f0) ?n = Inr fcs"
    using fcs by (simp add: gprs_llc_fcs_foldl)
  have put: "put_fcs (ui_header sapi' command nu' True @ info @ fcs_octets f0) ?n fcs =
      Inr (ui_header sapi' command nu' True @ info @ fcs_octets fcs)"
    by (simp add: put_fcs_def)
  have r: "0 \<le> r" using assms(1) run n by (auto simp: apply_gea_def Let_def ENOMSG_def errno_defs split: if_splits)
  then have ks: "length ks = ?n" using assms(2) run unfolding cipher_spec_def by blast
  have "frame = ui_header sapi' command nu' True @ xor_octets (info @ fcs_octets fcs) ks"
    using assms(1) run n r mark calc put ks
    by (auto simp: apply_gea_def Let_def xor_at_def ENOMSG_def errno_defs split: if_splits)
  then show thesis using that [of r ks fcs] run r ks fcs gprs_llc_fcs_is24 [OF fcs] by simp
qed

lemma apply_gea_rx:
  assumes "ce_run env (3 + length info) (llme_algo m) (llme_kc m) (ce_gen_input_ui env (llme_iov_ui m) sapi nu oc)
       GPRS_CIPH_SGSN2MS = (r, ks)" "0 \<le> r" "length ks = 3 + length info"
    and "llme_algo m \<noteq> GEA0" "llme_algo m' = llme_algo m" "llme_kc m' = llme_kc m" "llme_iov_ui m' = llme_iov_ui m"
    and "length info \<le> 2000" "length hdr = 3"
  shows "apply_gea (peer_env env) m' (word_of_nat (length info) + 3) nu oc sapi None 3
      (hdr @ xor_octets (info @ fcs_octets fcs) ks) = Inr (0, hdr @ info @ fcs_octets fcs)"
proof -
  have "word_of_nat (length info) + 3 = (word_of_nat (3 + length info) :: u16)" by simp
  then have n: "unat (word_of_nat (length info) + 3 :: u16) = 3 + length info"
    using assms(8) by (simp only: unat_u16_of_nat)
  show ?thesis
    using assms n by (simp add: apply_gea_def peer_env_def Let_def xor_at_def xor_octets_twice)
qed

lemma decrypt_ui_plain:
  "decrypt_ui env m l (ui_parsed sapi command nu False n fcs) mem =
    Inr (Inr (ui_parsed sapi command nu False n fcs, mem, llme_algo m \<noteq> GEA0 \<and> llme_cksn m \<noteq> GSM_KEY_SEQ_INVAL))"
  by (simp add: decrypt_ui_def ui_parsed_def)

lemma ucast_u32_u16 [simp]: "(ucast (ucast (x :: u16) :: u32) :: u16) = x"
  by (rule bit_word_eqI) (auto simp: bit_simps)

lemma decrypt_ui_encrypted:
  assumes "ce_run env (3 + length info) (llme_algo m) (llme_kc m) (ce_gen_input_ui env (llme_iov_ui m) sapi nu (lle_oc_ui_recv l))
       GPRS_CIPH_SGSN2MS = (r, ks)" "0 \<le> r" "length ks = 3 + length info" "is24 fcs"
    and "llme_algo m \<noteq> GEA0" "llme_algo m' = llme_algo m" "llme_kc m' = llme_kc m" "llme_iov_ui m' = llme_iov_ui m"
    and "length info \<le> 2000" "lle_sapi l = sapi" "length hdr = 3"
  shows "decrypt_ui (peer_env env) m' l (ui_parsed sapi command nu True (length info) f)
      (hdr @ xor_octets (info @ fcs_octets fcs) ks) =
    Inr (Inr (ui_parsed sapi command nu True (length info) fcs, hdr @ info @ fcs_octets fcs, False))"
proof -
  have n: "unat (word_of_nat (length info) :: u16) = length info" using assms(9) by (intro unat_u16_of_nat) simp
  have "fcs_at (hdr @ info @ fcs_octets fcs) (3 + length info) = Inr fcs"
    using fcs_at_octets [OF assms(4), of "hdr @ info" "[]"] assms(11) by simp
  then show ?thesis
    using apply_gea_rx [OF assms(1-3,5-9,11), of fcs] assms(5,6,10) n
    by (simp add: decrypt_ui_def ui_parsed_def zero_hdr_parsed_def)
qed

subsection \<open>Receiving a UI frame\<close>

lemma llme_at_upd:
  assumes "llme_at st i = Inr m" and "\<And>m. llme_id (f m) = llme_id m"
  shows "llme_at (llme_upd i f st) i = Inr (f m)"
proof -
  have "find (\<lambda>m. llme_id m = i) (map (\<lambda>m. if llme_id m = i then f m else m) ms) =
      map_option f (find (\<lambda>m. llme_id m = i) ms)" for ms
    by (induction ms) (auto simp: assms(2))
  then show ?thesis using assms(1)
    by (auto simp: llme_at_def llme_upd_def split: option.splits)
qed

lemma llc_out_upd [simp]: "llc_out (llme_upd i f st) = llc_out st"
  by (simp add: llme_upd_def)

lemma lle_rx_ui_accept: "\<not> gprs_llc_is_retransmit (ucast seq) (lle_vu_recv l) \<Longrightarrow> lle_rx_ui seq l = (0, lle_accept seq l)"
  by (simp add: lle_rx_ui_def)

lemma hdr_rx_ui:
  assumes "gh_cmd g = GPRS_LLC_UI" "llme_at st i = Inr m" "lle_at m sapi = Inr l" "lle_rx_ui (gh_seq_tx g) l = (rc, l')"
  shows "gprs_llc_hdr_rx sx g mem i sapi st = Inr (rc, llme_upd i (lle_upd sapi (\<lambda>_. l')) st)"
  using assms by (simp add: gprs_llc_hdr_rx_def)

lemma rcvmsg_ui:
  assumes hdr: "gprs_llc_hdr_parse zero_hdr_parsed mem (uint len) = Inr (0, ui_parsed sapi command nu enc n f)"
    and s: "sapi < 16" "sapi \<in> {3, 5, 9, 11}" "0 < n" "n \<le> 2000"
    and known: "lle_by_tlli_sapi rt (mi_tlli ids) = Some j" "llme_at rt j = Inr m'" "lle_at m' sapi = Inr l"
    and dec: "decrypt_ui env (m'\<lparr>llme_age_timestamp := GPRS_LLME_RESET_AGE\<rparr>) l (ui_parsed sapi command nu enc n f) mem =
      Inr (Inr (ui_parsed sapi command nu enc n fcs, mem', dc))"
    and fcs: "gprs_llc_fcs mem' (3 + n) = Inr fcs"
    and fresh: "\<not> gprs_llc_is_retransmit nu (lle_vu_recv l)"
  shows "\<exists>rt'. gprs_llc_rcvmsg env sx ids mem len rt = Inr (0, rt') \<and>
    llc_out rt' = llc_out rt @ [Sndcp_unitdata_ind (drop 3 mem') n j sapi]"
proof -
  let ?g = "ui_parsed sapi command nu enc n fcs"
  have u: "unat (word_of_nat sapi :: u8) = sapi" using s(1) by (intro unat_u8_of_nat) simp
  have w: "unat (word_of_nat (3 + n) :: u16) = 3 + n" "unat (word_of_nat n :: u16) = n"
    using s(4) by (intro unat_u16_of_nat; simp)+
  have ne: "(word_of_nat n :: u16) \<noteq> 0" using w(2) s(3) by auto
  have g: "gh_sapi (ui_parsed sapi command nu enc n x) = word_of_nat sapi" "gh_cmd (ui_parsed sapi command nu enc n x) = GPRS_LLC_UI" "gh_crc_length (ui_parsed sapi command nu enc n x) = word_of_nat (3 + n)"
    "gh_seq_tx (ui_parsed sapi command nu enc n x) = ucast nu" "gh_data (ui_parsed sapi command nu enc n x) = Some 3" "gh_data_len (ui_parsed sapi command nu enc n x) = word_of_nat n" "gh_fcs (ui_parsed sapi command nu enc n x) = x" for x
    by (simp_all add: ui_parsed_def)
  let ?m1 = "m'\<lparr>llme_age_timestamp := GPRS_LLME_RESET_AGE\<rparr>"
  let ?st1 = "llme_upd j (\<lambda>m. m\<lparr>llme_age_timestamp := GPRS_LLME_RESET_AGE\<rparr>) rt"
  let ?st2 = "llme_upd j (\<lambda>m. m\<lparr>llme_bvci := mi_bvci ids, llme_nsei := mi_nsei ids\<rparr>) ?st1"
  have a1: "llme_at ?st1 j = Inr ?m1" by (rule llme_at_upd [OF known(2)]) simp
  have a2: "llme_at ?st2 j = Inr (?m1\<lparr>llme_bvci := mi_bvci ids, llme_nsei := mi_nsei ids\<rparr>)"
    by (rule llme_at_upd [OF a1]) simp
  have l: "lle_at ?m1 sapi = Inr l" "lle_at (?m1\<lparr>llme_bvci := mi_bvci ids, llme_nsei := mi_nsei ids\<rparr>) sapi = Inr l"
    using known(3) by (simp_all add: lle_at_def split: if_splits)
  have rx: "gprs_llc_hdr_rx sx (?g\<lparr>gh_fcs_calc := fcs\<rparr>) mem' j sapi ?st2 =
      Inr (0, llme_upd j (lle_upd sapi (\<lambda>_. lle_accept (ucast nu) l)) ?st2)"
    using fresh by (intro hdr_rx_ui [OF _ a2 l(2)]) (simp_all add: g lle_rx_ui_accept)
  have dl: "deliver_ui ?g mem' dc j st = (0, emit (Sndcp_unitdata_ind (drop 3 mem') n j sapi) st)" for st
    using s(2) ne by (auto simp: deliver_ui_def g u w Let_def)
  have "gprs_llc_rcvmsg env sx ids mem len rt = Inr (deliver_ui ?g mem' dc j (llme_upd j (lle_upd sapi (\<lambda>_. lle_accept (ucast nu) l)) ?st2))"
    unfolding gprs_llc_rcvmsg_def hdr llc_rx_lle_def llc_rx_checked_def
    by (simp only: ebind_simps prod.case g u lle_for_rx_by_tlli_sapi_def known(1) option.case Let_def a1 l dec sum.case w fcs rx) simp
  then show ?thesis unfolding dl by (simp add: emit_def)
qed

lemma fcs_octets_any:
  assumes "length bs = 3"
  obtains f where "bs = fcs_octets f" "is24 f"
proof -
  obtain a b c where bs: "bs = [a, b, c]" using assms by (auto simp: length_Suc_conv numeral_3_eq_3)
  let ?f = "ucast a OR push_bit 8 (ucast b) OR push_bit 16 (ucast c) :: u32"
  have "ucast (drop_bit 0 ?f AND mask 8) = a" "ucast (drop_bit 8 ?f AND mask 8) = b" "ucast (drop_bit 16 ?f AND mask 8) = c"
    by (rule u8_eqI; auto simp: bit_simps dest: bit_imp_le_length)+
  then have "bs = fcs_octets ?f" by (simp add: bs fcs_octets_def mask_8)
  moreover have "is24 ?f" unfolding is24_iff by (auto simp: bit_simps dest: bit_imp_le_length)
  ultimately show thesis by (rule that)
qed

lemma uint_u16_of_nat: "n \<le> 65535 \<Longrightarrow> uint (word_of_nat n :: u16) = int n"
  by (simp add: unsigned_of_nat take_bit_nat_eq_self)

text \<open>
  C3. A UI frame built by the downlink path (\<^verbatim>\<open>gprs_llc_tx_ui\<close>, whose frame construction is
  \<open>build_ui_frame\<close>: header, encryption of the information field and FCS) and handed to
  \<^verbatim>\<open>gprs_llc_rcvmsg\<close> of a peer with the same key, algorithm and counters is decrypted,
  passes the FCS check, and exactly its information field goes to SNDCP, whenever the frame is
  not in the window of retransmissions.  The cipher is a parameter: all that is assumed is that it
  produces a key stream of the requested length or fails, and that the peer draws the same
  stream for the opposite direction flag.
\<close>

theorem ui_frame_delivered:
  assumes built: "build_ui_frame env m nu oc sapi command encryptable info = Inr (0, frame)"
    and spec: "cipher_spec env"
    and s: "sapi \<in> {3, 5, 9, 11}" "nu < 512" "info \<noteq> []" "length info \<le> 2000"
    and known: "lle_by_tlli_sapi rt (mi_tlli ids) = Some j" "llme_at rt j = Inr m'" "lle_at m' sapi = Inr l"
    and same: "llme_algo m' = llme_algo m" "llme_kc m' = llme_kc m" "llme_iov_ui m' = llme_iov_ui m"
      "lle_sapi l = sapi" "lle_oc_ui_recv l = oc"
    and fresh: "\<not> gprs_llc_is_retransmit nu (lle_vu_recv l)"
  shows "\<exists>rt' fcs. gprs_llc_rcvmsg (peer_env env) sx ids frame (word_of_nat (length frame)) rt = Inr (0, rt') \<and>
    llc_out rt' = llc_out rt @ [Sndcp_unitdata_ind (info @ fcs) (length info) j sapi]"
proof -
  let ?n = "length info"
  have sapi: "sapi < 16" "\<not> reserved_sapi (word_of_nat sapi)" using s(1) by (auto simp: reserved_sapi_def)
  obtain f0 where f0: "with_fcs (ui_header sapi command nu False @ info) = Inr ((ui_header sapi command nu False @ info) @ fcs_octets f0)"
    "gprs_llc_fcs (ui_header sapi command nu False @ info) (3 + ?n) = Inr f0" "is24 f0"
    using with_fcs_ok [of "ui_header sapi command nu False @ info"] by auto
  have hd: "llc_addr sapi command # ui_ctrl0 nu # ui_ctrl1 nu # info = ui_header sapi command nu False @ info"
    by (simp add: ui_header_def)
  have len: "uint (word_of_nat (6 + ?n) :: u16) = int (6 + ?n)"
    using s(4) by (intro uint_u16_of_nat) simp
  show ?thesis
  proof (cases "llme_algo m \<noteq> GEA0 \<and> encryptable")
    case False
    then have fr: "frame = ui_header sapi command nu False @ info @ fcs_octets f0"
      using built f0(1) unfolding build_ui_frame_def hd by auto
    have fcs: "gprs_llc_fcs frame (3 + ?n) = Inr f0" unfolding fr using f0(2) by (simp add: gprs_llc_fcs_foldl)
    have parse: "gprs_llc_hdr_parse zero_hdr_parsed frame (uint (word_of_nat (6 + ?n) :: u16)) =
        Inr (0, ui_parsed sapi command nu False ?n f0)"
      unfolding len fr by (rule ui_parse [OF sapi s(2) f0(3) s(4)])
    have "length frame = 6 + ?n" "drop 3 frame = info @ fcs_octets f0" by (simp_all add: fr)
    with rcvmsg_ui [where env = "peer_env env" and sx = sx, OF parse sapi(1) s(1) _ s(4) known decrypt_ui_plain fcs fresh] s(3)
    show ?thesis by auto
  next
    case True
    then have "apply_gea env m (word_of_nat (3 + ?n)) nu oc sapi (Some (3 + ?n)) 0
        (ui_header sapi command nu False @ info @ fcs_octets f0) = Inr (0, frame)"
      using built f0(1) unfolding build_ui_frame_def hd by (simp add: Let_def)
    from apply_gea_tx [OF this spec s(4)] obtain r ks fcs where k:
      "ce_run env (3 + ?n) (llme_algo m) (llme_kc m) (ce_gen_input_ui env (llme_iov_ui m) sapi nu oc)
         GPRS_CIPH_SGSN2MS = (r, ks)" "0 \<le> r" "length ks = 3 + ?n"
      "gprs_llc_fcs (ui_header sapi command nu True @ info) (3 + ?n) = Inr fcs" "is24 fcs"
      "frame = ui_header sapi command nu True @ xor_octets (info @ fcs_octets fcs) ks" by metis
    let ?hdr = "ui_header sapi command nu True" and ?c = "xor_octets (info @ fcs_octets fcs) ks"
    have cl: "length ?c = 3 + ?n" using k(3) by simp
    then obtain f where f: "drop ?n ?c = fcs_octets f" "is24 f" using fcs_octets_any [of "drop ?n ?c"] by auto
    have il: "length (take ?n ?c) = ?n" using cl by simp
    have fr: "frame = ?hdr @ take ?n ?c @ fcs_octets f" unfolding f(1) [symmetric] append_take_drop_id by (rule k(6))
    have parse: "gprs_llc_hdr_parse zero_hdr_parsed frame (uint (word_of_nat (6 + ?n) :: u16)) =
        Inr (0, ui_parsed sapi command nu True ?n f)"
      unfolding len fr using ui_parse [OF sapi s(2) f(2), of "take ?n ?c" command True] s(4) il by simp
    have dec: "decrypt_ui (peer_env env) (m'\<lparr>llme_age_timestamp := GPRS_LLME_RESET_AGE\<rparr>) l (ui_parsed sapi command nu True ?n f) frame =
        Inr (Inr (ui_parsed sapi command nu True ?n fcs, ?hdr @ info @ fcs_octets fcs, False))"
      unfolding k(6) using True same
      by (intro decrypt_ui_encrypted [where m = m and r = r] k(1-3,5) s(4)) (simp_all add: k(1))
    have fcs: "gprs_llc_fcs (?hdr @ info @ fcs_octets fcs) (3 + ?n) = Inr fcs"
      using k(4) by (simp add: gprs_llc_fcs_foldl)
    have "length frame = 6 + ?n" using cl by (simp add: k(6))
    with rcvmsg_ui [where env = "peer_env env" and sx = sx, OF parse sapi(1) s(1) _ s(4) known dec fcs fresh] s(3)
    show ?thesis by auto
  qed
qed

definition xor_env :: cipher_env where
  "xor_env = \<lparr>ce_run = \<lambda>n a kc iv dir. (0, replicate n 0x55), ce_gen_input_ui = \<lambda>iov sapi nu oc. iov + oc,
     ce_key_length = \<lambda>a. 8, ce_kdf_kc128 = \<lambda>ck ik. ck\<rparr>"

definition llc_example :: llc where
  "llc_example = llme_upd 0 (\<lambda>m. m\<lparr>llme_algo := GEA3\<rparr>) (snd (llme_alloc 0xc0001234 \<lparr>llc_llmes = [], llc_next = 0, llc_out = []\<rparr>))"

definition llme_example :: llme where
  "llme_example = hd (llc_llmes llc_example)"

definition ids_example :: msgb_ids where
  "ids_example = \<lparr>mi_tlli = 0xc0001234, mi_bvci = 2, mi_nsei = 3\<rparr>"

theorem ui_frame_delivered_witness:
  "\<exists>frame rt' fcs. build_ui_frame xor_env llme_example 0 0 3 True True [1, 2, 3] = Inr (0, frame) \<and>
     gprs_llc_rcvmsg (peer_env xor_env) (\<lambda>f. (0, f)) ids_example frame (word_of_nat (length frame)) llc_example = Inr (0, rt') \<and>
     llc_out rt' = [Sndcp_unitdata_ind ([1, 2, 3] @ fcs) 3 0 3]"
proof -
  have a: "llme_algo llme_example = GEA3" "llme_at llc_example 0 = Inr llme_example" "lle_at llme_example 3 = Inr (lle_init 3)"
    "lle_by_tlli_sapi llc_example (mi_tlli ids_example) = Some 0" "llc_out llc_example = []"
    by (simp_all add: llme_example_def llc_example_def llme_alloc_def llme_upd_def llme_at_def lle_at_def NUM_SAPIS_def
      lle_by_tlli_sapi_def ids_example_def Let_def)
  obtain frame where f: "build_ui_frame xor_env llme_example 0 0 3 True True [1, 2, 3] = Inr (0, frame)"
    by (simp add: build_ui_frame_def with_fcs_def gprs_llc_fcs_foldl a(1) apply_gea_def xor_env_def Let_def
      mark_encrypted_def put_fcs_def xor_at_def unat_u16_of_nat [of 6, simplified])
  have "cipher_spec xor_env" by (simp add: cipher_spec_def xor_env_def)
  from ui_frame_delivered [OF f this _ _ _ _ a(4,2,3), of "\<lambda>f. (0, f)"] f a(5) show ?thesis
    by (auto simp: lle_init_def gprs_llc_is_retransmit_def)
qed

subsection \<open>Sequence numbers and overflow counters\<close>

definition sent_ui :: "nat \<Rightarrow> lle \<Rightarrow> lle" where
  "sent_ui n l = ((\<lambda>l. snd (lle_next_ui l)) ^^ n) l"

definition received_ui :: "nat \<Rightarrow> lle \<Rightarrow> lle" where
  "received_ui n l = fold (\<lambda>k l. snd (lle_rx_ui (word_of_nat (k mod 512)) l)) [0..<n] l"

lemma uint_u32_of_nat: "n < 2 ^ 32 \<Longrightarrow> uint (word_of_nat n :: u32) = int n"
  by (simp add: unsigned_of_nat take_bit_nat_eq_self)

lemma int_div_512:
  assumes "k < 512"
  shows "(int k + 1) div 512 \<noteq> 0 \<longleftrightarrow> k = 511"
proof (cases "k = 511")
  case False
  with assms have "(int k + 1) div 512 = 0" by (intro div_pos_pos_trivial) simp_all
  with False show ?thesis by simp
qed simp

lemma Suc_div_512: "Suc n div 512 = (if n mod 512 = 511 then n div 512 + 1 else n div 512)"
  by (simp add: div_Suc mod_Suc)

lemma sent_ui_counters:
  assumes "lle_vu_send l = 0" "lle_oc_ui_send l = 0"
  shows "lle_vu_send (sent_ui n l) = word_of_nat (n mod 512)"
    and "lle_oc_ui_send (sent_ui n l) = word_of_nat (512 * ((n + 1) div 512))"
proof (induction n)
  case 0
  show "lle_vu_send (sent_ui 0 l) = word_of_nat (0 mod 512)" using assms by (simp add: sent_ui_def)
  show "lle_oc_ui_send (sent_ui 0 l) = word_of_nat (512 * ((0 + 1) div 512))" using assms by (simp add: sent_ui_def)
next
  case (Suc n)
  let ?l = "sent_ui n l"
  have s: "sent_ui (Suc n) l = snd (lle_next_ui ?l)" by (simp add: sent_ui_def)
  have u: "uint (word_of_nat (n mod 512) :: u16) = int (n mod 512)" for n by (intro uint_u16_of_nat) (simp add: less_imp_le order.trans [OF less_imp_le [OF mod_less_divisor]])
  have e: "(uint (lle_vu_send ?l) + 1) mod 512 = int (Suc n mod 512)"
    unfolding Suc.IH(1) u by (simp add: zmod_int mod_simps add.commute)
  then have v: "word_of_int ((uint (lle_vu_send ?l) + 1) mod 512) = (word_of_nat (Suc n mod 512) :: u16)"
    by (metis of_int_of_nat_eq)
  show "lle_vu_send (sent_ui (Suc n) l) = word_of_nat (Suc n mod 512)"
    unfolding s lle_next_ui_def Let_def v by simp
  have "(int (Suc n mod 512) + 1) div 512 \<noteq> 0 \<longleftrightarrow> Suc n mod 512 = 511"
    by (rule int_div_512) simp
  moreover have "(Suc n + 1) div 512 = (if Suc n mod 512 = 511 then (n + 1) div 512 + 1 else (n + 1) div 512)"
    using Suc_div_512 [of "Suc n"] by simp
  ultimately show "lle_oc_ui_send (sent_ui (Suc n) l) = word_of_nat (512 * ((Suc n + 1) div 512))"
    unfolding s lle_next_ui_def Let_def v u snd_conv by (simp add: Suc.IH(2) algebra_simps)
qed

lemma in_order_not_retransmit: "\<not> gprs_llc_is_retransmit nu nu"
  by (simp add: gprs_llc_is_retransmit_def)

lemma received_ui_counters:
  assumes "lle_vu_recv l = 0" "lle_oc_ui_recv l = 0"
  shows "lle_vu_recv (received_ui n l) = word_of_nat (n mod 512)"
    and "lle_oc_ui_recv (received_ui n l) = word_of_nat (512 * (n div 512))"
    and "fst (lle_rx_ui (word_of_nat (n mod 512)) (received_ui n l)) = 0"
proof -
  have "lle_vu_recv (received_ui n l) = word_of_nat (n mod 512) \<and>
    lle_oc_ui_recv (received_ui n l) = word_of_nat (512 * (n div 512))"
  proof (induction n)
    case 0
    then show ?case using assms by (simp add: received_ui_def)
  next
    case (Suc n)
    let ?l = "received_ui n l" and ?k = "word_of_nat (n mod 512) :: u32"
    have c: "ucast ?k = (word_of_nat (n mod 512) :: u16)"
      by (rule bit_word_eqI) (auto simp: bit_simps)
    have s: "received_ui (Suc n) l = snd (lle_rx_ui ?k ?l)" by (simp add: received_ui_def)
    have a: "lle_rx_ui ?k ?l = (0, lle_accept ?k ?l)"
      using Suc c by (intro lle_rx_ui_accept) (simp add: in_order_not_retransmit)
    have u: "uint ?k = int (n mod 512)" by (intro uint_u32_of_nat) (simp add: less_trans [OF mod_less_divisor])
    have v: "word_of_int ((int (n mod 512) + 1) mod 512) = (word_of_nat (Suc n mod 512) :: u16)"
    proof -
      have "(int (n mod 512) + 1) mod 512 = int (Suc n mod 512)" by (simp add: zmod_int mod_simps add.commute)
      then show ?thesis by (metis of_int_of_nat_eq)
    qed
    have "(int (n mod 512) + 1) div 512 \<noteq> 0 \<longleftrightarrow> n mod 512 = 511"
      by (rule int_div_512) simp
    moreover have "Suc n div 512 = (if n mod 512 = 511 then n div 512 + 1 else n div 512)"
      by (rule Suc_div_512)
    ultimately show ?case unfolding s a lle_accept_def u v snd_conv by (simp add: Suc.IH algebra_simps)
  qed
  moreover have "ucast (word_of_nat (n mod 512) :: u32) = (word_of_nat (n mod 512) :: u16)"
    by (rule bit_word_eqI) (auto simp: bit_simps)
  ultimately show "lle_vu_recv (received_ui n l) = word_of_nat (n mod 512)"
    and "lle_oc_ui_recv (received_ui n l) = word_of_nat (512 * (n div 512))"
    and "fst (lle_rx_ui (word_of_nat (n mod 512)) (received_ui n l)) = 0"
    by (simp_all add: lle_rx_ui_accept in_order_not_retransmit)
qed

text \<open>
  C29. After \<open>n\<close> UI frames the sender numbers the next frame \<open>n mod 512\<close> and enciphers it with
  the overflow counter \<open>512 * ((n + 1) div 512)\<close>, while a receiver that got the same frames in order
  accepts the frame but holds \<open>512 * (n div 512)\<close>.  The two differ exactly for frame 511 of every
  cycle: the send side adds 512 one frame too early (\<^verbatim>\<open>(lle->vu_send + 1) / 512\<close> after the
  number has already been advanced).
\<close>

theorem ui_overflow_counters:
  assumes "lle_vu_send tx = 0" "lle_oc_ui_send tx = 0" "lle_vu_recv rx = 0" "lle_oc_ui_recv rx = 0"
  shows "fst (lle_next_ui (sent_ui n tx)) = (word_of_nat (n mod 512), word_of_nat (512 * ((n + 1) div 512))) \<and>
    fst (lle_rx_ui (word_of_nat (n mod 512)) (received_ui n rx)) = 0 \<and>
    lle_oc_ui_recv (received_ui n rx) = word_of_nat (512 * (n div 512))"
  using sent_ui_counters [OF assms(1,2), of n] received_ui_counters [OF assms(3,4), of n]
  by (simp add: lle_next_ui_def Let_def)

theorem ui_overflow_counters_witness:
  "snd (fst (lle_next_ui (sent_ui 511 (lle_init 3)))) = 512 \<and> lle_oc_ui_recv (received_ui 511 (lle_init 3)) = 0"
  using ui_overflow_counters [of "lle_init 3" "lle_init 3" 511] by (simp add: lle_init_def)

text \<open>
  C30. The filter for repeated UI frames: the first frame whose number lies in the window of
  retransmissions is accepted (and moves the receive number back to just behind it), the next two copies of the
  same frame are refused with \<open>-EIO\<close>, and the third one is accepted again.
\<close>

theorem ui_retransmission:
  assumes "gprs_llc_is_retransmit (ucast seq) (lle_vu_recv l)" "seq < 512" "seq \<noteq> ucast (lle_vu_recv_last l)"
  shows "\<exists>l1 l2 l3 l4. lle_rx_ui seq l = (0, l1) \<and> lle_vu_recv l1 = word_of_int ((uint seq + 1) mod 512) \<and>
    lle_rx_ui seq l1 = (- EIO, l2) \<and> lle_rx_ui seq l2 = (- EIO, l3) \<and> lle_rx_ui seq l3 = (0, l4)"
proof -
  have s: "ucast (ucast seq :: u16) = seq"
    using assms(2) not_bit_if_less [of seq 9] by (intro bit_word_eqI) (auto simp: bit_simps word_less_def intro: ccontr)
  have r: "gprs_llc_is_retransmit (ucast seq) (word_of_int ((uint seq + 1) mod 512))"
  proof -
    have "0 \<le> (uint seq + 1) mod 512" "(uint seq + 1) mod 512 < 65536" by (simp_all add: order.strict_trans [OF pos_mod_bound])
    then have v: "uint (word_of_int ((uint seq + 1) mod 512) :: u16) = (uint seq + 1) mod 512"
      by (simp only: uint_word_of_int) simp
    have n: "uint (ucast seq :: u16) = uint seq"
      using assms(2) by (simp add: unsigned_ucast_eq take_bit_eq_mod word_less_def)
    have "((uint seq + 1) mod 512 - uint seq) mod 512 = 1" by (simp add: mod_simps)
    then show ?thesis unfolding is_retransmit_mod v n by simp
  qed
  have f: "lle_rx_ui seq l = (0, lle_accept seq (l\<lparr>lle_vu_recv_last := ucast seq, lle_vu_recv_duplicates := 0\<rparr>))"
    using assms(1,3) by (simp add: lle_rx_ui_def)
  then show ?thesis by (simp add: lle_rx_ui_def r s Let_def lle_accept_def)
qed

theorem ui_retransmission_witness:
  "\<exists>l1 l2 l3 l4. lle_rx_ui 4 ((lle_init 3)\<lparr>lle_vu_recv := 10\<rparr>) = (0, l1) \<and> lle_vu_recv l1 = 5 \<and>
    lle_rx_ui 4 l1 = (- EIO, l2) \<and> lle_rx_ui 4 l2 = (- EIO, l3) \<and> lle_rx_ui 4 l3 = (0, l4)"
  using ui_retransmission [of 4 "(lle_init 3)\<lparr>lle_vu_recv := 10\<rparr>"]
  by (simp add: gprs_llc_is_retransmit_def lle_init_def)

end
