(* ===== verification/Llc_Inv.thy ===== *)
theory Llc_Inv
  imports Llc_Ui
begin

unbundle bit_operations_syntax

section \<open>LLC: the invariant of the entities, TLLI assignment, XID answers\<close>

text \<open>
  The state invariant of the LLC layer over arbitrary sequences of calls (\<open>llc_step\<close>,
  \<open>llc_reachable\<close>), what TLLI assignment and unassignment do to the lookup of entities, and the
  answer to an XID indication.
\<close>

subsection \<open>The invariant of the entities\<close>

definition lle_ok :: "nat \<Rightarrow> lle \<Rightarrow> bool" where
  "lle_ok k l \<longleftrightarrow> lle_sapi l = k \<and> lle_vu_send l < 512 \<and> lle_vu_recv l < 512"

definition llme_ok :: "llme \<Rightarrow> bool" where
  "llme_ok m \<longleftrightarrow> length (llme_lle m) = NUM_SAPIS \<and> (\<forall>k<NUM_SAPIS. lle_ok k (llme_lle m ! k))"

definition llc_inv :: "llc \<Rightarrow> bool" where
  "llc_inv st \<longleftrightarrow> distinct (map llme_id (llc_llmes st)) \<and>
     (\<forall>m\<in>set (llc_llmes st). llme_id m < llc_next st \<and> llme_ok m)"

definition llc_empty :: llc where
  "llc_empty = \<lparr>llc_llmes = [], llc_next = 0, llc_out = []\<rparr>"

lemma word_mod_512: "(word_of_int (k mod 512) :: u16) < 512"
proof -
  have "0 \<le> k mod 512" "k mod 512 < 512" by simp_all
  then have "uint (word_of_int (k mod 512) :: u16) = k mod 512" by (simp only: uint_word_of_int) simp
  then show ?thesis by (simp add: word_less_def)
qed

lemma lle_ok_init: "lle_ok k (lle_init k)"
  by (simp add: lle_ok_def lle_init_def)

lemma lle_ok_next: "lle_ok k l \<Longrightarrow> lle_next_ui l = (p, l') \<Longrightarrow> lle_ok k l'"
  by (auto simp: lle_ok_def lle_next_ui_def Let_def word_mod_512)

lemma lle_ok_accept: "lle_ok k l \<Longrightarrow> lle_ok k (lle_accept seq l)"
  by (simp add: lle_ok_def lle_accept_def word_mod_512)

lemma lle_ok_dups [simp]:
  "lle_ok k (l\<lparr>lle_vu_recv_last := x, lle_vu_recv_duplicates := y\<rparr>) = lle_ok k l"
  "lle_ok k (l\<lparr>lle_vu_recv_duplicates := y\<rparr>) = lle_ok k l"
  "lle_ok k (l\<lparr>lle_vu_recv_last := x\<rparr>) = lle_ok k l"
  by (simp_all add: lle_ok_def)

lemma lle_ok_rx: "lle_ok k l \<Longrightarrow> lle_rx_ui seq l = (rc, l') \<Longrightarrow> lle_ok k l'"
  by (auto simp: lle_rx_ui_def Let_def intro!: lle_ok_accept split: if_splits)

lemma lle_ok_xid [simp]: "lle_ok k (l\<lparr>lle_xid := x\<rparr>) = lle_ok k l"
  by (simp add: lle_ok_def)

lemma llme_at_in: "llme_at st i = Inr m \<Longrightarrow> m \<in> set (llc_llmes st) \<and> llme_id m = i"
  by (auto simp: llme_at_def find_Some_iff split: option.splits)

lemma llc_inv_at: "llc_inv st \<Longrightarrow> llme_at st i = Inr m \<Longrightarrow> llme_ok m \<and> llme_id m = i"
  using llme_at_in by (auto simp: llc_inv_def)

lemma llme_ok_at: "llme_ok m \<Longrightarrow> lle_at m k = Inr l \<Longrightarrow> lle_ok k l"
  by (auto simp: llme_ok_def lle_at_def split: if_splits)

lemma llme_ok_upd: "llme_ok m \<Longrightarrow> lle_ok k l \<Longrightarrow> llme_ok (lle_upd k (\<lambda>_. l) m)"
  unfolding llme_ok_def lle_upd_def
  by (simp, metis nth_list_update_eq nth_list_update_neq)

lemma llme_id_lle_upd [simp]: "llme_id (lle_upd k f m) = llme_id m"
  by (simp add: lle_upd_def)

lemma inv_upd:
  assumes "llc_inv st" and "\<And>m. m \<in> set (llc_llmes st) \<Longrightarrow> llme_id m = i \<Longrightarrow> llme_id (f m) = i \<and> llme_ok (f m)"
  shows "llc_inv (llme_upd i f st)"
proof -
  have "map llme_id (map (\<lambda>m. if llme_id m = i then f m else m) (llc_llmes st)) = map llme_id (llc_llmes st)"
    using assms(2) by auto
  then show ?thesis using assms by (auto simp: llc_inv_def llme_upd_def simp del: map_map)
qed

lemma inv_emit [simp]: "llc_inv (emit e st) = llc_inv st"
  by (simp add: llc_inv_def emit_def)

lemma inv_fold_emit: "llc_inv st \<Longrightarrow> llc_inv (fold emit es st)"
  by (induction es arbitrary: st) simp_all

lemma inv_free: "llc_inv st \<Longrightarrow> llc_inv (llme_free i st)"
  by (auto simp: llc_inv_def llme_free_def emit_def distinct_map_filter)

lemma inv_alloc: "llc_inv st \<Longrightarrow> llme_alloc tlli st = (i, st') \<Longrightarrow> llc_inv st'"
  by (fastforce simp: llc_inv_def llme_alloc_def Let_def llme_ok_def lle_ok_init)

lemma inv_get_or_create: "llc_inv st \<Longrightarrow> gprs_lle_get_or_create tlli st = (i, st') \<Longrightarrow> llc_inv st'"
  by (auto simp: gprs_lle_get_or_create_def intro: inv_alloc split: option.splits)

lemma inv_for_rx: "llc_inv st \<Longrightarrow> lle_for_rx_by_tlli_sapi tlli sapi cmd st = (r, st') \<Longrightarrow> llc_inv st'"
  by (auto simp: lle_for_rx_by_tlli_sapi_def intro: inv_alloc split: option.splits if_splits prod.splits)

lemma inv_bssgp: "llc_inv st \<Longrightarrow> bssgp_tx_dl_ud ids frame mm st = Inr (rc, st') \<Longrightarrow> llc_inv st'"
  by (auto simp: bssgp_tx_dl_ud_def ebind_Inr_iff split: option.splits if_splits)

lemma inv_tx_u: "llc_inv st \<Longrightarrow> gprs_llc_tx_u ids info sapi c u pf st = Inr (rc, st') \<Longrightarrow> llc_inv st'"
  by (auto simp: gprs_llc_tx_u_def ebind_Inr_iff intro: inv_bssgp)

lemma inv_tx_xid: "llc_inv st \<Longrightarrow> gprs_llc_tx_xid i sapi info c st = Inr (rc, st') \<Longrightarrow> llc_inv st'"
  by (auto simp: gprs_llc_tx_xid_def ebind_Inr_iff intro: inv_tx_u)

lemma inv_tx_dm: "llc_inv st \<Longrightarrow> gprs_llc_tx_dm i sapi st = Inr (rc, st') \<Longrightarrow> llc_inv st'"
  by (auto simp: gprs_llc_tx_dm_def ebind_Inr_iff intro: inv_tx_u)

lemma inv_lle_upd:
  assumes "llc_inv st" "lle_ok k l"
  shows "llc_inv (llme_upd i (lle_upd k (\<lambda>_. l)) st)"
  using assms by (intro inv_upd) (auto simp: llc_inv_def intro: llme_ok_upd)

lemma copy_key_keeps [simp]:
  "llme_id (gprs_llme_copy_key env mm m) = llme_id m" "llme_lle (gprs_llme_copy_key env mm m) = llme_lle m"
  by (auto simp: gprs_llme_copy_key_def Let_def split: option.splits)

lemma llme_ok_cong: "llme_lle m = llme_lle m' \<Longrightarrow> llme_ok m = llme_ok m'"
  by (simp add: llme_ok_def)

lemma inv_tx_ui:
  assumes "llc_inv st" "gprs_llc_tx_ui env ids info sapi c mm e st = Inr (rc, st')"
  shows "llc_inv st'"
proof -
  obtain i st1 where g: "gprs_lle_get_or_create (mi_tlli ids) st = (i, st1)" by force
  have inv1: "llc_inv st1" by (rule inv_get_or_create [OF assms(1) g])
  from assms(2) g obtain m l where m: "llme_at st1 i = Inr m" "lle_at m sapi = Inr l"
    by (auto simp: gprs_llc_tx_ui_def ebind_Inr_iff)
  obtain nu oc l' where n: "lle_next_ui l = ((nu, oc), l')" by (metis surj_pair)
  let ?m = "(gprs_llme_copy_key env mm m)\<lparr>llme_bvci := mi_bvci ids, llme_nsei := mi_nsei ids\<rparr>"
  have "llme_ok m" "llme_id m = i" using llc_inv_at [OF inv1 m(1)] by auto
  then have "llme_ok ?m" by (simp add: llme_ok_def)
  moreover have "lle_ok sapi l'" using lle_ok_next [OF _ n] llme_ok_at [OF \<open>llme_ok m\<close> m(2)] by blast
  ultimately have "llme_ok (lle_upd sapi (\<lambda>_. l') ?m)" by (rule llme_ok_upd)
  then have "llc_inv (llme_upd i (\<lambda>_. lle_upd sapi (\<lambda>_. l') ?m) st1)"
    using \<open>llme_id m = i\<close> by (intro inv_upd [OF inv1]) simp
  then show ?thesis using assms(2) g m n inv1
    by (auto simp: gprs_llc_tx_ui_def ebind_Inr_iff Let_def intro: inv_bssgp split: if_splits)
qed

lemma inv_assign:
  assumes "llc_inv st" "gprs_llgmm_assign i old new st = Inr (rc, st')"
  shows "llc_inv st'"
proof -
  have ok: "llme_ok m" "llme_id m = i" if "m \<in> set (llc_llmes st)" "llme_id m = i" for m
    using assms(1) that by (auto simp: llc_inv_def)
  have U: "llc_inv (llme_upd i f st)" if "\<And>m. llme_ok m \<Longrightarrow> llme_id (f m) = llme_id m \<and> llme_ok (f m)" for f
    using that ok by (intro inv_upd [OF assms(1)]) auto
  show ?thesis
    using assms(2) assms(1)
    by (auto simp: gprs_llgmm_assign_def ebind_Inr_iff llme_ok_def lle_ok_def lle_assigned_def intro!: U inv_free split: if_splits)
qed

lemma inv_unassign: "llc_inv st \<Longrightarrow> gprs_llgmm_unassign i st = Inr (rc, st') \<Longrightarrow> llc_inv st'"
  by (auto simp: gprs_llgmm_unassign_def ebind_Inr_iff intro: inv_assign)

lemma inv_xid_conf: "llc_inv st \<Longrightarrow> gprs_llc_process_xid_conf b n i sapi st = Inr st' \<Longrightarrow> llc_inv st'"
proof -
  assume inv: "llc_inv st" and r: "gprs_llc_process_xid_conf b n i sapi st = Inr st'"
  from r obtain es where "st' = llme_upd i (lle_upd sapi (\<lambda>l. l\<lparr>lle_xid := None\<rparr>)) (fold emit es st)"
    by (auto simp: gprs_llc_process_xid_conf_def ebind_Inr_iff Let_def)
  moreover have "llme_ok (lle_upd sapi (\<lambda>l. l\<lparr>lle_xid := None\<rparr>) m)" if "llme_ok m" for m
  proof (cases "sapi < NUM_SAPIS")
    case True
    then have "lle_ok sapi ((llme_lle m ! sapi)\<lparr>lle_xid := None\<rparr>)" using that by (simp add: llme_ok_def)
    from llme_ok_upd [OF that this] show ?thesis by (simp add: lle_upd_def)
  next
    case False
    then show ?thesis using that by (simp add: llme_ok_def lle_upd_def)
  qed
  moreover have "llc_inv (fold emit es st)" by (rule inv_fold_emit [OF inv])
  ultimately show "llc_inv st'"
    by (simp only:, intro inv_upd) (auto simp: llc_inv_def)
qed

lemma inv_rx_xid: "llc_inv st \<Longrightarrow> rx_llc_xid sx i sapi g mem st = Inr st' \<Longrightarrow> llc_inv st'"
  by (auto simp: rx_llc_xid_def Let_def ebind_Inr_iff intro: inv_xid_conf inv_tx_xid split: if_splits)

lemma inv_hdr_rx:
  assumes "llc_inv st" "gprs_llc_hdr_rx sx g mem i sapi st = Inr (rc, st')"
  shows "llc_inv st'"
proof (cases "gh_cmd g = GPRS_LLC_UI")
  case True
  with assms(2) obtain m l where a: "llme_at st i = Inr m" "lle_at m sapi = Inr l"
    by (auto simp: gprs_llc_hdr_rx_def ebind_Inr_iff)
  obtain r l' where l': "lle_rx_ui (gh_seq_tx g) l = (r, l')" by force
  from hdr_rx_ui [OF True a l'] assms(2) have "st' = llme_upd i (lle_upd sapi (\<lambda>_. l')) st" by simp
  then show ?thesis using assms(1) a l' lle_ok_rx llme_ok_at llc_inv_at inv_lle_upd by metis
next
  case False
  with assms show ?thesis
    by (auto simp: gprs_llc_hdr_rx_def ebind_Inr_iff intro: inv_tx_dm inv_rx_xid split: llc_cmd.splits)
qed

lemma inv_deliver: "llc_inv st \<Longrightarrow> deliver_ui g mem dc i st = (rc, st') \<Longrightarrow> llc_inv st'"
  by (auto simp: deliver_ui_def Let_def split: option.splits if_splits)

lemma inv_upd_fields:
  assumes "llc_inv st" "\<And>m. llme_id (f m) = llme_id m \<and> llme_lle (f m) = llme_lle m"
  shows "llc_inv (llme_upd i f st)"
  using assms by (intro inv_upd) (auto simp: llc_inv_def llme_ok_def)

lemma inv_rx_checked:
  assumes "llc_inv st" "llc_rx_checked sx ids g mem dc i sapi st = Inr (rc, st')"
  shows "llc_inv st'"
proof -
  have inv: "llc_inv (llme_upd i (\<lambda>m. m\<lparr>llme_bvci := mi_bvci ids, llme_nsei := mi_nsei ids\<rparr>) st)"
    by (rule inv_upd_fields [OF assms(1)]) simp
  show ?thesis
    using assms by (auto simp: llc_rx_checked_def ebind_Inr_iff Let_def intro: inv_deliver
      dest: inv_hdr_rx [OF inv] split: if_splits)
qed

lemma inv_rx_lle:
  assumes "llc_inv st" "llc_rx_lle env sx ids g mem i sapi st = Inr (rc, st')"
  shows "llc_inv st'"
proof -
  let ?st = "llme_upd i (\<lambda>m. m\<lparr>llme_age_timestamp := GPRS_LLME_RESET_AGE\<rparr>) st"
  have inv: "llc_inv ?st" by (rule inv_upd_fields [OF assms(1)]) simp
  from assms(2) obtain dec where "(case dec of Inl rc \<Rightarrow> Inr (rc, ?st)
      | Inr (gph, mem, dc) \<Rightarrow> llc_rx_checked sx ids gph mem dc i sapi ?st) = Inr (rc, st')"
    unfolding llc_rx_lle_def Let_def ebind_Inr_iff by blast
  then show ?thesis using inv inv_rx_checked by (cases dec) (auto split: prod.splits)
qed

lemma inv_rcvmsg:
  assumes "llc_inv st" "gprs_llc_rcvmsg env sx ids mem n st = Inr (rc, st')"
  shows "llc_inv st'"
proof -
  from assms(2) obtain rc0 g where p: "gprs_llc_hdr_parse zero_hdr_parsed mem (uint n) = Inr (rc0, g)"
    by (auto simp: gprs_llc_rcvmsg_def ebind_Inr_iff)
  obtain lle st1 where l: "lle_for_rx_by_tlli_sapi (mi_tlli ids) (unat (gh_sapi g)) (gh_cmd g) st = (lle, st1)" by force
  have inv1: "llc_inv st1" by (rule inv_for_rx [OF assms(1) l])
  show ?thesis
  proof (cases "rc0 < 0")
    case True
    then show ?thesis using assms p by (simp add: gprs_llc_rcvmsg_def)
  next
    case False
    then show ?thesis using assms(2) p l inv1
      by (cases lle) (auto simp: gprs_llc_rcvmsg_def Let_def intro: inv_rx_lle split: if_splits)
  qed
qed

lemma lle_ok_at: "llc_inv st \<Longrightarrow> llme_at st i = Inr m \<Longrightarrow> lle_at m k = Inr l \<Longrightarrow> lle_ok k l"
  using llc_inv_at llme_ok_at by blast

lemma inv_generate:
  assumes "llc_inv st" "llme_at st i = Inr m" "lle_at m k = Inr l"
  shows "llc_inv (llme_upd i (lle_upd k (\<lambda>_. l\<lparr>lle_xid := x\<rparr>)) st)"
  using lle_ok_at [OF assms] assms(1) by (intro inv_lle_upd) simp_all

lemma inv_xid_req:
  assumes "llc_inv st" "gprs_ll_xid_req i sapi l3 st = Inr (rc, st')"
  shows "llc_inv st'"
  using assms
  by (auto simp: gprs_ll_xid_req_def gprs_llc_generate_xid_def ebind_Inr_iff Let_def
      intro: inv_tx_xid inv_generate split: if_splits)

lemma inv_iov: "llc_inv st \<Longrightarrow> llc_inv (llme_upd i (\<lambda>m. m\<lparr>llme_iov_ui := v\<rparr>) st)"
  by (rule inv_upd_fields) simp_all

lemma inv_reset_oldmsg:
  assumes "llc_inv st" "gprs_llgmm_reset_oldmsg rand of_mem ids sapi i st = Inr (rc, st')"
  shows "llc_inv st'"
  using assms
  by (auto simp: gprs_llgmm_reset_oldmsg_def gprs_llc_generate_xid_for_gmm_reset_def ebind_Inr_iff Let_def
      intro: inv_tx_u inv_generate inv_iov split: if_splits prod.splits)

lemma inv_reset:
  assumes "llc_inv st" "gprs_llgmm_reset rand of_mem i st = Inr (rc, st')"
  shows "llc_inv st'"
proof -
  have R: "llc_inv st'"
    if "gprs_llc_tx_xid i (Suc 0) b True (llme_upd i (lle_upd (Suc 0) (\<lambda>_. l\<lparr>lle_xid := x, lle_vu_recv := 0,
        lle_vu_send := 0, lle_oc_ui_send := 0, lle_oc_ui_recv := 0\<rparr>)) st) = Inr (rc, st')"
      and "llme_at st i = Inr m" "lle_at m (Suc 0) = Inr l" "llc_inv st" for st st' rc m l x b
    using lle_ok_at [OF that(4,2,3)]
    by (intro inv_tx_xid [OF inv_lle_upd [OF that(4)] that(1)]) (simp add: lle_ok_def)
  show ?thesis using assms
    by (auto simp: gprs_llgmm_reset_def gprs_llc_generate_xid_for_gmm_reset_def ebind_Inr_iff Let_def
      intro: R inv_generate inv_iov split: if_splits prod.splits)
qed

text \<open>Every call into the layer that returns, as one step.\<close>

inductive llc_step :: "cipher_env \<Rightarrow> llc \<Rightarrow> llc \<Rightarrow> bool" for env where
  tx_ui: "gprs_llc_tx_ui env ids info sapi c mm e st = Inr (rc, st') \<Longrightarrow> llc_step env st st'"
| rcvmsg: "gprs_llc_rcvmsg env sx ids mem n st = Inr (rc, st') \<Longrightarrow> llc_step env st st'"
| assign: "gprs_llgmm_assign i old new st = Inr (rc, st') \<Longrightarrow> llc_step env st st'"
| unassign: "gprs_llgmm_unassign i st = Inr (rc, st') \<Longrightarrow> llc_step env st st'"
| xid_req: "gprs_ll_xid_req i sapi l3 st = Inr (rc, st') \<Longrightarrow> llc_step env st st'"
| reset: "gprs_llgmm_reset rand of_mem i st = Inr (rc, st') \<Longrightarrow> llc_step env st st'"
| reset_oldmsg: "gprs_llgmm_reset_oldmsg rand of_mem ids sapi i st = Inr (rc, st') \<Longrightarrow> llc_step env st st'"

inductive llc_reachable :: "cipher_env \<Rightarrow> llc \<Rightarrow> bool" for env where
  init: "llc_reachable env llc_empty"
| step: "llc_reachable env st \<Longrightarrow> llc_step env st st' \<Longrightarrow> llc_reachable env st'"

lemma llc_step_inv: "llc_step env st st' \<Longrightarrow> llc_inv st \<Longrightarrow> llc_inv st'"
  by (induction rule: llc_step.induct)
     (auto intro: inv_tx_ui inv_rcvmsg inv_assign inv_unassign inv_xid_req inv_reset inv_reset_oldmsg)

text \<open>
  C4. Whatever sequence of calls enters the LLC layer from the empty state (frames sent, frames
  received with arbitrary octets, TLLI assignment and unassignment, XID requests, resets), no two LLC management
  entities share an identity, every entity has sixteen logical link entities carrying their
  own SAPI, and the send and receive numbers of unacknowledged frames stay below 512.
\<close>

theorem llc_reachable_inv:
  assumes "llc_reachable env st"
  shows "llc_inv st"
  using assms
proof induction
  case init
  then show ?case by (simp add: llc_inv_def llc_empty_def)
qed (rule llc_step_inv)

theorem llc_reachable_inv_witness: 
  "\<exists>st. gprs_llc_tx_ui xor_env ids_example [1, 2, 3] 3 False None True llc_empty = Inr (0, st) \<and> llc_inv st"
proof -
  obtain st where st: "gprs_llc_tx_ui xor_env ids_example [1, 2, 3] 3 False None True llc_empty = Inr (0, st)"
    by (simp add: gprs_llc_tx_ui_def gprs_lle_get_or_create_def lle_by_tlli_sapi_def llc_empty_def llme_alloc_def
      Let_def llme_at_def lle_at_def NUM_SAPIS_def lle_init_def llc_default_params_def data_params_def lle_next_ui_def
      gprs_llme_copy_key_def build_ui_frame_def with_fcs_def gprs_llc_fcs_foldl bssgp_tx_dl_ud_def)
  have "llc_reachable xor_env st"
    by (rule llc_reachable.step [OF llc_reachable.init llc_step.tx_ui [OF st]])
  from llc_reachable_inv [OF this] st show ?thesis by blast
qed

subsection \<open>TLLI assignment and lookup\<close>

definition others_avoid :: "llc \<Rightarrow> nat \<Rightarrow> u32 \<Rightarrow> bool" where
  "others_avoid st i t \<longleftrightarrow> (\<forall>m\<in>set (llc_llmes st). llme_id m \<noteq> i \<longrightarrow> llme_tlli m \<noteq> t \<and> llme_old_tlli m \<noteq> t)"

lemma lookup_upd:
  assumes at: "llme_at st i = Inr m" and av: "others_avoid st i t"
    and f: "\<And>m. llme_id (f m) = llme_id m"
      "\<And>m. llme_tlli (f m) = a" "\<And>m. llme_old_tlli (f m) = b"
  shows "lle_by_tlli_sapi (llme_upd i f st) t = (if t = a \<or> t = b then Some i else None)"
proof -
  let ?ms = "llc_llmes (llme_upd i f st)"
  have ms: "?ms = map (\<lambda>m. if llme_id m = i then f m else m) (llc_llmes st)" by (simp add: llme_upd_def)
  have P: "m' \<in> set ?ms \<Longrightarrow> llme_tlli m' = t \<or> llme_old_tlli m' = t \<longleftrightarrow> llme_id m' = i \<and> (t = a \<or> t = b)" for m'
    using av by (auto simp: ms f others_avoid_def)
  have mem: "f m \<in> set ?ms" "llme_id (f m) = i" using llme_at_in [OF at] by (auto simp: ms f)
  show ?thesis
  proof (cases "t = a \<or> t = b")
    case True
    then have "\<exists>m'\<in>set ?ms. llme_tlli m' = t \<or> llme_old_tlli m' = t" using P mem by blast
    then obtain m' where "find (\<lambda>m. llme_tlli m = t \<or> llme_old_tlli m = t) ?ms = Some m'"
      by (metis (mono_tags, lifting) find_None_iff not_None_eq)
    moreover from this have "m' \<in> set ?ms" "llme_tlli m' = t \<or> llme_old_tlli m' = t"
      by (auto simp: find_Some_iff)
    ultimately show ?thesis using P True by (simp add: lle_by_tlli_sapi_def)
  next
    case False
    then have "find (\<lambda>m. llme_tlli m = t \<or> llme_old_tlli m = t) ?ms = None"
      using P by (auto simp: find_None_iff)
    then show ?thesis using False by (simp add: lle_by_tlli_sapi_def)
  qed
qed

text \<open>
  A TLLI assignment with a new TLLI succeeds, and afterwards a frame under TLLI \<open>t\<close> finds the
  entity exactly when \<open>t\<close> is the new or the old TLLI of the call, provided no other entity uses \<open>t\<close>.
\<close>

theorem assign_lookup:
  assumes "llme_at st i = Inr m" and "others_avoid st i t" and "new \<noteq> TLLI_UNASSIGNED" and "t \<noteq> TLLI_UNASSIGNED"
  shows "\<exists>st'. gprs_llgmm_assign i old new st = Inr (0, st') \<and>
    lle_by_tlli_sapi st' t = (if t = new \<or> t = old then Some i else None)"
proof (cases "old = TLLI_UNASSIGNED")
  case True
  show ?thesis
  proof (cases "llme_old_tlli m \<noteq> TLLI_UNASSIGNED")
    case True
    with \<open>old = TLLI_UNASSIGNED\<close> assms show ?thesis
      using lookup_upd [OF assms(1,2), of "\<lambda>m. m\<lparr>llme_old_tlli := TLLI_UNASSIGNED, llme_tlli := new\<rparr>" new TLLI_UNASSIGNED]
      by (simp add: gprs_llgmm_assign_def)
  next
    case False
    with \<open>old = TLLI_UNASSIGNED\<close> assms show ?thesis
      using lookup_upd [OF assms(1,2), of "\<lambda>m. m\<lparr>llme_old_tlli := TLLI_UNASSIGNED, llme_tlli := new,
                     llme_state := GPRS_LLMS_ASSIGNED, llme_lle := map lle_assigned (llme_lle m)\<rparr>" new TLLI_UNASSIGNED]
      by (simp add: gprs_llgmm_assign_def)
  qed
next
  case False
  with assms show ?thesis
    using lookup_upd [OF assms(1,2), of "\<lambda>m. m\<lparr>llme_old_tlli := old, llme_tlli := new, llme_state := GPRS_LLMS_ASSIGNED\<rparr>" new old]
    by (simp add: gprs_llgmm_assign_def)
qed

theorem assign_lookup_witness:
  "\<exists>st'. gprs_llgmm_assign 0 0xc0001234 0xc0005678 llc_example = Inr (0, st') \<and>
     lle_by_tlli_sapi st' 0xc0001234 = Some 0"
  using assign_lookup [of llc_example 0 llme_example "0xc0001234" "0xc0005678" "0xc0001234"]
  by (simp add: llc_example_def llme_example_def others_avoid_def llme_alloc_def llme_upd_def llme_at_def
      TLLI_UNASSIGNED_def Let_def)

text \<open>
  The value 0xffffffff that marks an unassigned TLLI is also accepted as a TLLI: looking it up
  returns the first entity of the list when that entity has no old TLLI.
\<close>

theorem unassigned_tlli_matches:
  assumes "llc_llmes st = m # ms" and "llme_old_tlli m = TLLI_UNASSIGNED"
  shows "lle_by_tlli_sapi st 0xffffffff = Some (llme_id m)"
  using assms by (simp add: lle_by_tlli_sapi_def TLLI_UNASSIGNED_def)

theorem unassigned_tlli_matches_witness:
  "lle_by_tlli_sapi (snd (llme_alloc 0xc0001234 llc_empty)) 0xffffffff = Some 0"
  using unassigned_tlli_matches [of "snd (llme_alloc 0xc0001234 llc_empty)"]
  by (simp add: llme_alloc_def llc_empty_def Let_def)

lemma find_filter_id: "j \<noteq> i \<Longrightarrow> find (\<lambda>m. llme_id m = j) (filter (\<lambda>m. llme_id m \<noteq> i) ms) = find (\<lambda>m. llme_id m = j) ms"
  by (induction ms) auto

lemma find_map_id:
  assumes "\<And>m. llme_id (f m) = llme_id m" "j \<noteq> i"
  shows "find (\<lambda>m. llme_id m = j) (map (\<lambda>m. if llme_id m = i then f m else m) ms) = find (\<lambda>m. llme_id m = j) ms"
  using assms by (induction ms) auto

lemma find_filter_None: "find (\<lambda>m. llme_id m = i) (filter (\<lambda>m. llme_id m \<noteq> i) ms) = None"
  by (induction ms) auto

lemma find_filter_other: "find P (filter (\<lambda>m. llme_id m \<noteq> i) ms) = Some m \<Longrightarrow> llme_id m \<noteq> i"
  by (induction ms) (auto split: if_splits)

text \<open>
  C28. Unassigning the TLLI of an entity frees it: no lookup finds it afterwards, and every other
  entity is left as it was.
\<close>

theorem unassign_frees:
  assumes "llme_at st i = Inr m" and "llme_tlli m \<noteq> TLLI_UNASSIGNED"
  shows "\<exists>st'. gprs_llgmm_unassign i st = Inr (0, st') \<and> llme_at st' i = Inl Oob_access \<and>
    (\<forall>t. lle_by_tlli_sapi st' t \<noteq> Some i) \<and> (\<forall>j. j \<noteq> i \<longrightarrow> llme_at st' j = llme_at st j)"
proof -
  let ?f = "\<lambda>m. m\<lparr>llme_tlli := TLLI_UNASSIGNED, llme_old_tlli := TLLI_UNASSIGNED, llme_state := GPRS_LLMS_UNASSIGNED,
     llme_lle := map (\<lambda>l. l\<lparr>lle_state := GPRS_LLES_UNASSIGNED\<rparr>) (llme_lle m)\<rparr>"
  let ?st = "llme_free i (llme_upd i ?f st)"
  have ms: "llc_llmes ?st = filter (\<lambda>m. llme_id m \<noteq> i) (map (\<lambda>m. if llme_id m = i then ?f m else m) (llc_llmes st))"
    by (simp add: llme_free_def emit_def llme_upd_def)
  have "gprs_llgmm_unassign i st = Inr (0, ?st)"
    using assms by (simp add: gprs_llgmm_unassign_def gprs_llgmm_assign_def)
  moreover have "llme_at ?st i = Inl Oob_access"
    unfolding llme_at_def ms find_filter_None by simp
  moreover have "lle_by_tlli_sapi ?st t \<noteq> Some i" for t
    unfolding lle_by_tlli_sapi_def ms using find_filter_other by fastforce
  moreover have "llme_at ?st j = llme_at st j" if "j \<noteq> i" for j
    unfolding llme_at_def ms find_filter_id [OF that]
    by (subst find_map_id [where f = ?f]) (simp_all add: that)
  ultimately show ?thesis by blast
qed

theorem unassign_frees_witness:
  "\<exists>st'. gprs_llgmm_unassign 0 llc_example = Inr (0, st') \<and> llme_at st' 0 = Inl Oob_access"
  using unassign_frees [of llc_example 0 llme_example]
  by (auto simp: llc_example_def llme_example_def llme_alloc_def llme_upd_def llme_at_def TLLI_UNASSIGNED_def Let_def)

subsection \<open>Answering an XID indication\<close>

lemma echo_ok:
  "\<forall>f\<in>set fs. xid_field_ok f \<and> xid_type f \<noteq> XID_T_L3_PAR \<Longrightarrow> echo_xid_fields acc fs = Inr (rev fs @ acc)"
  by (induction fs arbitrary: acc) (auto simp: gprs_llc_dup_xid_field_ok)

lemma answer_none:
  "\<forall>f\<in>set fs. xid_type f \<noteq> XID_T_L3_PAR \<Longrightarrow> answer_l3_fields sx acc fs = acc"
  by (induction fs arbitrary: acc) auto

lemma compile_rev:
  assumes "\<forall>f\<in>set fs. xid_field_ok f" "gprs_llc_compile_xid m fs = Inr (n, bs)" "0 \<le> n"
  obtains bs' where "gprs_llc_compile_xid m (rev fs) = Inr (n, bs')" "length bs' = length bs"
proof -
  have len: "length (concat (map xid_field_octets (rev fs))) = length (concat (map xid_field_octets fs))"
    by (simp add: length_concat rev_map [symmetric])
  from assms show thesis
    using compile_xid_fields_ok [of "rev fs" m] compile_xid_fields_ok [of fs m] len
    by (intro that [of "concat (map xid_field_octets fs)"])
       (auto simp: gprs_llc_compile_xid_def errno_defs split: if_splits)
qed

text \<open>
  An XID indication whose fields are all layer 2 parameters is answered with an XID message that
  carries the same fields back with the same values, in reverse order.
\<close>

theorem xid_echo:
  assumes "\<forall>f\<in>set fs. xid_field_ok f \<and> xid_type f \<noteq> XID_T_L3_PAR" and "fs \<noteq> []"
    and "gprs_llc_compile_xid 1024 fs = Inr (n, bs)" and "0 \<le> n" and "length bs \<le> 255"
  shows "\<exists>bs'. gprs_llc_process_xid_ind sx bs n 1024 = Inr (n, bs') \<and> gprs_llc_parse_xid bs' n = Inr (Some (rev fs))"
proof -
  have ok: "\<forall>f\<in>set fs. xid_field_ok f" using assms(1) by blast
  have p: "gprs_llc_parse_xid bs n = Inr (Some fs)" using compile_parse_xid [OF ok assms(2-5)] by blast
  obtain bs' where b: "gprs_llc_compile_xid 1024 (rev fs) = Inr (n, bs')" "length bs' = length bs"
    by (rule compile_rev [OF ok assms(3,4)])
  have "gprs_llc_process_xid_ind sx bs n 1024 = Inr (n, bs')"
    using p b(1) assms(1) by (simp add: gprs_llc_process_xid_ind_def echo_ok answer_none)
  moreover have "gprs_llc_parse_xid bs' n = Inr (Some (rev fs))"
  proof -
    have "\<forall>f\<in>set (rev fs). xid_field_ok f" "rev fs \<noteq> []" "length bs' \<le> 255"
      using ok assms(2,5) b(2) by simp_all
    from compile_parse_xid [OF this(1,2) b(1) assms(4) this(3)] show ?thesis by blast
  qed
  ultimately show ?thesis by blast
qed

theorem xid_echo_witness:
  "\<exists>bs'. gprs_llc_process_xid_ind (\<lambda>f. (0, f)) [22, 6, 7] 3 1024 = Inr (3, bs') \<and>
     gprs_llc_parse_xid bs' 3 = Inr (Some [xid_fld 5 [6, 7]])"
proof -
  have "gprs_llc_compile_xid 1024 [xid_fld 5 [6, 7]] = Inr (3, [22, 6, 7])"
    by (simp add: gprs_llc_compile_xid_def xid_fld_def encode_xid_field_def xid_hdr_short_def)
  from xid_echo [OF _ _ this, of "\<lambda>f. (0, f)"] show ?thesis
    by (simp add: xid_fld_def xid_field_ok_def XID_T_L3_PAR_def)
qed

end
