(* ===== verification/Sndcp_Xid_Enc.thy ===== *)
theory Sndcp_Xid_Enc
  imports Osmo_Prelude
begin

unbundle bit_operations_syntax

section \<open>SNDCP XID: data model and encoding (src/src/sgsn/gprs\_sndcp\_xid.c)\<close>

text \<open>
  The compression fields of an SNDCP XID message (3GPP TS 44.065) and the functions that
  encode one field.  An array with its length member (\<^verbatim>\<open>nsapi[]\<close>/\<^verbatim>\<open>nsapi_len\<close>,
  \<^verbatim>\<open>comp[]\<close>/\<^verbatim>\<open>comp_len\<close>, \<^verbatim>\<open>profile[]\<close>/\<^verbatim>\<open>profile_len\<close>) is the list
  of its first \<open>_len\<close> entries, the only ones the code reads.  An encoder returns the octets
  it stores at \<^verbatim>\<open>dst\<close>, which the code zeroes first, so a \<^verbatim>\<open>|=\<close> into a fresh
  octet is a store; the C return value is their number.
\<close>

subsection \<open>Data\<close>

definition MAX_ENTITIES :: nat where "MAX_ENTITIES = 32"
definition MAX_COMP :: nat where "MAX_COMP = 16"
definition MAX_NSAPI :: nat where "MAX_NSAPI = 11"
definition MAX_ROHC :: nat where "MAX_ROHC = 16"

datatype xid_param_types =
  SNDCP_XID_VERSION_NUMBER
| SNDCP_XID_DATA_COMPRESSION
| SNDCP_XID_PROTOCOL_COMPRESSION
| SNDCP_XID_INVALID_COMPRESSION

fun xid_param_code :: "xid_param_types \<Rightarrow> int" where
  "xid_param_code SNDCP_XID_VERSION_NUMBER = 0"
| "xid_param_code SNDCP_XID_DATA_COMPRESSION = 1"
| "xid_param_code SNDCP_XID_PROTOCOL_COMPRESSION = 2"
| "xid_param_code SNDCP_XID_INVALID_COMPRESSION = 3"

text \<open>
  \<^verbatim>\<open>union gprs_sndcp_comp_algo\<close> overlays two enums of the same width, so an algorithm
  identifier is one integer and the enumerators are its named values.
\<close>

abbreviation (input) RFC_1144 :: int where "RFC_1144 \<equiv> 0"
abbreviation (input) RFC_2507 :: int where "RFC_2507 \<equiv> 1"
abbreviation (input) ROHC :: int where "ROHC \<equiv> 2"
abbreviation (input) V42BIS :: int where "V42BIS \<equiv> 0"
abbreviation (input) V44 :: int where "V44 \<equiv> 1"

abbreviation (input) RFC1144_PCOMP_NUM :: nat where "RFC1144_PCOMP_NUM \<equiv> 2"
abbreviation (input) RFC2507_PCOMP_NUM :: nat where "RFC2507_PCOMP_NUM \<equiv> 5"
abbreviation (input) ROHC_PCOMP_NUM :: nat where "ROHC_PCOMP_NUM \<equiv> 2"
abbreviation (input) V42BIS_DCOMP_NUM :: nat where "V42BIS_DCOMP_NUM \<equiv> 1"
abbreviation (input) V44_DCOMP_NUM :: nat where "V44_DCOMP_NUM \<equiv> 2"

record pcomp_rfc1144_params =
  rfc1144_nsapi :: "u8 list"
  rfc1144_s01 :: int

record pcomp_rfc2507_params =
  rfc2507_nsapi :: "u8 list"
  rfc2507_f_max_period :: int
  rfc2507_f_max_time :: int
  rfc2507_max_header :: int
  rfc2507_tcp_space :: int
  rfc2507_non_tcp_space :: int

record pcomp_rohc_params =
  rohc_nsapi :: "u8 list"
  rohc_max_cid :: int
  rohc_max_header :: int
  rohc_profile :: "u16 list"

record dcomp_v42bis_params =
  v42bis_nsapi :: "u8 list"
  v42bis_p0 :: int
  v42bis_p1 :: int
  v42bis_p2 :: int

record dcomp_v44_params =
  v44_nsapi :: "u8 list"
  v44_c0 :: int
  v44_p0 :: int
  v44_p1t :: int
  v44_p1r :: int
  v44_p3t :: int
  v44_p3r :: int

record comp_field =
  cf_p :: bool
  cf_entity :: nat
  cf_algo :: int
  cf_comp :: "u8 list"
  cf_rfc1144 :: "pcomp_rfc1144_params option"
  cf_rfc2507 :: "pcomp_rfc2507_params option"
  cf_rohc :: "pcomp_rohc_params option"
  cf_v42bis :: "dcomp_v42bis_params option"
  cf_v44 :: "dcomp_v44_params option"

definition gprs_sndcp_get_compression_class :: "comp_field \<Rightarrow> xid_param_types" where
  "gprs_sndcp_get_compression_class cf =
     (if cf_rfc1144 cf \<noteq> None then SNDCP_XID_PROTOCOL_COMPRESSION
      else if cf_rfc2507 cf \<noteq> None then SNDCP_XID_PROTOCOL_COMPRESSION
      else if cf_rohc cf \<noteq> None then SNDCP_XID_PROTOCOL_COMPRESSION
      else if cf_v42bis cf \<noteq> None then SNDCP_XID_DATA_COMPRESSION
      else if cf_v44 cf \<noteq> None then SNDCP_XID_DATA_COMPRESSION
      else SNDCP_XID_INVALID_COMPRESSION)"

subsection \<open>Encoding of the parameters\<close>

fun sapis_blob :: "u16 \<Rightarrow> u8 list \<Rightarrow> u16 exec" where
  "sapis_blob blob [] = Inr blob"
| "sapis_blob blob (nsapi # ns) =
     ebind (osmo_assert (5 \<le> nsapi \<and> nsapi \<le> 15)) (\<lambda>_.
       sapis_blob (blob OR push_bit (unat nsapi) 1) ns)"

definition encode_pcomp_applicable_sapis :: "u8 list \<Rightarrow> octets exec" where
  "encode_pcomp_applicable_sapis nsapis =
     ebind (osmo_assert (length nsapis \<le> 11)) (\<lambda>_.
     ebind (sapis_blob 0 nsapis) (\<lambda>blob.
       Inr [ucast (drop_bit 8 blob AND 0xFF), ucast (blob AND 0xFF)]))"

definition encode_pcomp_rfc1144_params :: "nat \<Rightarrow> pcomp_rfc1144_params \<Rightarrow> octets exec" where
  "encode_pcomp_rfc1144_params dst_maxlen params =
     ebind (osmo_assert (dst_maxlen \<ge> 3)) (\<lambda>_.
     ebind (encode_pcomp_applicable_sapis (rfc1144_nsapi params)) (\<lambda>sapis.
     ebind (osmo_assert (rfc1144_s01 params \<ge> 0 \<and> rfc1144_s01 params \<le> 255)) (\<lambda>_.
       Inr (sapis @ [lo8 (rfc1144_s01 params)]))))"

definition encode_pcomp_rfc2507_params :: "nat \<Rightarrow> pcomp_rfc2507_params \<Rightarrow> octets exec" where
  "encode_pcomp_rfc2507_params dst_maxlen params =
     ebind (osmo_assert (dst_maxlen \<ge> 9)) (\<lambda>_.
     ebind (encode_pcomp_applicable_sapis (rfc2507_nsapi params)) (\<lambda>sapis.
     ebind (osmo_assert (rfc2507_f_max_period params \<ge> 1 \<and> rfc2507_f_max_period params \<le> 65535)) (\<lambda>_.
     ebind (osmo_assert (rfc2507_f_max_time params \<ge> 1 \<and> rfc2507_f_max_time params \<le> 255)) (\<lambda>_.
     ebind (osmo_assert (rfc2507_max_header params \<ge> 60 \<and> rfc2507_max_header params \<le> 255)) (\<lambda>_.
     ebind (osmo_assert (rfc2507_tcp_space params \<ge> 3 \<and> rfc2507_tcp_space params \<le> 255)) (\<lambda>_.
     ebind (osmo_assert (rfc2507_non_tcp_space params \<ge> 3 \<and> rfc2507_non_tcp_space params \<le> 65535)) (\<lambda>_.
       Inr (sapis @
         [hi8 (rfc2507_f_max_period params), lo8 (rfc2507_f_max_period params),
          lo8 (rfc2507_f_max_time params),
          lo8 (rfc2507_max_header params),
          lo8 (rfc2507_tcp_space params),
          hi8 (rfc2507_non_tcp_space params), lo8 (rfc2507_non_tcp_space params)]))))))))"

text \<open>The loop over the ROHC profiles, two octets each.\<close>

fun encode_rohc_profiles :: "u16 list \<Rightarrow> octets" where
  "encode_rohc_profiles [] = []"
| "encode_rohc_profiles (p # ps) = hi8 (uint p) # lo8 (uint p) # encode_rohc_profiles ps"

definition encode_pcomp_rohc_params :: "nat \<Rightarrow> pcomp_rohc_params \<Rightarrow> octets exec" where
  "encode_pcomp_rohc_params dst_maxlen params =
     ebind (osmo_assert (dst_maxlen \<ge> 38)) (\<lambda>_.
     ebind (osmo_assert (length (rohc_profile params) \<le> 16)) (\<lambda>_.
     ebind (encode_pcomp_applicable_sapis (rohc_nsapi params)) (\<lambda>sapis.
     ebind (osmo_assert (rohc_max_cid params \<ge> 0 \<and> rohc_max_cid params \<le> 16383)) (\<lambda>_.
     ebind (osmo_assert (rohc_max_header params \<ge> 60 \<and> rohc_max_header params \<le> 255)) (\<lambda>_.
       Inr (sapis @
         [hi8 (rohc_max_cid params), lo8 (rohc_max_cid params),
          hi8 (rohc_max_header params), lo8 (rohc_max_header params)] @
         encode_rohc_profiles (rohc_profile params)))))))"

definition encode_dcomp_v42bis_params :: "nat \<Rightarrow> dcomp_v42bis_params \<Rightarrow> octets exec" where
  "encode_dcomp_v42bis_params dst_maxlen params =
     ebind (osmo_assert (dst_maxlen \<ge> 6)) (\<lambda>_.
     ebind (encode_pcomp_applicable_sapis (v42bis_nsapi params)) (\<lambda>sapis.
     ebind (osmo_assert (v42bis_p0 params \<ge> 0 \<and> v42bis_p0 params \<le> 3)) (\<lambda>_.
     ebind (osmo_assert (v42bis_p1 params \<ge> 512 \<and> v42bis_p1 params \<le> 65535)) (\<lambda>_.
     ebind (osmo_assert (v42bis_p2 params \<ge> 6 \<and> v42bis_p2 params \<le> 250)) (\<lambda>_.
       Inr (sapis @
         [lo8 (v42bis_p0 params AND 0x03),
          hi8 (v42bis_p1 params), lo8 (v42bis_p1 params),
          lo8 (v42bis_p2 params)]))))))"

definition encode_dcomp_v44_params :: "nat \<Rightarrow> dcomp_v44_params \<Rightarrow> octets exec" where
  "encode_dcomp_v44_params dst_maxlen params =
     ebind (osmo_assert (dst_maxlen \<ge> 12)) (\<lambda>_.
     ebind (encode_pcomp_applicable_sapis (v44_nsapi params)) (\<lambda>sapis.
     ebind (osmo_assert (v44_c0 params = 0x80 \<or> v44_c0 params = 0xC0)) (\<lambda>_.
     ebind (osmo_assert (v44_p0 params \<ge> 0 \<and> v44_p0 params \<le> 3)) (\<lambda>_.
     ebind (osmo_assert (v44_p1t params \<ge> 256 \<and> v44_p1t params \<le> 65535)) (\<lambda>_.
     ebind (osmo_assert (v44_p1r params \<ge> 256 \<and> v44_p1r params \<le> 65535)) (\<lambda>_.
     ebind (osmo_assert (v44_p3t params \<ge> 0 \<and> v44_p3t params \<le> 65535 \<and>
                         v44_p3t params \<ge> 2 * v44_p1t params)) (\<lambda>_.
     ebind (osmo_assert (v44_p3r params \<ge> 0 \<and> v44_p3r params \<le> 65535 \<and>
                         v44_p3r params \<ge> 2 * v44_p1r params)) (\<lambda>_.
       Inr (sapis @
         [lo8 (v44_c0 params AND 0xC0),
          lo8 (v44_p0 params AND 0x03),
          hi8 (v44_p1t params), lo8 (v44_p1t params),
          hi8 (v44_p1r params), lo8 (v44_p1r params),
          hi8 (v44_p3t params), lo8 (v44_p3t params),
          hi8 (v44_p3r params), lo8 (v44_p3r params)])))))))))"

subsection \<open>Encoding of a compression field\<close>

text \<open>The first step of \<open>encode_comp_field\<close>: the payload, into a buffer of 256 octets.\<close>

definition encode_comp_payload :: "comp_field \<Rightarrow> octets exec" where
  "encode_comp_payload cf =
     (case cf_rfc1144 cf of Some params \<Rightarrow> encode_pcomp_rfc1144_params 256 params
      | None \<Rightarrow> (case cf_rfc2507 cf of Some params \<Rightarrow> encode_pcomp_rfc2507_params 256 params
      | None \<Rightarrow> (case cf_rohc cf of Some params \<Rightarrow> encode_pcomp_rohc_params 256 params
      | None \<Rightarrow> (case cf_v42bis cf of Some params \<Rightarrow> encode_dcomp_v42bis_params 256 params
      | None \<Rightarrow> (case cf_v44 cf of Some params \<Rightarrow> encode_dcomp_v44_params 256 params
      | None \<Rightarrow> Inl Assert_fail)))))"

text \<open>
  The loop that packs the PCOMP/DCOMP values, two per octet: \<open>i\<close> is the loop counter and
  \<open>cur\<close> the octet under construction; \<open>None\<close> is the \<^verbatim>\<open>return -EINVAL\<close> of the loop.
\<close>

fun encode_comp_values :: "nat \<Rightarrow> u8 \<Rightarrow> u8 list \<Rightarrow> octets option" where
  "encode_comp_values i cur [] = Some (if odd i then [cur] else [])"
| "encode_comp_values i cur (c # cs) =
     (if c > 0x0F then None
      else if odd i
        then map_option (\<lambda>out. (cur OR (c AND 0x0F)) # out) (encode_comp_values (Suc i) 0 cs)
        else encode_comp_values (Suc i) (cur OR (push_bit 4 c AND 0xF0)) cs)"

definition comp_hdr_octet :: "bool \<Rightarrow> nat \<Rightarrow> u8" where
  "comp_hdr_octet p entity = (if p then push_bit 7 1 else 0) OR (word_of_nat entity AND 0x1F)"

definition encode_comp_field :: "nat \<Rightarrow> comp_field \<Rightarrow> (int \<times> octets) exec" where
  "encode_comp_field dst_maxlen cf =
     ebind (encode_comp_payload cf) (\<lambda>payload_bytes.
     ebind (osmo_assert (length (cf_comp cf) \<le> MAX_COMP)) (\<lambda>_.
     let len = (if cf_p cf then length payload_bytes + (length (cf_comp cf) + 1) div 2
                else length payload_bytes);
         expected_length = (if cf_p cf then len + 3 else len + 2);
         compclass = gprs_sndcp_get_compression_class cf
     in
     ebind (osmo_assert (dst_maxlen \<ge> expected_length)) (\<lambda>_.
     ebind (osmo_assert (cf_entity cf \<le> 0x1f)) (\<lambda>_.
     ebind (osmo_assert ((compclass = SNDCP_XID_PROTOCOL_COMPRESSION \<or>
                          compclass = SNDCP_XID_DATA_COMPRESSION) \<and>
                         cf_algo cf \<ge> 0 \<and> cf_algo cf \<le> 0x1f)) (\<lambda>_.
       case (if cf_p cf then encode_comp_values 0 0 (cf_comp cf) else Some []) of
         None \<Rightarrow> Inr (- EINVAL, [])
       | Some comps \<Rightarrow>
           let out = [comp_hdr_octet (cf_p cf) (cf_entity cf)] @
                     (if cf_p cf then [lo8 (cf_algo cf AND 0x1F)] else []) @
                     [lo8 (int len)] @ comps @ payload_bytes
           in Inr (int (length out), out))))))"

text \<open>
  \<^verbatim>\<open>llist_for_each_entry_reverse\<close> of \<open>gprs_sndcp_pack_fields\<close>: the list argument is in
  the order of the visit, \<open>byte_counter\<close> counts what has been written.
\<close>

fun pack_fields :: "nat \<Rightarrow> xid_param_types \<Rightarrow> nat \<Rightarrow> comp_field list \<Rightarrow> octets exec" where
  "pack_fields dst_maxlen cls byte_counter [] = Inr []"
| "pack_fields dst_maxlen cls byte_counter (cf # cfs) =
     (if cls = gprs_sndcp_get_compression_class cf then
        ebind (encode_comp_field (dst_maxlen - byte_counter) cf) (\<lambda>(rc, bs).
        ebind (osmo_assert (rc \<ge> 0)) (\<lambda>_.
        ebind (pack_fields dst_maxlen cls (byte_counter + nat rc) cfs) (\<lambda>bs'.
          Inr (bs @ bs'))))
      else pack_fields dst_maxlen cls byte_counter cfs)"

definition gprs_sndcp_pack_fields :: "comp_field list \<Rightarrow> nat \<Rightarrow> xid_param_types \<Rightarrow> octets exec" where
  "gprs_sndcp_pack_fields comp_fields dst_maxlen cls = pack_fields dst_maxlen cls 0 (rev comp_fields)"

end
