(* ===== verification/Sndcp_Comp.thy ===== *)
theory Sndcp_Comp
  imports Sndcp_Xid_Enc
begin

unbundle bit_operations_syntax

section \<open>SNDCP compression entities (gprs\_sndcp\_comp.c, gprs\_sndcp\_pcomp.c, gprs\_sndcp\_dcomp.c)\<close>

text \<open>
  A compression entity list is the list of its entries from head to tail.  The two
  compression algorithms themselves (\<^verbatim>\<open>slhc.c\<close> and \<^verbatim>\<open>v42bis.c\<close>) are not modelled: the
  functions of them that are called here are the fields of a record \<open>codec\<close>, over the
  type \<open>'s\<close> of their states.  The range checks with which \<^verbatim>\<open>slhc_init\<close> and
  \<^verbatim>\<open>v42bis_init\<close> return NULL are modelled, since nothing here looks at that result.

  A function that works in place on a buffer takes the octets in it and returns its return
  code with the octets afterwards.  A decompressor is also given the size of the buffer: what
  it stores behind its end is the fault \<^const>\<open>Oob_access\<close>.
\<close>

subsection \<open>Data\<close>

definition MAX_DATADECOMPR_FAC :: nat where "MAX_DATADECOMPR_FAC = 10"
definition MAX_HDRDECOMPR_INCR :: nat where "MAX_HDRDECOMPR_INCR = 64"
definition MIN_COMPR_PAYLOAD :: nat where "MIN_COMPR_PAYLOAD = 100"

record 's comp_entity =
  ce_entity :: nat
  ce_nsapi :: "u8 list"
  ce_comp :: "u8 list"
  ce_algo :: int
  ce_compclass :: xid_param_types
  ce_state :: "'s option"

text \<open>
  The calls into the algorithms: \<^verbatim>\<open>slhc_init\<close>, \<^verbatim>\<open>slhc_compress\<close> (input; length and
  contents of the output buffer), \<^verbatim>\<open>slhc_remember\<close> and \<^verbatim>\<open>slhc_uncompress\<close> (in
  place), \<^verbatim>\<open>v42bis_init\<close>, the negotiated parameters kept in a V.42bis state (the two
  halves of P0, P1 and P2), and the four coding functions, which return their code with the
  octets they passed to the output handler.
\<close>

record 's codec =
  cd_slhc_init :: "int \<Rightarrow> 's"
  cd_slhc_compress :: "octets \<Rightarrow> 's \<Rightarrow> (int \<times> octets) \<times> 's"
  cd_slhc_remember :: "octets \<Rightarrow> 's \<Rightarrow> (int \<times> octets) \<times> 's"
  cd_slhc_uncompress :: "octets \<Rightarrow> 's \<Rightarrow> (int \<times> octets) \<times> 's"
  cd_v42bis_init :: "int \<Rightarrow> int \<Rightarrow> int \<Rightarrow> 's"
  cd_v42bis_compress_p0 :: "'s \<Rightarrow> int"
  cd_v42bis_decompress_p0 :: "'s \<Rightarrow> int"
  cd_v42bis_p1 :: "'s \<Rightarrow> int"
  cd_v42bis_p2 :: "'s \<Rightarrow> int"
  cd_v42bis_compress :: "octets \<Rightarrow> 's \<Rightarrow> (int \<times> octets) \<times> 's"
  cd_v42bis_compress_flush :: "'s \<Rightarrow> (int \<times> octets) \<times> 's"
  cd_v42bis_decompress :: "octets \<Rightarrow> 's \<Rightarrow> (int \<times> octets) \<times> 's"
  cd_v42bis_decompress_flush :: "'s \<Rightarrow> (int \<times> octets) \<times> 's"

definition slhc_init :: "'s codec \<Rightarrow> int \<Rightarrow> int \<Rightarrow> 's option" where
  "slhc_init cd rslots tslots =
     (if rslots < 0 \<or> rslots > 255 \<or> tslots < 0 \<or> tslots > 255 then None else Some (cd_slhc_init cd rslots))"

definition v42bis_init :: "'s codec \<Rightarrow> int \<Rightarrow> int \<Rightarrow> int \<Rightarrow> 's option" where
  "v42bis_init cd p0 p1 p2 =
     (if p1 < 512 \<or> p1 > 65535 then None
      else if p2 < 6 \<or> p2 > 250 then None
      else Some (cd_v42bis_init cd p0 p1 p2))"

subsection \<open>Header compression: creation and release\<close>

definition gprs_sndcp_pcomp_init :: "'s codec \<Rightarrow> 's comp_entity \<Rightarrow> comp_field \<Rightarrow> (int \<times> 's comp_entity) exec" where
  "gprs_sndcp_pcomp_init cd ce cf =
     (if ce_compclass ce = SNDCP_XID_PROTOCOL_COMPRESSION \<and> ce_algo ce = RFC_1144 then
        case cf_rfc1144 cf of
          None \<Rightarrow> Inl Assert_fail
        | Some p \<Rightarrow> Inr (0, ce\<lparr>ce_state := slhc_init cd (rfc1144_s01 p + 1) (rfc1144_s01 p + 1)\<rparr>)
      else Inl Assert_fail)"

definition gprs_sndcp_pcomp_term :: "'s comp_entity \<Rightarrow> 's comp_entity exec" where
  "gprs_sndcp_pcomp_term ce =
     (if ce_compclass ce = SNDCP_XID_PROTOCOL_COMPRESSION \<and> ce_algo ce = RFC_1144
      then Inr (ce\<lparr>ce_state := None\<rparr>) else Inl Assert_fail)"

definition gprs_sndcp_dcomp_init :: "'s codec \<Rightarrow> 's comp_entity \<Rightarrow> comp_field \<Rightarrow> (int \<times> 's comp_entity) exec" where
  "gprs_sndcp_dcomp_init cd ce cf =
     (if ce_compclass ce = SNDCP_XID_DATA_COMPRESSION \<and> ce_algo ce = V42BIS then
        case cf_v42bis cf of
          None \<Rightarrow> Inl Assert_fail
        | Some p \<Rightarrow> Inr (0, ce\<lparr>ce_state := v42bis_init cd (v42bis_p0 p) (v42bis_p1 p) (v42bis_p2 p)\<rparr>)
      else Inl Assert_fail)"

definition gprs_sndcp_dcomp_term :: "'s comp_entity \<Rightarrow> 's comp_entity exec" where
  "gprs_sndcp_dcomp_term ce =
     (if ce_compclass ce = SNDCP_XID_DATA_COMPRESSION \<and> ce_algo ce = V42BIS
      then Inr (ce\<lparr>ce_state := None\<rparr>) else Inl Assert_fail)"

subsection \<open>Lists of compression entities\<close>

text \<open>The NSAPIs of the first parameter set that is present.\<close>

definition comp_field_nsapi :: "comp_field \<Rightarrow> u8 list option" where
  "comp_field_nsapi cf =
     (if cf_rfc1144 cf \<noteq> None then map_option rfc1144_nsapi (cf_rfc1144 cf)
      else if cf_rfc2507 cf \<noteq> None then map_option rfc2507_nsapi (cf_rfc2507 cf)
      else if cf_rohc cf \<noteq> None then map_option rohc_nsapi (cf_rohc cf)
      else if cf_v42bis cf \<noteq> None then map_option v42bis_nsapi (cf_v42bis cf)
      else map_option v44_nsapi (cf_v44 cf))"

definition gprs_sndcp_comp_create :: "'s codec \<Rightarrow> comp_field \<Rightarrow> 's comp_entity option exec" where
  "gprs_sndcp_comp_create cd cf =
     (case comp_field_nsapi cf of
        None \<Rightarrow> Inl Assert_fail
      | Some nsapi \<Rightarrow>
          if length nsapi = 0 then Inl Assert_fail
          else
            let ce = \<lparr>ce_entity = cf_entity cf, ce_nsapi = nsapi, ce_comp = cf_comp cf, ce_algo = cf_algo cf,
                      ce_compclass = gprs_sndcp_get_compression_class cf, ce_state = None\<rparr>
            in (case ce_compclass ce of
                 SNDCP_XID_PROTOCOL_COMPRESSION \<Rightarrow>
                   ebind (gprs_sndcp_pcomp_init cd ce cf) (\<lambda>(rc, ce). Inr (if rc \<noteq> 0 then None else Some ce))
               | SNDCP_XID_DATA_COMPRESSION \<Rightarrow>
                   ebind (gprs_sndcp_dcomp_init cd ce cf) (\<lambda>(rc, ce). Inr (if rc \<noteq> 0 then None else Some ce))
               | _ \<Rightarrow> Inl Assert_fail))"

definition gprs_sndcp_comp_alloc :: "'s comp_entity list" where
  "gprs_sndcp_comp_alloc = []"

text \<open>\<open>gprs_sndcp_comp_free\<close>: release of the states of all entries; the list itself goes with it.\<close>

fun gprs_sndcp_comp_free :: "'s comp_entity list \<Rightarrow> unit exec" where
  "gprs_sndcp_comp_free [] = Inr ()"
| "gprs_sndcp_comp_free (ce # cl) =
     (case ce_compclass ce of
        SNDCP_XID_PROTOCOL_COMPRESSION \<Rightarrow> ebind (gprs_sndcp_pcomp_term ce) (\<lambda>_. gprs_sndcp_comp_free cl)
      | SNDCP_XID_DATA_COMPRESSION \<Rightarrow> ebind (gprs_sndcp_dcomp_term ce) (\<lambda>_. gprs_sndcp_comp_free cl)
      | _ \<Rightarrow> Inl Assert_fail)"

definition gprs_sndcp_comp_delete :: "'s comp_entity list \<Rightarrow> nat \<Rightarrow> 's comp_entity list exec" where
  "gprs_sndcp_comp_delete cl entity =
     (case find (\<lambda>ce. ce_entity ce = entity) cl of
        None \<Rightarrow> Inr cl
      | Some ce \<Rightarrow>
          ebind (if ce_compclass ce = SNDCP_XID_PROTOCOL_COMPRESSION then gprs_sndcp_pcomp_term ce else Inr ce) (\<lambda>_.
            Inr (remove_first (\<lambda>ce. ce_entity ce = entity) cl)))"

definition gprs_sndcp_comp_add :: "'s codec \<Rightarrow> 's comp_entity list \<Rightarrow> comp_field \<Rightarrow> 's comp_entity list exec" where
  "gprs_sndcp_comp_add cd cl cf =
     ebind (gprs_sndcp_comp_delete cl (cf_entity cf)) (\<lambda>cl.
     ebind (gprs_sndcp_comp_create cd cf) (\<lambda>ce.
       Inr (case ce of None \<Rightarrow> cl | Some ce \<Rightarrow> ce # cl)))"

definition gprs_sndcp_comp_by_comp :: "'s comp_entity list \<Rightarrow> u8 \<Rightarrow> 's comp_entity option" where
  "gprs_sndcp_comp_by_comp cl cv = find (\<lambda>ce. cv \<in> set (ce_comp ce)) cl"

definition gprs_sndcp_comp_by_nsapi :: "'s comp_entity list \<Rightarrow> u8 \<Rightarrow> 's comp_entity option" where
  "gprs_sndcp_comp_by_nsapi cl nsapi = find (\<lambda>ce. nsapi \<in> set (ce_nsapi ce)) cl"

fun comp_idx :: "u8 list \<Rightarrow> u8 \<Rightarrow> nat \<Rightarrow> u8" where
  "comp_idx [] cv i = 0"
| "comp_idx (c # cs) cv i = (if c = cv then word_of_nat (i + 1) else comp_idx cs cv (i + 1))"

definition gprs_sndcp_comp_get_idx :: "'s comp_entity \<Rightarrow> u8 \<Rightarrow> u8" where
  "gprs_sndcp_comp_get_idx ce cv = (if cv = 0 then 0 else comp_idx (ce_comp ce) cv 0)"

definition gprs_sndcp_comp_get_comp :: "'s comp_entity \<Rightarrow> u8 \<Rightarrow> u8" where
  "gprs_sndcp_comp_get_comp ce comp_index =
     (if comp_index = 0 then 0
      else if unat comp_index > length (ce_comp ce) then 0
      else ce_comp ce ! (unat comp_index - 1))"

subsection \<open>Header compression: packets\<close>

text \<open>
  \<open>rfc1144_compress\<close>: the return code, the packet buffer afterwards and the PCOMP index.
  The compressor writes to a copy of the packet; its result may not be longer than that.
\<close>

definition rfc1144_compress :: "'s codec \<Rightarrow> octets \<Rightarrow> 's \<Rightarrow> ((int \<times> octets \<times> u8) \<times> 's) exec" where
  "rfc1144_compress cd data s =
     (let ((compr_len, data_o), s) = cd_slhc_compress cd data s in
      ebind (rd data_o 0) (\<lambda>b.
      if b AND 0x80 \<noteq> 0 then
        if compr_len < 0 \<or> nat compr_len > length data_o then Inl Oob_access
        else Inr ((compr_len, take (nat compr_len) (data_o[0 := b AND NOT 0x80]), 2), s)
      else if b AND 0x70 = 0x70 then
        if compr_len < 0 \<or> nat compr_len > length data_o then Inl Oob_access
        else Inr ((compr_len, take (nat compr_len) (data_o[0 := b AND 0x4F]), 1), s)
      else Inr ((compr_len, data, 0), s)))"

text \<open>\<open>cap\<close> is the size of the buffer \<open>data\<close> lies in.\<close>

definition rfc1144_expand :: "'s codec \<Rightarrow> nat \<Rightarrow> octets \<Rightarrow> u8 \<Rightarrow> 's \<Rightarrow> ((int \<times> octets) \<times> 's) exec" where
  "rfc1144_expand cd cap data pcomp_index s =
     (if pcomp_index = 1 then
        ebind (rd data 0) (\<lambda>b.
        let ((rc, out), s) = cd_slhc_remember cd (data[0 := b AND 0x4F]) s in
        if length out > cap then Inl Oob_access else Inr ((rc, out), s))
      else if pcomp_index = 2 then
        let ((rc, out), s) = cd_slhc_uncompress cd data s in
        if length out > cap then Inl Oob_access else Inr ((rc, out), s)
      else Inr ((int (length data), data), s))"

text \<open>Running an algorithm on the state of the entity found, which is updated in the list.\<close>

definition with_entity ::
  "('s comp_entity \<Rightarrow> bool) \<Rightarrow> xid_param_types \<Rightarrow> 's comp_entity \<Rightarrow> 's comp_entity list \<Rightarrow>
   ('s \<Rightarrow> ('r \<times> 's) exec) \<Rightarrow> ('r \<times> 's comp_entity list) exec" where
  "with_entity P cls ce cl run =
     (if ce_compclass ce \<noteq> cls then Inl Assert_fail
      else if ce_algo ce \<noteq> 0 then Inl Assert_fail
      else ebind (deref (ce_state ce)) (\<lambda>s. ebind (run s) (\<lambda>(r, s).
        Inr (r, upd_first P (\<lambda>ce. ce\<lparr>ce_state := Some s\<rparr>) cl))))"

definition gprs_sndcp_pcomp_expand ::
  "'s codec \<Rightarrow> nat \<Rightarrow> octets \<Rightarrow> u8 \<Rightarrow> 's comp_entity list \<Rightarrow> ((int \<times> octets) \<times> 's comp_entity list) exec" where
  "gprs_sndcp_pcomp_expand cd cap data pcomp cl =
     (if pcomp = 0 then Inr ((int (length data), data), cl)
      else case gprs_sndcp_comp_by_comp cl pcomp of
        None \<Rightarrow> Inr ((int (length data), data), cl)
      | Some ce \<Rightarrow>
          with_entity (\<lambda>ce. pcomp \<in> set (ce_comp ce)) SNDCP_XID_PROTOCOL_COMPRESSION ce cl
            (rfc1144_expand cd cap data (gprs_sndcp_comp_get_idx ce pcomp)))"

definition gprs_sndcp_pcomp_compress ::
  "'s codec \<Rightarrow> octets \<Rightarrow> 's comp_entity list \<Rightarrow> u8 \<Rightarrow> ((int \<times> octets \<times> u8) \<times> 's comp_entity list) exec" where
  "gprs_sndcp_pcomp_compress cd data cl nsapi =
     (case gprs_sndcp_comp_by_nsapi cl nsapi of
        None \<Rightarrow> Inr ((int (length data), data, 0), cl)
      | Some ce \<Rightarrow>
          ebind (with_entity (\<lambda>ce. nsapi \<in> set (ce_nsapi ce)) SNDCP_XID_PROTOCOL_COMPRESSION ce cl
                   (rfc1144_compress cd data)) (\<lambda>((rc, data, idx), cl).
            Inr ((rc, data, gprs_sndcp_comp_get_comp ce idx), cl)))"

subsection \<open>Data compression: packets\<close>

definition v42bis_reset :: "'s codec \<Rightarrow> 's \<Rightarrow> 's" where
  "v42bis_reset cd s =
     cd_v42bis_init cd (cd_v42bis_decompress_p0 cd s OR cd_v42bis_compress_p0 cd s) (cd_v42bis_p1 cd s) (cd_v42bis_p2 cd s)"

definition v42bis_compress_unitdata :: "'s codec \<Rightarrow> octets \<Rightarrow> 's \<Rightarrow> ((int \<times> octets \<times> u8) \<times> 's) exec" where
  "v42bis_compress_unitdata cd data s =
     (if length data < MIN_COMPR_PAYLOAD \<or> cd_v42bis_compress_p0 cd s = 0
      then Inr ((int (length data), data, 0), s)
      else
        let s = v42bis_reset cd s;
            ((rc1, out1), s) = cd_v42bis_compress cd data s;
            ((rc2, out2), s) = cd_v42bis_compress_flush cd s;
            out = out1 @ out2
        in if length out > length data * MAX_DATADECOMPR_FAC then Inl Oob_access
           else if rc1 < 0 \<or> rc2 < 0 \<or> length out \<ge> length data
           then Inr ((int (length data), data, 0), s)
           else Inr ((int (length out), out, 1), s))"

definition v42bis_expand_unitdata :: "'s codec \<Rightarrow> nat \<Rightarrow> octets \<Rightarrow> u8 \<Rightarrow> 's \<Rightarrow> ((int \<times> octets) \<times> 's) exec" where
  "v42bis_expand_unitdata cd cap data pcomp_index s =
     (if pcomp_index = 0 then Inr ((int (length data), data), s)
      else
        let s = v42bis_reset cd s;
            ((rc, out1), s) = cd_v42bis_decompress cd data s
        in if length out1 > cap then Inl Oob_access
           else if rc < 0 then Inr ((- EINVAL, out1), s)
           else
             let ((rc, out2), s) = cd_v42bis_decompress_flush cd s in
             if length (out1 @ out2) > cap then Inl Oob_access
             else if rc < 0 then Inr ((- EINVAL, out1 @ out2), s)
             else Inr ((int (length (out1 @ out2)), out1 @ out2), s))"

definition gprs_sndcp_dcomp_expand ::
  "'s codec \<Rightarrow> nat \<Rightarrow> octets \<Rightarrow> u8 \<Rightarrow> 's comp_entity list \<Rightarrow> ((int \<times> octets) \<times> 's comp_entity list) exec" where
  "gprs_sndcp_dcomp_expand cd cap data dcomp cl =
     (if dcomp = 0 then Inr ((int (length data), data), cl)
      else case gprs_sndcp_comp_by_comp cl dcomp of
        None \<Rightarrow> Inr ((int (length data), data), cl)
      | Some ce \<Rightarrow>
          with_entity (\<lambda>ce. dcomp \<in> set (ce_comp ce)) SNDCP_XID_DATA_COMPRESSION ce cl
            (v42bis_expand_unitdata cd cap data (gprs_sndcp_comp_get_idx ce dcomp)))"

definition gprs_sndcp_dcomp_compress ::
  "'s codec \<Rightarrow> octets \<Rightarrow> 's comp_entity list \<Rightarrow> u8 \<Rightarrow> ((int \<times> octets \<times> u8) \<times> 's comp_entity list) exec" where
  "gprs_sndcp_dcomp_compress cd data cl nsapi =
     (case gprs_sndcp_comp_by_nsapi cl nsapi of
        None \<Rightarrow> Inr ((int (length data), data, 0), cl)
      | Some ce \<Rightarrow>
          ebind (with_entity (\<lambda>ce. nsapi \<in> set (ce_nsapi ce)) SNDCP_XID_DATA_COMPRESSION ce cl
                   (v42bis_compress_unitdata cd data)) (\<lambda>((rc, data, idx), cl).
            Inr ((rc, data, gprs_sndcp_comp_get_comp ce idx), cl)))"

end
