(* ===== verification/Sndcp_Xid_Dec.thy ===== *)
theory Sndcp_Xid_Dec
  imports Sndcp_Xid_Enc
begin

unbundle bit_operations_syntax

section \<open>SNDCP XID: decoding (src/src/sgsn/gprs\_sndcp\_xid.c)\<close>

text \<open>
  A decoder gets the memory from its \<^verbatim>\<open>src\<close> pointer to the end of the buffer as a list
  and the length the caller announces as a number; a read past the list is the fault
  \<open>Oob_access\<close>.  The integer results are the C return codes.  Where a decoder fills a
  struct through a pointer, the struct is returned next to the code.
\<close>

subsection \<open>Primitive fields\<close>

definition decode_pcomp_applicable_sapis :: "octets \<Rightarrow> nat \<Rightarrow> (int \<times> u8 list) exec" where
  "decode_pcomp_applicable_sapis src src_len =
     (if src_len < 2 then Inr (- EINVAL, [])
      else ebind (rd src 0) (\<lambda>b0. ebind (rd src 1) (\<lambda>b1.
        let blob = drop_bit 5 (be16 b0 (b1 AND 0xFF));
            nsapis = map (\<lambda>i. word_of_nat (i + 5))
                       (filter (\<lambda>i. drop_bit i blob AND 1 \<noteq> 0) [0..<15])
        in Inr (2, nsapis))))"

definition decode_pcomp_16_bit_field :: "octets \<Rightarrow> nat \<Rightarrow> int \<Rightarrow> int \<Rightarrow> (int \<times> int) exec" where
  "decode_pcomp_16_bit_field src src_len value_min value_max =
     (if src_len < 2 then Inr (- EINVAL, - 1)
      else ebind (rd src 0) (\<lambda>b0. ebind (rd src 1) (\<lambda>b1.
        let blob = be16 b0 b1
        in if uint blob < value_min then Inr (- EINVAL, - 1)
           else if uint blob > value_max then Inr (- EINVAL, - 1)
           else Inr (2, uint blob))))"

definition decode_pcomp_8_bit_field :: "octets \<Rightarrow> nat \<Rightarrow> int \<Rightarrow> int \<Rightarrow> (int \<times> int) exec" where
  "decode_pcomp_8_bit_field src src_len value_min value_max =
     (if src_len < 1 then Inr (- EINVAL, - 1)
      else ebind (rd src 0) (\<lambda>blob.
        if uint blob < value_min then Inr (- EINVAL, - 1)
        else if uint blob > value_max then Inr (- EINVAL, - 1)
        else Inr (1, uint blob)))"

subsection \<open>Parameter sets\<close>

text \<open>
  Each decoder below reads its fields one after the other and returns what it has as soon
  as a field is missing or out of range.  \<open>decode_next\<close> is that step: a failed field ends
  the function with the octets counted so far, a decoded one goes on with the count and
  the pointer advanced.
\<close>

definition decode_next ::
  "(int \<times> 'v) exec \<Rightarrow> nat \<Rightarrow> ('v \<Rightarrow> 'p) \<Rightarrow> ('p \<Rightarrow> nat \<Rightarrow> (int \<times> 'p) exec) \<Rightarrow> (int \<times> 'p) exec" where
  "decode_next field byte_counter store continue =
     ebind field (\<lambda>(rc, v).
       if rc \<le> 0 then Inr (int byte_counter, store v)
       else continue (store v) (byte_counter + nat rc))"

definition decode_pcomp_rfc1144_params :: "octets \<Rightarrow> nat \<Rightarrow> (int \<times> pcomp_rfc1144_params) exec" where
  "decode_pcomp_rfc1144_params src src_len =
     (let params = \<lparr>rfc1144_nsapi = [], rfc1144_s01 = - 1\<rparr> in
      decode_next (decode_pcomp_applicable_sapis src src_len) 0
        (\<lambda>v. params\<lparr>rfc1144_nsapi := v\<rparr>) (\<lambda>params n.
      decode_next (decode_pcomp_8_bit_field (drop n src) (src_len - n) 0 255) n
        (\<lambda>v. params\<lparr>rfc1144_s01 := v\<rparr>) (\<lambda>params n.
      Inr (int n, params))))"

definition decode_pcomp_rfc2507_params :: "octets \<Rightarrow> nat \<Rightarrow> (int \<times> pcomp_rfc2507_params) exec" where
  "decode_pcomp_rfc2507_params src src_len =
     (let params = \<lparr>rfc2507_nsapi = [], rfc2507_f_max_period = - 1, rfc2507_f_max_time = - 1,
                    rfc2507_max_header = - 1, rfc2507_tcp_space = - 1, rfc2507_non_tcp_space = - 1\<rparr> in
      decode_next (decode_pcomp_applicable_sapis src src_len) 0
        (\<lambda>v. params\<lparr>rfc2507_nsapi := v\<rparr>) (\<lambda>params n.
      decode_next (decode_pcomp_16_bit_field (drop n src) (src_len - n) 1 65535) n
        (\<lambda>v. params\<lparr>rfc2507_f_max_period := v\<rparr>) (\<lambda>params n.
      decode_next (decode_pcomp_8_bit_field (drop n src) (src_len - n) 1 255) n
        (\<lambda>v. params\<lparr>rfc2507_f_max_time := v\<rparr>) (\<lambda>params n.
      decode_next (decode_pcomp_8_bit_field (drop n src) (src_len - n) 60 255) n
        (\<lambda>v. params\<lparr>rfc2507_max_header := v\<rparr>) (\<lambda>params n.
      decode_next (decode_pcomp_8_bit_field (drop n src) (src_len - n) 3 255) n
        (\<lambda>v. params\<lparr>rfc2507_tcp_space := v\<rparr>) (\<lambda>params n.
      decode_next (decode_pcomp_16_bit_field (drop n src) (src_len - n) 3 65535) n
        (\<lambda>v. params\<lparr>rfc2507_non_tcp_space := v\<rparr>) (\<lambda>params n.
      Inr (int n, params))))))))"

text \<open>
  The profile loop of the ROHC decoder: \<open>todo\<close> iterations remain of the 16, \<open>profiles\<close>
  are the entries stored so far.  Every iteration starts by setting
  \<^verbatim>\<open>profile_len\<close> to zero and only a decoded entry sets it to \<^verbatim>\<open>i + 1\<close>, so the
  early return leaves it at zero and the list is empty.
\<close>

fun decode_rohc_profiles :: "nat \<Rightarrow> octets \<Rightarrow> nat \<Rightarrow> nat \<Rightarrow> u16 list \<Rightarrow> (int \<times> u16 list) exec" where
  "decode_rohc_profiles 0 src src_len byte_counter profiles = Inr (int byte_counter, profiles)"
| "decode_rohc_profiles (Suc todo) src src_len byte_counter profiles =
     ebind (decode_pcomp_16_bit_field (drop byte_counter src) (src_len - byte_counter) 0 65535) (\<lambda>(rc, v).
       if rc \<le> 0 then Inr (int byte_counter, [])
       else decode_rohc_profiles todo src src_len (byte_counter + nat rc)
              (profiles @ [word_of_int v]))"

definition decode_pcomp_rohc_params :: "octets \<Rightarrow> nat \<Rightarrow> (int \<times> pcomp_rohc_params) exec" where
  "decode_pcomp_rohc_params src src_len =
     (let params = \<lparr>rohc_nsapi = [], rohc_max_cid = - 1, rohc_max_header = - 1, rohc_profile = []\<rparr> in
      decode_next (decode_pcomp_applicable_sapis src src_len) 0
        (\<lambda>v. params\<lparr>rohc_nsapi := v\<rparr>) (\<lambda>params n.
      decode_next (decode_pcomp_16_bit_field (drop n src) (src_len - n) 0 16383) n
        (\<lambda>v. params\<lparr>rohc_max_cid := v\<rparr>) (\<lambda>params n.
      decode_next (decode_pcomp_16_bit_field (drop n src) (src_len - n) 60 255) n
        (\<lambda>v. params\<lparr>rohc_max_header := v\<rparr>) (\<lambda>params n.
      ebind (decode_rohc_profiles 16 src src_len n []) (\<lambda>(rc, profiles).
        Inr (rc, params\<lparr>rohc_profile := profiles\<rparr>))))))"

definition decode_dcomp_v42bis_params :: "octets \<Rightarrow> nat \<Rightarrow> (int \<times> dcomp_v42bis_params) exec" where
  "decode_dcomp_v42bis_params src src_len =
     (let params = \<lparr>v42bis_nsapi = [], v42bis_p0 = - 1, v42bis_p1 = - 1, v42bis_p2 = - 1\<rparr> in
      decode_next (decode_pcomp_applicable_sapis src src_len) 0
        (\<lambda>v. params\<lparr>v42bis_nsapi := v\<rparr>) (\<lambda>params n.
      decode_next (decode_pcomp_8_bit_field (drop n src) (src_len - n) 0 3) n
        (\<lambda>v. params\<lparr>v42bis_p0 := v\<rparr>) (\<lambda>params n.
      decode_next (decode_pcomp_16_bit_field (drop n src) (src_len - n) 512 65535) n
        (\<lambda>v. params\<lparr>v42bis_p1 := v\<rparr>) (\<lambda>params n.
      decode_next (decode_pcomp_8_bit_field (drop n src) (src_len - n) 6 250) n
        (\<lambda>v. params\<lparr>v42bis_p2 := v\<rparr>) (\<lambda>params n.
      Inr (int n, params))))))"

definition decode_dcomp_v44_params :: "octets \<Rightarrow> nat \<Rightarrow> (int \<times> dcomp_v44_params) exec" where
  "decode_dcomp_v44_params src src_len =
     (let params = \<lparr>v44_nsapi = [], v44_c0 = - 1, v44_p0 = - 1, v44_p1t = - 1, v44_p1r = - 1,
                    v44_p3t = - 1, v44_p3r = - 1\<rparr> in
      decode_next (decode_pcomp_applicable_sapis src src_len) 0
        (\<lambda>v. params\<lparr>v44_nsapi := v\<rparr>) (\<lambda>params n.
      decode_next (decode_pcomp_8_bit_field (drop n src) (src_len - n) 0 255) n
        (\<lambda>v. params\<lparr>v44_c0 := v\<rparr>) (\<lambda>params n.
      if v44_c0 params \<noteq> 0x80 \<and> v44_c0 params \<noteq> 0xC0 then Inr (- EINVAL, params)
      else
      decode_next (decode_pcomp_8_bit_field (drop n src) (src_len - n) 0 3) n
        (\<lambda>v. params\<lparr>v44_p0 := v\<rparr>) (\<lambda>params n.
      decode_next (decode_pcomp_16_bit_field (drop n src) (src_len - n) 265 65535) n
        (\<lambda>v. params\<lparr>v44_p1t := v\<rparr>) (\<lambda>params n.
      decode_next (decode_pcomp_16_bit_field (drop n src) (src_len - n) 265 65535) n
        (\<lambda>v. params\<lparr>v44_p1r := v\<rparr>) (\<lambda>params n.
      decode_next (decode_pcomp_16_bit_field (drop n src) (src_len - n) 265 65535) n
        (\<lambda>v. params\<lparr>v44_p3t := v\<rparr>) (\<lambda>params n.
      if v44_p3t params < 2 * v44_p1t params then Inr (- EINVAL, params)
      else
      decode_next (decode_pcomp_16_bit_field (drop n src) (src_len - n) 265 65535) n
        (\<lambda>v. params\<lparr>v44_p3r := v\<rparr>) (\<lambda>params n.
      if v44_p3r params < 2 * v44_p1r params then Inr (- EINVAL, params)
      else Inr (int n, params)))))))))"

subsection \<open>Compression fields\<close>

record entity_algo =
  ea_entity :: nat
  ea_algo :: int
  ea_compclass :: xid_param_types

text \<open>The lookup tables: \<open>None\<close> is a NULL table.\<close>

definition lookup_algorithm_identifier ::
  "xid_param_types \<Rightarrow> nat \<Rightarrow> entity_algo list option \<Rightarrow> int" where
  "lookup_algorithm_identifier cls entity lt =
     (case lt of
        None \<Rightarrow> - 1
      | Some tbl \<Rightarrow>
          (case find (\<lambda>e. ea_entity e = entity \<and> ea_compclass e = cls) tbl of
             Some e \<Rightarrow> ea_algo e
           | None \<Rightarrow> xid_param_code SNDCP_XID_INVALID_COMPRESSION))"

definition lookup_algorithm_identifier_pcomp :: "nat \<Rightarrow> entity_algo list option \<Rightarrow> int" where
  "lookup_algorithm_identifier_pcomp = lookup_algorithm_identifier SNDCP_XID_PROTOCOL_COMPRESSION"

definition lookup_algorithm_identifier_dcomp :: "nat \<Rightarrow> entity_algo list option \<Rightarrow> int" where
  "lookup_algorithm_identifier_dcomp = lookup_algorithm_identifier SNDCP_XID_DATA_COMPRESSION"

text \<open>The number of PCOMP/DCOMP values an algorithm has; \<open>None\<close> is \<^verbatim>\<open>return -EINVAL\<close>.\<close>

definition expected_comp_len :: "xid_param_types \<Rightarrow> int \<Rightarrow> nat option" where
  "expected_comp_len compclass algo =
     (case compclass of
        SNDCP_XID_PROTOCOL_COMPRESSION \<Rightarrow>
          if algo = RFC_1144 then Some RFC1144_PCOMP_NUM
          else if algo = RFC_2507 then Some RFC2507_PCOMP_NUM
          else if algo = ROHC then Some ROHC_PCOMP_NUM
          else None
      | SNDCP_XID_DATA_COMPRESSION \<Rightarrow>
          if algo = V42BIS then Some V42BIS_DCOMP_NUM
          else if algo = V44 then Some V44_DCOMP_NUM
          else None
      | _ \<Rightarrow> None)"

text \<open>The loop that unpacks the values: \<open>i\<close> is the loop counter, \<open>todo\<close> what is left of it.\<close>

fun unpack_comp_values :: "nat \<Rightarrow> nat \<Rightarrow> octets \<Rightarrow> nat \<Rightarrow> (nat \<times> u8 list) exec" where
  "unpack_comp_values i 0 src src_counter =
     Inr (if odd i then src_counter + 1 else src_counter, [])"
| "unpack_comp_values i (Suc todo) src src_counter =
     ebind (rd src 0) (\<lambda>b.
       if odd i then
         ebind (unpack_comp_values (Suc i) todo (drop 1 src) (src_counter + 1)) (\<lambda>(n, cs).
           Inr (n, (b AND 0x0F) # cs))
       else
         ebind (unpack_comp_values (Suc i) todo src src_counter) (\<lambda>(n, cs).
           Inr (n, (drop_bit 4 b AND 0x0F) # cs)))"

definition decode_comp_values ::
  "comp_field \<Rightarrow> octets \<Rightarrow> xid_param_types \<Rightarrow> (int \<times> comp_field) exec" where
  "decode_comp_values cf src compclass =
     (if cf_p cf then
        (case expected_comp_len compclass (cf_algo cf) of
           None \<Rightarrow> Inr (- EINVAL, cf)
         | Some comp_len \<Rightarrow>
             ebind (unpack_comp_values 0 comp_len src 0) (\<lambda>(n, comps).
               Inr (int n, cf\<lparr>cf_comp := comps\<rparr>)))
      else Inr (0, cf))"

text \<open>
  \<open>len\<close> is the \<^verbatim>\<open>unsigned int\<close> of the caller; it is read as \<^verbatim>\<open>int\<close> by the default
  branch (\<open>sint\<close>) and as \<^verbatim>\<open>unsigned int\<close> by the decoders (\<open>unat\<close>).
\<close>

definition decode_pcomp_params :: "comp_field \<Rightarrow> octets \<Rightarrow> u32 \<Rightarrow> (int \<times> comp_field) exec" where
  "decode_pcomp_params cf src len =
     ebind
       (if cf_algo cf = RFC_1144 then
          ebind (decode_pcomp_rfc1144_params src (unat len)) (\<lambda>(rc, params).
            Inr (rc, cf\<lparr>cf_rfc1144 := Some params\<rparr>))
        else if cf_algo cf = RFC_2507 then
          ebind (decode_pcomp_rfc2507_params src (unat len)) (\<lambda>(rc, params).
            Inr (rc, cf\<lparr>cf_rfc2507 := Some params\<rparr>))
        else if cf_algo cf = ROHC then
          ebind (decode_pcomp_rohc_params src (unat len)) (\<lambda>(rc, params).
            Inr (rc, cf\<lparr>cf_rohc := Some params\<rparr>))
        else Inr (sint len, cf)) (\<lambda>(rc, cf).
     Inr (rc, if rc < 0 then cf\<lparr>cf_rfc1144 := None, cf_rfc2507 := None, cf_rohc := None\<rparr> else cf))"

definition decode_dcomp_params :: "comp_field \<Rightarrow> octets \<Rightarrow> u32 \<Rightarrow> (int \<times> comp_field) exec" where
  "decode_dcomp_params cf src len =
     ebind
       (if cf_algo cf = V42BIS then
          ebind (decode_dcomp_v42bis_params src (unat len)) (\<lambda>(rc, params).
            Inr (rc, cf\<lparr>cf_v42bis := Some params\<rparr>))
        else if cf_algo cf = V44 then
          ebind (decode_dcomp_v44_params src (unat len)) (\<lambda>(rc, params).
            Inr (rc, cf\<lparr>cf_v44 := Some params\<rparr>))
        else Inr (sint len, cf)) (\<lambda>(rc, cf).
     Inr (rc, if rc < 0 then cf\<lparr>cf_v42bis := None, cf_v44 := None\<rparr> else cf))"

definition zero_comp_field :: comp_field where
  "zero_comp_field = \<lparr>cf_p = False, cf_entity = 0, cf_algo = 0, cf_comp = [], cf_rfc1144 = None,
     cf_rfc2507 = None, cf_rohc = None, cf_v42bis = None, cf_v44 = None\<rparr>"

text \<open>
  The second half of \<open>decode_comp_field\<close>, once propose bit, entity and algorithm are known:
  length octet, PCOMP/DCOMP values and parameters.  \<open>src_counter\<close> octets were consumed.
\<close>

definition decode_comp_body ::
  "comp_field \<Rightarrow> octets \<Rightarrow> nat \<Rightarrow> xid_param_types \<Rightarrow> (int \<times> comp_field) exec" where
  "decode_comp_body cf src src_counter compclass =
     ebind (rd src 0) (\<lambda>b.
     let len = ucast b :: u32; src = drop 1 src; src_counter = src_counter + 1 in
     ebind (decode_comp_values cf src compclass) (\<lambda>(rc, cf).
     if rc < 0 then Inr (- EINVAL, cf)
     else
       let src_counter = src_counter + nat rc; src = drop (nat rc) src; len = len - word_of_int rc in
       ebind (if compclass = SNDCP_XID_PROTOCOL_COMPRESSION then decode_pcomp_params cf src len
              else if compclass = SNDCP_XID_DATA_COMPRESSION then decode_dcomp_params cf src len
              else Inr (- EINVAL, cf)) (\<lambda>(rc, cf).
       if rc \<ge> 0 then Inr (int src_counter + rc, cf) else Inr (- EINVAL, cf))))"

definition decode_comp_field ::
  "octets \<Rightarrow> nat \<Rightarrow> entity_algo list option \<Rightarrow> xid_param_types \<Rightarrow> (int \<times> comp_field) exec" where
  "decode_comp_field src src_len lt compclass =
     (if src_len < 1 then Inr (- EINVAL, zero_comp_field)
      else ebind (rd src 0) (\<lambda>b.
        let cf = zero_comp_field\<lparr>cf_p := (b AND 0x80 \<noteq> 0), cf_entity := unat (b AND 0x1F)\<rparr> in
        if compclass \<noteq> SNDCP_XID_PROTOCOL_COMPRESSION \<and> compclass \<noteq> SNDCP_XID_DATA_COMPRESSION
        then Inr (- EINVAL, cf)
        else if cf_p cf then
          ebind (rd src 1) (\<lambda>a.
            decode_comp_body (cf\<lparr>cf_algo := uint (a AND 0x1F)\<rparr>) (drop 2 src) 2 compclass)
        else
          decode_comp_body
            (cf\<lparr>cf_algo := (if compclass = SNDCP_XID_PROTOCOL_COMPRESSION
                            then lookup_algorithm_identifier_pcomp (cf_entity cf) lt
                            else lookup_algorithm_identifier_dcomp (cf_entity cf) lt)\<rparr>)
            (drop 1 src) 1 compclass))"

end
