(* ===== verification/Sndcp_Xid_Codec.thy ===== *)
theory Sndcp_Xid_Codec
  imports Sndcp_Xid_Dec
begin

unbundle bit_operations_syntax

section \<open>SNDCP XID: one field, encoded and decoded\<close>

text \<open>
  The decoders of \<open>Sndcp_Xid_Dec\<close> undo the encoders of \<open>Sndcp_Xid_Enc\<close>: the NSAPI bit
  mask, the parameter sets of the five algorithms, the packed PCOMP/DCOMP values and the
  whole compression field.  The predicates \<open>..._ok\<close> are the parameter ranges for which
  both directions agree.
\<close>

subsection \<open>The NSAPI bit mask\<close>

text \<open>The decoder lists the NSAPIs in increasing order.\<close>

definition nsapis_ok :: "u8 list \<Rightarrow> bool" where
  "nsapis_ok ns \<longleftrightarrow> sorted_wrt (<) ns \<and> (\<forall>n\<in>set ns. 5 \<le> n \<and> n \<le> 15)"

lemma nsapis_ok_length: assumes "nsapis_ok ns" shows "length ns \<le> 11"
proof -
  have "distinct ns" using assms by (auto simp: nsapis_ok_def strict_sorted_iff)
  then have "length ns = card (set ns)" by (simp add: distinct_card)
  also have "\<dots> = card (unat ` set ns)" by (rule card_image [symmetric], rule inj_onI, rule iffD2 [OF word_unat_eq_iff])
  also have "\<dots> \<le> card {5..15::nat}" 
    using assms by (intro card_mono) (auto simp: nsapis_ok_def word_le_nat_alt)
  finally show ?thesis by simp
qed

lemma sapis_blob_ok:
  assumes "\<forall>n\<in>set ns. 5 \<le> n \<and> n \<le> (15::u8)"
  obtains blob' where "sapis_blob blob ns = Inr blob'"
    and "\<And>k. bit blob' k \<longleftrightarrow> bit blob k \<or> (k < 16 \<and> (\<exists>n\<in>set ns. unat n = k))"
proof -
  have "\<exists>blob'. sapis_blob blob ns = Inr blob' \<and>
     (\<forall>k. bit blob' k \<longleftrightarrow> bit blob k \<or> (k < 16 \<and> (\<exists>n\<in>set ns. unat n = k)))"
    using assms
  proof (induction ns arbitrary: blob)
    case (Cons n ns)
    then obtain blob' where b: "sapis_blob (blob OR push_bit (unat n) 1) ns = Inr blob'"
      "\<And>k. bit blob' k \<longleftrightarrow> bit (blob OR push_bit (unat n) 1) k \<or> (k < 16 \<and> (\<exists>n\<in>set ns. unat n = k))"
      by (metis list.set_intros(2))
    then show ?case using Cons.prems by (auto simp: bit_simps)
  qed simp
  then show thesis using that by blast
qed

lemma be16_ucast: "be16 (ucast (drop_bit 8 blob AND 0xFF)) (ucast (blob AND 0xFF) AND 0xFF) = blob"
proof (rule bit_word_eqI)
  fix n assume "n < LENGTH(16)"
  then have "n \<in> {0,1,2,3,4,5,6,7,8,9,10,11,12,13,14,15}" by (simp, presburger)
  then show "bit (be16 (ucast (drop_bit 8 blob AND 0xFF)) (ucast (blob AND 0xFF) AND 0xFF)) n = bit blob n"
    unfolding be16_def by (auto simp: bit_simps)
qed

lemma sapis_roundtrip:
  assumes "nsapis_ok ns"
  obtains a b where "encode_pcomp_applicable_sapis ns = Inr [a, b]"
    and "\<And>rest n. 2 \<le> n \<Longrightarrow> decode_pcomp_applicable_sapis (a # b # rest) n = Inr (2, ns)"
proof -
  from assms have r: "\<forall>n\<in>set ns. 5 \<le> n \<and> n \<le> (15::u8)" by (simp add: nsapis_ok_def)
  from sapis_blob_ok [OF this, of 0] obtain blob where b: "sapis_blob 0 ns = Inr blob"
    "\<And>k. bit blob k \<longleftrightarrow> (k < 16 \<and> (\<exists>n\<in>set ns. unat n = k))" by auto
  let ?l = "map (\<lambda>i. word_of_nat (i + 5) :: u8) (filter (\<lambda>i. drop_bit i (drop_bit 5 blob) AND 1 \<noteq> 0) [0..<15])"
  have f: "drop_bit i (drop_bit 5 blob) AND 1 \<noteq> 0 \<longleftrightarrow> (i < 11 \<and> (\<exists>n\<in>set ns. unat n = i + 5))" for i
    using b(2) [of "i + 5"] by (auto simp: bit_iff_odd_drop_bit and_one_eq odd_iff_mod_2_eq_one add.commute)
  have conv: "unat (word_of_nat (i + 5) :: u8) = i + 5" if "i < 15" for i
    using that unat_u8_of_nat [of "i + 5"] by linarith
  have st: "set ?l = set ns"
  proof (intro equalityI subsetI)
    fix x assume "x \<in> set ?l"
    then obtain i n where "i < 15" "x = word_of_nat (i + 5)" "n \<in> set ns" "unat n = i + 5"
      unfolding f by auto
    then show "x \<in> set ns" using conv [of i] by (metis word_unat_eq_iff)
  next
    fix x assume x: "x \<in> set ns"
    with r have "5 \<le> unat x" "unat x \<le> 15" by (auto simp: word_le_nat_alt)
    then have "unat x - 5 < 11" "unat x = (unat x - 5) + 5" by auto
    then have "x = word_of_nat ((unat x - 5) + 5)" "unat x - 5 \<in> {0..<15}" by auto
    with x \<open>unat x - 5 < 11\<close> \<open>unat x = (unat x - 5) + 5\<close> show "x \<in> set ?l" 
      unfolding f set_map set_filter set_upt by blast
  qed
  have "sorted_wrt (<) (map unat ?l)"
  proof -
    have "map unat ?l = map (\<lambda>i. i + 5) (filter (\<lambda>i. drop_bit i (drop_bit 5 blob) AND 1 \<noteq> 0) [0..<15])"
      using conv by auto
    then show ?thesis by (simp only: sorted_wrt_map) (intro sorted_wrt_filter, simp)
  qed
  then have "sorted_wrt (<) ?l" 
    by (simp only: sorted_wrt_map word_less_nat_alt)
  then have "?l = ns"
    using assms st by (intro strict_sorted_equal) (auto simp: nsapis_ok_def)
  then show thesis
    using that [of "ucast (drop_bit 8 blob AND 0xFF)" "ucast (blob AND 0xFF)"] b(1) nsapis_ok_length [OF assms]
    by (simp add: encode_pcomp_applicable_sapis_def decode_pcomp_applicable_sapis_def be16_ucast Let_def del: upt_rec_numeral)
qed

subsection \<open>Parameter sets\<close>

text \<open>
  \<open>pay_codec enc dec p\<close>: the encoder succeeds and the decoder, given exactly the encoded
  length, returns that length and the parameters.
\<close>

definition pay_codec :: "octets exec \<Rightarrow> (octets \<Rightarrow> nat \<Rightarrow> (int \<times> 'p) exec) \<Rightarrow> 'p \<Rightarrow> bool" where
  "pay_codec enc dec p \<longleftrightarrow> (\<exists>bs. enc = Inr bs \<and> 3 \<le> length bs \<and> length bs \<le> 38 \<and>
     (\<forall>rest. dec (bs @ rest) (length bs) = Inr (int (length bs), p)))"

lemma uint_lo8_small [octet_simps]: "0 \<le> v \<Longrightarrow> v \<le> 255 \<Longrightarrow> uint (lo8 v) = v"
  by (simp add: uint_lo8)

lemma and_3_small: "0 \<le> v \<Longrightarrow> v \<le> 3 \<Longrightarrow> (v::int) AND 3 = v"
  using take_bit_eq_mask [of 2 v] by (simp add: mask_eq_exp_minus_1 take_bit_eq_mod)

lemma decode_16_bit_ok:
  "\<lbrakk>lo \<le> v; v \<le> hi; 0 \<le> v; v \<le> 65535; 2 \<le> n\<rbrakk> \<Longrightarrow>
   decode_pcomp_16_bit_field (hi8 v # lo8 v # rest) n lo hi = Inr (2, v)"
  by (simp add: decode_pcomp_16_bit_field_def be16_hi8_lo8 Let_def)

lemma decode_8_bit_ok:
  "\<lbrakk>lo \<le> v; v \<le> hi; 0 \<le> v; v \<le> 255; 1 \<le> n\<rbrakk> \<Longrightarrow>
   decode_pcomp_8_bit_field (lo8 v # rest) n lo hi = Inr (1, v)"
  by (simp add: decode_pcomp_8_bit_field_def uint_lo8_small Let_def)

lemmas field_defs = decode_next_def decode_16_bit_ok decode_8_bit_ok Let_def


definition rfc1144_ok :: "pcomp_rfc1144_params \<Rightarrow> bool" where
  "rfc1144_ok p \<longleftrightarrow> nsapis_ok (rfc1144_nsapi p) \<and> rfc1144_s01 p \<in> {0..255}"

definition rfc2507_ok :: "pcomp_rfc2507_params \<Rightarrow> bool" where
  "rfc2507_ok p \<longleftrightarrow> nsapis_ok (rfc2507_nsapi p) \<and> rfc2507_f_max_period p \<in> {1..65535} \<and>
     rfc2507_f_max_time p \<in> {1..255} \<and> rfc2507_max_header p \<in> {60..255} \<and>
     rfc2507_tcp_space p \<in> {3..255} \<and> rfc2507_non_tcp_space p \<in> {3..65535}"

definition v42bis_ok :: "dcomp_v42bis_params \<Rightarrow> bool" where
  "v42bis_ok p \<longleftrightarrow> nsapis_ok (v42bis_nsapi p) \<and> v42bis_p0 p \<in> {0..3} \<and>
     v42bis_p1 p \<in> {512..65535} \<and> v42bis_p2 p \<in> {6..250}"

definition v44_ok :: "dcomp_v44_params \<Rightarrow> bool" where
  "v44_ok p \<longleftrightarrow> nsapis_ok (v44_nsapi p) \<and> v44_c0 p \<in> {0x80, 0xC0} \<and> v44_p0 p \<in> {0..3} \<and>
     v44_p1t p \<in> {265..65535} \<and> v44_p1r p \<in> {265..65535} \<and> v44_p3t p \<in> {2 * v44_p1t p..65535} \<and>
     v44_p3r p \<in> {2 * v44_p1r p..65535}"

definition rohc_ok :: "pcomp_rohc_params \<Rightarrow> bool" where
  "rohc_ok p \<longleftrightarrow> nsapis_ok (rohc_nsapi p) \<and> rohc_max_cid p \<in> {0..16383} \<and>
     rohc_max_header p \<in> {60..255} \<and> length (rohc_profile p) \<in> {0, 16}"

lemma codec_rfc1144:
  assumes "rfc1144_ok p"
  shows "pay_codec (encode_pcomp_rfc1144_params 256 p) decode_pcomp_rfc1144_params p"
proof -
  obtain a b where s: "encode_pcomp_applicable_sapis (rfc1144_nsapi p) = Inr [a, b]"
    "\<And>rest n. 2 \<le> n \<Longrightarrow> decode_pcomp_applicable_sapis (a # b # rest) n = Inr (2, rfc1144_nsapi p)"
    using assms sapis_roundtrip unfolding rfc1144_ok_def by metis
  then show ?thesis
    using assms by (simp add: rfc1144_ok_def pay_codec_def encode_pcomp_rfc1144_params_def
      decode_pcomp_rfc1144_params_def field_defs)
qed

lemma codec_rfc2507:
  assumes "rfc2507_ok p"
  shows "pay_codec (encode_pcomp_rfc2507_params 256 p) decode_pcomp_rfc2507_params p"
proof -
  obtain a b where s: "encode_pcomp_applicable_sapis (rfc2507_nsapi p) = Inr [a, b]"
    "\<And>rest n. 2 \<le> n \<Longrightarrow> decode_pcomp_applicable_sapis (a # b # rest) n = Inr (2, rfc2507_nsapi p)"
    using assms sapis_roundtrip unfolding rfc2507_ok_def by metis
  then show ?thesis
    using assms by (simp add: rfc2507_ok_def pay_codec_def encode_pcomp_rfc2507_params_def
      decode_pcomp_rfc2507_params_def field_defs)
qed

lemma codec_v42bis:
  assumes "v42bis_ok p"
  shows "pay_codec (encode_dcomp_v42bis_params 256 p) decode_dcomp_v42bis_params p"
proof -
  obtain a b where s: "encode_pcomp_applicable_sapis (v42bis_nsapi p) = Inr [a, b]"
    "\<And>rest n. 2 \<le> n \<Longrightarrow> decode_pcomp_applicable_sapis (a # b # rest) n = Inr (2, v42bis_nsapi p)"
    using assms sapis_roundtrip unfolding v42bis_ok_def by metis
  then show ?thesis
    using assms by (simp add: v42bis_ok_def pay_codec_def encode_dcomp_v42bis_params_def
      decode_dcomp_v42bis_params_def field_defs and_3_small)
qed

lemma codec_v44:
  assumes "v44_ok p"
  shows "pay_codec (encode_dcomp_v44_params 256 p) decode_dcomp_v44_params p"
proof -
  obtain a b where s: "encode_pcomp_applicable_sapis (v44_nsapi p) = Inr [a, b]"
    "\<And>rest n. 2 \<le> n \<Longrightarrow> decode_pcomp_applicable_sapis (a # b # rest) n = Inr (2, v44_nsapi p)"
    using assms sapis_roundtrip unfolding v44_ok_def by metis
  have c: "v44_c0 p AND 0xC0 = v44_c0 p" "0 \<le> v44_c0 p" "v44_c0 p \<le> 255" using assms by (auto simp: v44_ok_def)
  from s show ?thesis
    using assms by (simp add: v44_ok_def pay_codec_def encode_dcomp_v44_params_def
      decode_dcomp_v44_params_def field_defs and_3_small c) blast
qed

lemma rohc_profiles_length: "length (encode_rohc_profiles ps) = 2 * length ps"
  by (induction ps) simp_all

lemma decode_rohc_profiles_ok:
  assumes "n = length pre" "src_len = n + 2 * length ps" 
  shows "decode_rohc_profiles (length ps) (pre @ encode_rohc_profiles ps @ rest) src_len n acc =
    Inr (int src_len, acc @ ps)"
  using assms
proof (induction ps arbitrary: n pre acc)
  case (Cons p ps)
  have u: "uint p \<le> 65535" using uint_lt2p [of p] by simp
  have "decode_rohc_profiles (length ps) ((pre @ [hi8 (uint p), lo8 (uint p)]) @ encode_rohc_profiles ps @ rest) src_len
     (n + 2) (acc @ [p]) = Inr (int src_len, (acc @ [p]) @ ps)"
    by (rule Cons.IH) (use Cons.prems in simp_all)
  then show ?case
    using Cons.prems u by (simp add: field_defs)
qed simp

lemma codec_rohc:
  assumes "rohc_ok p"
  shows "pay_codec (encode_pcomp_rohc_params 256 p) decode_pcomp_rohc_params p"
proof -
  obtain a b where s: "encode_pcomp_applicable_sapis (rohc_nsapi p) = Inr [a, b]"
    "\<And>rest n. 2 \<le> n \<Longrightarrow> decode_pcomp_applicable_sapis (a # b # rest) n = Inr (2, rohc_nsapi p)"
    using assms sapis_roundtrip unfolding rohc_ok_def by metis
  let ?ps = "rohc_profile p"
  let ?pre = "[a, b, hi8 (rohc_max_cid p), lo8 (rohc_max_cid p), hi8 (rohc_max_header p), lo8 (rohc_max_header p)]"
  have l: "length ?ps = 0 \<or> length ?ps = 16" using assms by (simp add: rohc_ok_def)
  have "decode_rohc_profiles 16 (?pre @ encode_rohc_profiles ?ps @ rest) (length (?pre @ encode_rohc_profiles ?ps)) (length ?pre) [] =
     Inr (6 + 2 * int (length ?ps), ?ps)" for rest
  proof (cases "length ?ps = 16")
    case True
    then show ?thesis using decode_rohc_profiles_ok [of "length ?pre" ?pre "length ?pre + 2 * length ?ps" ?ps rest "[]"]
      by (simp add: rohc_profiles_length)
  next
    case False
    with l have "?ps = []" by simp
    then show ?thesis by (simp add: numeral_eq_Suc decode_pcomp_16_bit_field_def errno_defs)
  qed
  moreover have "length ?ps \<le> 16" using l by auto
  ultimately show ?thesis using s assms
    by (simp add: rohc_ok_def pay_codec_def encode_pcomp_rohc_params_def
      decode_pcomp_rohc_params_def field_defs rohc_profiles_length)
qed

subsection \<open>PCOMP/DCOMP values, two per octet\<close>

lemma nibbles:
  assumes "c \<le> (15::u8)" "d \<le> 15"
  shows "drop_bit 4 ((push_bit 4 c AND 0xF0) OR (d AND 0x0F)) AND 0x0F = c"
    and "((push_bit 4 c AND 0xF0) OR (d AND 0x0F)) AND 0x0F = d"
    and "drop_bit 4 (push_bit 4 c AND 0xF0) AND 0x0F = c"
  by (rule u8_eqI; use bits_le_15 [OF assms(1)] bits_le_15 [OF assms(2)] in \<open>simp add: bit_simps\<close>)+

lemma nibble_and: "c \<le> (15::u8) \<Longrightarrow> c AND 0x0F = c" "c \<le> (15::u8) \<Longrightarrow> drop_bit 4 (push_bit 4 c) AND 0x0F = c"
  by (rule u8_eqI; use bits_le_15 [of c] in \<open>simp add: bit_simps\<close>)+

lemma values_roundtrip:
  assumes "\<forall>c\<in>set cs. c \<le> 15" "even i"
  shows "\<exists>out. encode_comp_values i 0 cs = Some out \<and> length out = (length cs + 1) div 2 \<and>
    (\<forall>rest k. unpack_comp_values i (length cs) (out @ rest) k = Inr (k + (length cs + 1) div 2, cs))"
  using assms
proof (induction cs arbitrary: i rule: induct_list012)
  case (2 x)
  then show ?case by (simp add: nibble_and not_less)
next
  case (3 x y zs)
  from 3(3,4) have x: "x \<le> 15" "y \<le> 15" and zs: "\<forall>c\<in>set zs. c \<le> 15" "even (Suc (Suc i))" by simp_all
  from 3(1) [OF zs] obtain out where o: "encode_comp_values (Suc (Suc i)) 0 zs = Some out"
    "length out = (length zs + 1) div 2"
    "\<And>rest k. unpack_comp_values (Suc (Suc i)) (length zs) (out @ rest) k = Inr (k + (length zs + 1) div 2, zs)" by blast
  show ?case using o x nibbles [OF x] 3(4) by (simp add: not_less [symmetric])
qed simp


subsection \<open>The payload of a field\<close>

text \<open>
  A field whose parameter set belongs to its algorithm and class, with all other sets absent.
\<close>

definition comp_params_ok :: "xid_param_types \<Rightarrow> comp_field \<Rightarrow> bool" where
  "comp_params_ok cls f \<longleftrightarrow>
     (if cls = SNDCP_XID_PROTOCOL_COMPRESSION then
        cf_v42bis f = None \<and> cf_v44 f = None \<and>
        (cf_algo f = RFC_1144 \<and> pred_option rfc1144_ok (cf_rfc1144 f) \<and> cf_rfc1144 f \<noteq> None \<and>
           cf_rfc2507 f = None \<and> cf_rohc f = None \<or>
         cf_algo f = RFC_2507 \<and> pred_option rfc2507_ok (cf_rfc2507 f) \<and> cf_rfc2507 f \<noteq> None \<and>
           cf_rfc1144 f = None \<and> cf_rohc f = None \<or>
         cf_algo f = ROHC \<and> pred_option rohc_ok (cf_rohc f) \<and> cf_rohc f \<noteq> None \<and>
           cf_rfc1144 f = None \<and> cf_rfc2507 f = None)
      else cls = SNDCP_XID_DATA_COMPRESSION \<and>
        cf_rfc1144 f = None \<and> cf_rfc2507 f = None \<and> cf_rohc f = None \<and>
        (cf_algo f = V42BIS \<and> pred_option v42bis_ok (cf_v42bis f) \<and> cf_v42bis f \<noteq> None \<and> cf_v44 f = None \<or>
         cf_algo f = V44 \<and> pred_option v44_ok (cf_v44 f) \<and> cf_v44 f \<noteq> None \<and> cf_v42bis f = None))"

definition clear_params :: "comp_field \<Rightarrow> comp_field" where
  "clear_params f = f\<lparr>cf_rfc1144 := None, cf_rfc2507 := None, cf_rohc := None, cf_v42bis := None, cf_v44 := None\<rparr>"

definition decode_params :: "xid_param_types \<Rightarrow> comp_field \<Rightarrow> octets \<Rightarrow> u32 \<Rightarrow> (int \<times> comp_field) exec" where
  "decode_params cls = (if cls = SNDCP_XID_PROTOCOL_COMPRESSION then decode_pcomp_params else decode_dcomp_params)"

lemma unat_u32_of_nat: "n \<le> 255 \<Longrightarrow> unat (word_of_nat n :: u32) = n"
  by (simp add: unsigned_of_nat take_bit_nat_eq_self)

lemma comp_payload_roundtrip:
  assumes "comp_params_ok cls f"
  obtains bs where "encode_comp_payload f = Inr bs" "3 \<le> length bs" "length bs \<le> 38"
    "gprs_sndcp_get_compression_class f = cls"
    "\<And>rest. decode_params cls (clear_params f) (bs @ rest) (word_of_nat (length bs)) = Inr (int (length bs), f)"
proof -
  have "gprs_sndcp_get_compression_class f = cls"
    using assms by (auto simp: comp_params_ok_def gprs_sndcp_get_compression_class_def split: if_splits)
  moreover have "pay_codec (encode_comp_payload f) (\<lambda>src n. decode_params cls (clear_params f) src (word_of_nat n)) f"
    using assms 
    by (cases f) (auto simp: comp_params_ok_def clear_params_def encode_comp_payload_def decode_params_def decode_pcomp_params_def decode_dcomp_params_def pay_codec_def unat_u32_of_nat
      dest!: codec_rfc1144 codec_rfc2507 codec_rohc codec_v42bis codec_v44 split: if_splits)
  ultimately show thesis using that unfolding pay_codec_def by blast
qed

subsection \<open>The whole field\<close>

text \<open>
  A field the receiver can decode.  With the propose bit the algorithm and the values travel
  with it; without, the receiver takes the algorithm from its lookup table \<open>lt\<close>.
\<close>

definition comp_field_ok :: "entity_algo list option \<Rightarrow> xid_param_types \<Rightarrow> comp_field \<Rightarrow> bool" where
  "comp_field_ok lt cls f \<longleftrightarrow> cf_entity f \<le> 31 \<and> comp_params_ok cls f \<and>
     (if cf_p f then (\<forall>c\<in>set (cf_comp f). c \<le> 15) \<and>
        expected_comp_len cls (cf_algo f) = Some (length (cf_comp f))
      else cf_comp f = [] \<and> lookup_algorithm_identifier cls (cf_entity f) lt = cf_algo f)"

lemma comp_params_ok_class: "comp_params_ok cls f \<Longrightarrow>
    cls = SNDCP_XID_PROTOCOL_COMPRESSION \<or> cls = SNDCP_XID_DATA_COMPRESSION"
  by (auto simp: comp_params_ok_def split: if_splits)

lemma comp_params_ok_algo: "comp_params_ok cls f \<Longrightarrow> cf_algo f \<in> {0, 1, 2}"
  by (auto simp: comp_params_ok_def split: if_splits)

lemma expected_comp_len_le: "expected_comp_len cls algo = Some n \<Longrightarrow> n \<le> 5"
  by (auto simp: expected_comp_len_def split: xid_param_types.splits if_splits)

lemma ucast_lo8: "n \<le> 255 \<Longrightarrow> (ucast (lo8 (int n)) :: u32) = word_of_nat n"
  by (rule word_uint_eqI) (simp add: unsigned_ucast_eq uint_lo8 unsigned_of_nat take_bit_int_eq_self take_bit_nat_eq_self)

lemma comp_hdr_octet_p: "comp_hdr_octet p e AND 0x80 \<noteq> 0 \<longleftrightarrow> p"
proof -
  have "comp_hdr_octet p e AND 0x80 = (if p then 0x80 else 0)"
    unfolding comp_hdr_octet_def by (rule u8_eqI; simp add: bit_simps)
  then show ?thesis by simp
qed

lemma comp_hdr_octet_entity: assumes "e \<le> 31" shows "unat (comp_hdr_octet p e AND 0x1F) = e"
proof -
  have e: "(word_of_nat e :: u8) \<le> 31" using assms by (simp add: word_le_nat_alt unat_u8_of_nat)
  have "comp_hdr_octet p e AND 0x1F = word_of_nat e"
    unfolding comp_hdr_octet_def by (rule u8_eqI; use bits_le_31 [OF e] in \<open>simp add: bit_simps\<close>)
  then show ?thesis using assms by (simp add: unat_u8_of_nat)
qed

lemma decode_comp_values_ok:
  assumes "comp_field_ok lt cls f"
  obtains comps where "(if cf_p f then encode_comp_values 0 0 (cf_comp f) else Some []) = Some comps"
    "length comps = (if cf_p f then (length (cf_comp f) + 1) div 2 else 0)" "length comps \<le> 3"
    "\<And>rest. decode_comp_values ((clear_params f)\<lparr>cf_comp := []\<rparr>) (comps @ rest) cls =
       Inr (int (length comps), clear_params f)"
proof (cases "cf_p f")
  case True
  then have c: "\<forall>c\<in>set (cf_comp f). c \<le> 15" "expected_comp_len cls (cf_algo f) = Some (length (cf_comp f))"
    using assms by (simp_all add: comp_field_ok_def)
  obtain out where o: "encode_comp_values 0 0 (cf_comp f) = Some out" "length out = (length (cf_comp f) + 1) div 2"
    "\<And>rest k. unpack_comp_values 0 (length (cf_comp f)) (out @ rest) k = Inr (k + (length (cf_comp f) + 1) div 2, cf_comp f)"
    using values_roundtrip [OF c(1), of 0] by auto
  have "clear_params f\<lparr>cf_comp := cf_comp f\<rparr> = clear_params f" by (cases f) (simp add: clear_params_def)
  moreover have "cf_p (clear_params f) = cf_p f" "cf_algo (clear_params f) = cf_algo f" by (simp_all add: clear_params_def)
  ultimately show thesis using o True c(2) expected_comp_len_le [OF c(2)]
    by (intro that [of out]) (simp_all add: decode_comp_values_def)
next
  case False
  with assms have "clear_params f\<lparr>cf_comp := []\<rparr> = clear_params f" "cf_p (clear_params f) = cf_p f"
    by (cases f; simp add: comp_field_ok_def clear_params_def)+
  then show thesis using False by (intro that [of "[]"]) (simp_all add: decode_comp_values_def)
qed

lemma decode_comp_body_ok:
  assumes v: "\<And>rest. decode_comp_values (g\<lparr>cf_comp := []\<rparr>) (comps @ rest) cls = Inr (int (length comps), g)"
    and d: "\<And>rest. decode_params cls g (bs @ rest) (word_of_nat (length bs)) = Inr (int (length bs), f)"
    and l: "length comps + length bs \<le> 255"
    and c: "cls = SNDCP_XID_PROTOCOL_COMPRESSION \<or> cls = SNDCP_XID_DATA_COMPRESSION"
  shows "decode_comp_body (g\<lparr>cf_comp := []\<rparr>) (lo8 (int (length comps + length bs)) # comps @ bs @ rest) k cls =
    Inr (int (k + 1 + length comps + length bs), f)"
proof -
  have "ucast (lo8 (int (length comps + length bs))) - word_of_int (int (length comps)) = (word_of_nat (length bs) :: u32)"
    by (simp only: ucast_lo8 [OF l]) simp
  then show ?thesis
    using c d unfolding decode_comp_body_def by (auto simp: v Let_def decode_params_def)
qed

lemma decode_comp_field_head:
  assumes ok: "comp_field_ok lt cls f" and "1 \<le> m"
    and body: "\<And>k. decode_comp_body ((clear_params f)\<lparr>cf_comp := []\<rparr>) (len # rest) k cls = Inr (int (k + n), f)"
  shows "decode_comp_field ([comp_hdr_octet (cf_p f) (cf_entity f)] @
      (if cf_p f then [lo8 (cf_algo f AND 0x1F)] else []) @ len # rest) m lt cls =
    Inr (int ((if cf_p f then 2 else 1) + n), f)"
proof -
  have p: "comp_params_ok cls f" and e: "cf_entity f \<le> 31" using ok by (simp_all add: comp_field_ok_def)
  have al: "uint (lo8 (cf_algo f AND 0x1F) AND 0x1F) = cf_algo f"
    using comp_params_ok_algo [OF p] by (auto simp: lo8_def)
  have g: "zero_comp_field\<lparr>cf_p := cf_p f, cf_entity := cf_entity f, cf_algo := cf_algo f\<rparr> =
      (clear_params f)\<lparr>cf_comp := []\<rparr>"
    by (cases f) (simp add: zero_comp_field_def clear_params_def)
  have lk: "\<not> cf_p f \<Longrightarrow>
      (if cls = SNDCP_XID_PROTOCOL_COMPRESSION then lookup_algorithm_identifier_pcomp (cf_entity f) lt
       else lookup_algorithm_identifier_dcomp (cf_entity f) lt) = cf_algo f"
    using ok comp_params_ok_class [OF p]
    by (auto simp: comp_field_ok_def lookup_algorithm_identifier_pcomp_def lookup_algorithm_identifier_dcomp_def)
  note hdr = comp_hdr_octet_p [simplified] comp_hdr_octet_entity [OF e]
  from comp_params_ok_class [OF p] show ?thesis
  proof
    assume "cls = SNDCP_XID_PROTOCOL_COMPRESSION"
    with assms(2) body g lk al show ?thesis unfolding decode_comp_field_def
      by (cases "cf_p f") (simp_all add: hdr Let_def del: of_nat_add)
  next
    assume "cls = SNDCP_XID_DATA_COMPRESSION"
    with assms(2) body g lk al show ?thesis unfolding decode_comp_field_def
      by (cases "cf_p f") (simp_all add: hdr Let_def del: of_nat_add)
  qed
qed

lemma comp_field_roundtrip:
  assumes ok: "comp_field_ok lt cls f"
  obtains bs where "\<And>m. length bs \<le> m \<Longrightarrow> encode_comp_field m f = Inr (int (length bs), bs)"
    "4 \<le> length bs" "length bs \<le> 44"
    "\<And>rest n. 1 \<le> n \<Longrightarrow> decode_comp_field (bs @ rest) n lt cls = Inr (int (length bs), f)"
proof -
  have p: "comp_params_ok cls f" and e: "cf_entity f \<le> 31" using ok by (simp_all add: comp_field_ok_def)
  obtain pl where pl: "encode_comp_payload f = Inr pl" "3 \<le> length pl" "length pl \<le> 38"
    "gprs_sndcp_get_compression_class f = cls"
    "\<And>rest. decode_params cls (clear_params f) (pl @ rest) (word_of_nat (length pl)) = Inr (int (length pl), f)"
    by (rule comp_payload_roundtrip [OF p]) blast
  obtain comps where cs: "(if cf_p f then encode_comp_values 0 0 (cf_comp f) else Some []) = Some comps"
    "length comps = (if cf_p f then (length (cf_comp f) + 1) div 2 else 0)" "length comps \<le> 3"
    "\<And>rest. decode_comp_values ((clear_params f)\<lparr>cf_comp := []\<rparr>) (comps @ rest) cls =
       Inr (int (length comps), clear_params f)"
    by (rule decode_comp_values_ok [OF ok]) blast
  have al: "0 \<le> cf_algo f" "cf_algo f \<le> 31" using comp_params_ok_algo [OF p] by auto
  have cl: "length (cf_comp f) \<le> MAX_COMP"
    using ok by (fastforce simp: comp_field_ok_def MAX_COMP_def split: if_splits dest: expected_comp_len_le)
  let ?bs = "[comp_hdr_octet (cf_p f) (cf_entity f)] @ (if cf_p f then [lo8 (cf_algo f AND 0x1F)] else []) @
    [lo8 (int (length comps + length pl))] @ comps @ pl"
  show thesis
  proof
    show "encode_comp_field m f = Inr (int (length ?bs), ?bs)" if "length ?bs \<le> m" for m
      using that cs(1,2) pl(1,4) comp_params_ok_class [OF p] al e cl
      by (auto simp: encode_comp_field_def Let_def add.commute split: if_splits)
    show "4 \<le> length ?bs" "length ?bs \<le> 44" using pl(2,3) cs(3) by simp_all
    show "decode_comp_field (?bs @ rest) n lt cls = Inr (int (length ?bs), f)" if "1 \<le> n" for rest n
    proof -
      have "decode_comp_body ((clear_params f)\<lparr>cf_comp := []\<rparr>)
          (lo8 (int (length comps + length pl)) # comps @ pl @ rest) k cls =
        Inr (int (k + (1 + length comps + length pl)), f)" for k
        using decode_comp_body_ok [OF cs(4) pl(5) _ comp_params_ok_class [OF p], of rest k] pl(3) cs(3)
        by (simp add: add.assoc)
      from decode_comp_field_head [OF ok that this] show ?thesis by (simp add: add.assoc)
    qed
  qed
qed

end
