(* ===== verification/Sndcp_Xid.thy ===== *)
theory Sndcp_Xid
  imports Sndcp_Xid_Codec
begin

unbundle bit_operations_syntax

section \<open>SNDCP XID: messages (src/src/sgsn/gprs\_sndcp\_xid.c)\<close>

text \<open>
  Compilation and parsing of whole SNDCP XID messages.  The TLV functions are libosmocore's
  and parameters of the model: \<open>tlv_put tag len val\<close> are the octets \<^verbatim>\<open>tlv_put\<close> stores,
  and \<open>tlv_parse_one buf buf_len\<close> is the return code of \<^verbatim>\<open>tlv_parse_one\<close> for the
  definition table of this file, with the tag, the length and the offset of the value in
  \<open>buf\<close>.  \<open>tlv_put_spec\<close> and \<open>tlv_parse_spec\<close> state what their documentation promises.
\<close>

type_synonym tlv_put_fn = "u8 \<Rightarrow> u8 \<Rightarrow> octets \<Rightarrow> octets"
type_synonym tlv_parse_fn = "octets \<Rightarrow> int \<Rightarrow> int \<times> u8 \<times> nat \<times> nat"

definition tlv_put_spec :: "tlv_put_fn \<Rightarrow> bool" where
  "tlv_put_spec tlv_put \<longleftrightarrow>
     (\<forall>tag len val. unat len \<le> length val \<longrightarrow> tlv_put tag len val = tag # len # take (unat len) val)"

definition tlv_parse_spec :: "tlv_parse_fn \<Rightarrow> bool" where
  "tlv_parse_spec tlv_parse_one \<longleftrightarrow>
     (\<forall>tag len val rest buf_len. tag \<le> 2 \<and> length val = unat len \<and> 2 + int (unat len) \<le> buf_len \<longrightarrow>
        tlv_parse_one (tag # len # val @ rest) buf_len = (2 + int (unat len), tag, unat len, 2))"

subsection \<open>Compilation\<close>

definition xid_tag :: "xid_param_types \<Rightarrow> u8" where
  "xid_tag cls = word_of_int (xid_param_code cls)"

text \<open>
  The TLV of one class, none when no field belongs to it.  The length is converted to
  \<^verbatim>\<open>uint8_t\<close> at the call of \<^verbatim>\<open>tlv_put\<close>.  The result pairs what is added to the byte
  counter with what is stored.
\<close>

definition compile_block :: "tlv_put_fn \<Rightarrow> comp_field list \<Rightarrow> xid_param_types \<Rightarrow> (int \<times> octets) exec" where
  "compile_block tlv_put comp_fields cls =
     ebind (gprs_sndcp_pack_fields comp_fields 512 cls) (\<lambda>comp_bytes.
       let rc = int (length comp_bytes) in
       if rc > 0 then Inr (rc + 2, tlv_put (xid_tag cls) (word_of_int rc) comp_bytes)
       else Inr (0, []))"

definition gprs_sndcp_compile_xid ::
  "tlv_put_fn \<Rightarrow> nat \<Rightarrow> comp_field list \<Rightarrow> int \<Rightarrow> (int \<times> octets) exec" where
  "gprs_sndcp_compile_xid tlv_put dst_maxlen comp_fields version =
     ebind (osmo_assert (dst_maxlen \<ge> 2 + 1)) (\<lambda>_.
     let (n0, out0) = (if version \<ge> 0
                       then (3, tlv_put (xid_tag SNDCP_XID_VERSION_NUMBER) 1 [lo8 version])
                       else (0, []))
     in
     if comp_fields = [] then Inr (n0, out0)
     else
       ebind (compile_block tlv_put comp_fields SNDCP_XID_DATA_COMPRESSION) (\<lambda>(n1, out1).
       ebind (compile_block tlv_put comp_fields SNDCP_XID_PROTOCOL_COMPRESSION) (\<lambda>(n2, out2).
       let out = out0 @ out1 @ out2 in
       if length out > dst_maxlen then Inl Oob_access
       else Inr (n0 + n1 + n2, out))))"

subsection \<open>Parsing\<close>

definition xid_class_of_tag :: "u8 \<Rightarrow> xid_param_types" where
  "xid_class_of_tag tag =
     (if tag = 0 then SNDCP_XID_VERSION_NUMBER
      else if tag = 1 then SNDCP_XID_DATA_COMPRESSION
      else if tag = 2 then SNDCP_XID_PROTOCOL_COMPRESSION
      else SNDCP_XID_INVALID_COMPRESSION)"

text \<open>
  The loop of \<open>decode_xid_block\<close>: \<open>remaining\<close> is \<^verbatim>\<open>tag_len - byte_counter\<close> (a
  non-positive difference ends the loop), \<open>budget\<close> is what is left of the
  \<^verbatim>\<open>MAX_ENTITIES * 2 + 1\<close> fields the count check admits.
\<close>

fun xid_block_loop ::
  "entity_algo list option \<Rightarrow> xid_param_types \<Rightarrow> octets \<Rightarrow> nat \<Rightarrow> nat \<Rightarrow> nat \<Rightarrow> comp_field list \<Rightarrow>
   (int \<times> comp_field list) exec" where
  "xid_block_loop lt cls val remaining byte_counter 0 comp_fields = Inr (- EINVAL, comp_fields)"
| "xid_block_loop lt cls val remaining byte_counter (Suc budget) comp_fields =
     ebind (decode_comp_field val remaining lt cls) (\<lambda>(rc, comp_field).
       if rc < 0 then Inr (- EINVAL, comp_fields)
       else if nat rc < remaining
         then xid_block_loop lt cls (drop (nat rc) val) (remaining - nat rc) (byte_counter + nat rc)
                budget (comp_field # comp_fields)
         else Inr (int (byte_counter + nat rc), comp_field # comp_fields))"

definition decode_xid_block ::
  "comp_field list \<Rightarrow> u8 \<Rightarrow> nat \<Rightarrow> octets \<Rightarrow> entity_algo list option \<Rightarrow> (int \<times> comp_field list) exec" where
  "decode_xid_block comp_fields tag tag_len val lt =
     xid_block_loop lt (xid_class_of_tag tag) val tag_len 0 (MAX_ENTITIES * 2 + 1) comp_fields"

text \<open>
  \<open>gprs_sndcp_decode_xid\<close>: \<open>version\<close> is \<open>None\<close> for a NULL pointer.  \<open>budget\<close> is
  \<^verbatim>\<open>3 - tlv_count\<close>, \<open>remaining\<close> the unsigned \<^verbatim>\<open>src_len - src_pos\<close>.  The field list
  is returned as \<open>None\<close> when the function has freed it.
\<close>

type_synonym decode_result = "int \<times> int option \<times> comp_field list option"

fun decode_xid_loop ::
  "tlv_parse_fn \<Rightarrow> entity_algo list option \<Rightarrow> nat \<Rightarrow> octets \<Rightarrow> u32 \<Rightarrow> int option \<Rightarrow> comp_field list \<Rightarrow>
   decode_result exec" where
  "decode_xid_loop tlv_parse_one lt 0 src remaining version comp_fields = Inr (- EINVAL, version, None)"
| "decode_xid_loop tlv_parse_one lt (Suc budget) src remaining version comp_fields =
     (let (rc, tag, tag_len, off) = tlv_parse_one src (sint remaining) in
      if rc \<le> 0 then Inr (- EINVAL, version, None)
      else
        ebind (if version \<noteq> None \<and> xid_class_of_tag tag = SNDCP_XID_VERSION_NUMBER
               then ebind (rd src off) (\<lambda>b. Inr (Some (uint b)))
               else Inr version) (\<lambda>version.
        ebind (if xid_class_of_tag tag = SNDCP_XID_PROTOCOL_COMPRESSION \<or>
                  xid_class_of_tag tag = SNDCP_XID_DATA_COMPRESSION
               then decode_xid_block comp_fields tag tag_len (drop off src) lt
               else Inr (0, comp_fields)) (\<lambda>(brc, comp_fields).
        if brc < 0 then Inr (- EINVAL, version, None)
        else
          let remaining = remaining - word_of_int rc in
          if remaining \<le> 2 then Inr (0, version, Some comp_fields)
          else decode_xid_loop tlv_parse_one lt budget (drop (nat rc) src) remaining version comp_fields)))"

definition gprs_sndcp_decode_xid ::
  "tlv_parse_fn \<Rightarrow> int option \<Rightarrow> octets \<Rightarrow> u32 \<Rightarrow> entity_algo list option \<Rightarrow> decode_result exec" where
  "gprs_sndcp_decode_xid tlv_parse_one version src src_len lt =
     decode_xid_loop tlv_parse_one lt 3 src src_len (map_option (\<lambda>_. - 1) version) []"

text \<open>
  \<open>gprs_sndcp_fill_table\<close>: fields of no class are skipped; the table of the caller has
  \<^verbatim>\<open>MAX_ENTITIES * 2\<close> entries and the function does not look at its length.
\<close>

definition table_entry :: "comp_field \<Rightarrow> entity_algo" where
  "table_entry cf = \<lparr>ea_entity = cf_entity cf, ea_algo = cf_algo cf,
     ea_compclass = gprs_sndcp_get_compression_class cf\<rparr>"

definition gprs_sndcp_fill_table :: "comp_field list \<Rightarrow> entity_algo list exec" where
  "gprs_sndcp_fill_table comp_fields =
     (let lt = map table_entry
                 (filter (\<lambda>cf. gprs_sndcp_get_compression_class cf \<noteq> SNDCP_XID_INVALID_COMPRESSION) comp_fields)
      in if length lt > MAX_ENTITIES * 2 then Inl Oob_access else Inr lt)"

subsection \<open>Completion from the request\<close>

definition from_req :: "int \<Rightarrow> int \<Rightarrow> int" where
  "from_req dst src = (if dst < 0 then src else dst)"

definition complete_rfc1144 :: "pcomp_rfc1144_params \<Rightarrow> pcomp_rfc1144_params \<Rightarrow> pcomp_rfc1144_params" where
  "complete_rfc1144 d s = d\<lparr>rfc1144_s01 := from_req (rfc1144_s01 d) (rfc1144_s01 s)\<rparr>"

definition complete_rfc2507 :: "pcomp_rfc2507_params \<Rightarrow> pcomp_rfc2507_params \<Rightarrow> pcomp_rfc2507_params" where
  "complete_rfc2507 d s = d\<lparr>
     rfc2507_f_max_period := from_req (rfc2507_f_max_period d) (rfc2507_f_max_period s),
     rfc2507_f_max_time := from_req (rfc2507_f_max_time d) (rfc2507_f_max_time s),
     rfc2507_max_header := from_req (rfc2507_max_header d) (rfc2507_max_header s),
     rfc2507_tcp_space := from_req (rfc2507_tcp_space d) (rfc2507_tcp_space s),
     rfc2507_non_tcp_space := from_req (rfc2507_non_tcp_space d) (rfc2507_non_tcp_space s)\<rparr>"

definition complete_rohc :: "pcomp_rohc_params \<Rightarrow> pcomp_rohc_params \<Rightarrow> pcomp_rohc_params" where
  "complete_rohc d s = d\<lparr>
     rohc_max_cid := from_req (rohc_max_cid d) (rohc_max_cid s),
     rohc_max_header := from_req (rohc_max_header d) (rohc_max_header s),
     rohc_profile := (if length (rohc_profile d) > 0 then rohc_profile s else rohc_profile d)\<rparr>"

definition complete_v42bis :: "dcomp_v42bis_params \<Rightarrow> dcomp_v42bis_params \<Rightarrow> dcomp_v42bis_params" where
  "complete_v42bis d s = d\<lparr>
     v42bis_p0 := from_req (v42bis_p0 d) (v42bis_p0 s),
     v42bis_p1 := from_req (v42bis_p1 d) (v42bis_p1 s),
     v42bis_p2 := from_req (v42bis_p2 d) (v42bis_p2 s)\<rparr>"

definition complete_v44 :: "dcomp_v44_params \<Rightarrow> dcomp_v44_params \<Rightarrow> dcomp_v44_params" where
  "complete_v44 d s = d\<lparr>
     v44_c0 := from_req (v44_c0 d) (v44_c0 s),
     v44_p0 := from_req (v44_p0 d) (v44_p0 s),
     v44_p1t := from_req (v44_p1t d) (v44_p1t s),
     v44_p1r := from_req (v44_p1r d) (v44_p1r s),
     v44_p3t := from_req (v44_p3t d) (v44_p3t s),
     v44_p3r := from_req (v44_p3r d) (v44_p3r s)\<rparr>"

definition complete_comp_field_params :: "comp_field \<Rightarrow> comp_field \<Rightarrow> int \<times> comp_field" where
  "complete_comp_field_params dst src =
     (if gprs_sndcp_get_compression_class dst = SNDCP_XID_INVALID_COMPRESSION then (- EINVAL, dst)
      else if cf_rfc1144 dst \<noteq> None \<and> cf_rfc1144 src \<noteq> None
        then (0, dst\<lparr>cf_rfc1144 := Some (complete_rfc1144 (the (cf_rfc1144 dst)) (the (cf_rfc1144 src)))\<rparr>)
      else if cf_rfc2507 dst \<noteq> None \<and> cf_rfc2507 src \<noteq> None
        then (0, dst\<lparr>cf_rfc2507 := Some (complete_rfc2507 (the (cf_rfc2507 dst)) (the (cf_rfc2507 src)))\<rparr>)
      else if cf_rohc dst \<noteq> None \<and> cf_rohc src \<noteq> None
        then (0, dst\<lparr>cf_rohc := Some (complete_rohc (the (cf_rohc dst)) (the (cf_rohc src)))\<rparr>)
      else if cf_v42bis dst \<noteq> None \<and> cf_v42bis src \<noteq> None
        then (0, dst\<lparr>cf_v42bis := Some (complete_v42bis (the (cf_v42bis dst)) (the (cf_v42bis src)))\<rparr>)
      else if cf_v44 dst \<noteq> None \<and> cf_v44 src \<noteq> None
        then (0, dst\<lparr>cf_v44 := Some (complete_v44 (the (cf_v44 dst)) (the (cf_v44 src)))\<rparr>)
      else (- EINVAL, dst))"

text \<open>The return code is that of the last field of the request with the same entity.\<close>

fun complete_comp_field_loop :: "int \<Rightarrow> comp_field \<Rightarrow> comp_field list \<Rightarrow> int \<times> comp_field" where
  "complete_comp_field_loop rc cf [] = (rc, cf)"
| "complete_comp_field_loop rc cf (src # req) =
     (if cf_entity src = cf_entity cf then
        let cf1 = (if length (cf_comp src) > 0 then cf\<lparr>cf_comp := cf_comp src\<rparr> else cf);
            (rc1, cf2) = complete_comp_field_params cf1 src
        in complete_comp_field_loop rc1 cf2 req
      else complete_comp_field_loop rc cf req)"

definition gprs_sndcp_complete_comp_field :: "comp_field \<Rightarrow> comp_field list \<Rightarrow> int \<times> comp_field" where
  "gprs_sndcp_complete_comp_field cf comp_fields = complete_comp_field_loop 0 cf comp_fields"

text \<open>The list as it is after the call, completed up to the first field that fails.\<close>

fun gprs_sndcp_complete_comp_fields :: "comp_field list \<Rightarrow> comp_field list \<Rightarrow> int \<times> comp_field list" where
  "gprs_sndcp_complete_comp_fields [] comp_fields = (0, [])"
| "gprs_sndcp_complete_comp_fields (cf # incomplete) comp_fields =
     (let (rc, cf') = gprs_sndcp_complete_comp_field cf comp_fields in
      if rc < 0 then (- EINVAL, cf' # incomplete)
      else let (rc', rest) = gprs_sndcp_complete_comp_fields incomplete comp_fields in (rc', cf' # rest))"

text \<open>
  \<open>gprs_sndcp_parse_xid\<close>: \<open>None\<close> is the NULL it returns.  After a failed
  \<open>gprs_sndcp_decode_xid\<close> it frees the list again, which that function has freed already.
\<close>

definition talloc_free_list :: "comp_field list option \<Rightarrow> unit exec" where
  "talloc_free_list l = (case l of None \<Rightarrow> Inl Double_free | Some _ \<Rightarrow> Inr ())"

definition gprs_sndcp_parse_xid ::
  "tlv_parse_fn \<Rightarrow> int option \<Rightarrow> octets \<Rightarrow> u32 \<Rightarrow> comp_field list option \<Rightarrow>
   (int option \<times> comp_field list option) exec" where
  "gprs_sndcp_parse_xid tlv_parse_one version src src_len comp_fields_req =
     (if src_len = 0 then Inr (version, None)
      else case comp_fields_req of
        Some req \<Rightarrow>
          ebind (gprs_sndcp_fill_table req) (\<lambda>lt.
          ebind (gprs_sndcp_decode_xid tlv_parse_one version src src_len (Some lt)) (\<lambda>(rc, version, comp_fields).
          if rc < 0 then ebind (talloc_free_list comp_fields) (\<lambda>_. Inr (version, None))
          else case comp_fields of
            None \<Rightarrow> Inr (version, None)
          | Some fs \<Rightarrow>
              let (rc, fs) = gprs_sndcp_complete_comp_fields fs req in
              if rc < 0 then Inr (version, None) else Inr (version, Some fs)))
      | None \<Rightarrow>
          ebind (gprs_sndcp_decode_xid tlv_parse_one version src src_len None) (\<lambda>(rc, version, comp_fields).
          if rc < 0 then ebind (talloc_free_list comp_fields) (\<lambda>_. Inr (version, None))
          else Inr (version, comp_fields)))"

end
