(* ===== verification/Sndcp.thy ===== *)
theory Sndcp
  imports Sndcp_Comp Sndcp_Xid Llc_Frames
begin

unbundle bit_operations_syntax

section \<open>SNDCP (src/src/sgsn/gprs\_sndcp.c)\<close>

text \<open>
  The SNDCP entities, reassembly and fragmentation of N-PDUs, and the negotiation of
  compression.  An entity is identified by its LLC entity (the address of the LLME and the
  SAPI) and its NSAPI; \<open>sn_entities\<close> is \<^verbatim>\<open>gprs_sndcp_entities\<close> from head to tail.
  The compression entity lists of the LLMEs live in a store \<open>sn_comp\<close> by address, so
  that a list that has been freed is recognised when it is used again.

  The layer below is the function \<open>tx\<close> that sends one SN-PDU (\<^verbatim>\<open>gprs_llc_tx_ui\<close> with the
  arguments that stay fixed over a call).  N-PDUs handed up are recorded in \<open>sn_out\<close>; the
  functions reached from there (\<^verbatim>\<open>gprs_gb_recv_pdu\<close>, \<^verbatim>\<open>sgsn_gtp_data_req\<close>) belong to other
  components.  Memory is available; only the refusal of \<^verbatim>\<open>talloc\<close> to allocate
  256 MiB or more is modelled.
\<close>

subsection \<open>Data\<close>

record defrag_state =
  df_npdu :: u16
  df_highest_seg :: u8
  df_seg_have :: u32
  df_no_more :: bool
  df_tot_len :: u32
  df_frags :: "(u8 \<times> octets) list"
  df_pcomp :: u8
  df_dcomp :: u8
  df_comp :: "(nat \<times> nat) option"

record sndcp_entity =
  sne_lle :: "nat \<times> nat"
  sne_nsapi :: u8
  sne_rai :: "octets option"
  sne_tx_npdu_nr :: u16
  sne_defrag :: defrag_state

datatype sndcp_event =
  Gb_recv_pdu u32
| Gtp_data_req "octets option" "nat \<times> nat" u8 octets

record 's sndcp =
  sn_entities :: "sndcp_entity list"
  sn_comp :: "nat \<Rightarrow> 's comp_entity list option"
  sn_llme_comp :: "nat \<Rightarrow> (nat \<times> nat) option"
  sn_next :: nat
  sn_out :: "sndcp_event list"

text \<open>The part of the configuration that SNDCP reads.\<close>

record sndcp_cfg =
  cfg_rfc1144_active :: bool
  cfg_rfc1144_passive :: bool
  cfg_rfc1144_s01 :: int
  cfg_v42bis_active :: bool
  cfg_v42bis_passive :: bool
  cfg_v42bis_p0 :: int
  cfg_v42bis_p1 :: int
  cfg_v42bis_p2 :: int

definition any_pcomp_or_dcomp_active :: "sndcp_cfg \<Rightarrow> bool" where
  "any_pcomp_or_dcomp_active cfg \<longleftrightarrow>
     cfg_rfc1144_active cfg \<or> cfg_rfc1144_passive cfg \<or> cfg_v42bis_active cfg \<or> cfg_v42bis_passive cfg"

definition sn_emit :: "sndcp_event \<Rightarrow> 's sndcp \<Rightarrow> 's sndcp" where
  "sn_emit e st = st\<lparr>sn_out := sn_out st @ [e]\<rparr>"

subsection \<open>Headers\<close>

text \<open>
  \<open>struct sndcp_common_hdr\<close>, \<open>struct sndcp_comp_hdr\<close> and \<open>struct sndcp_udata_hdr\<close> as
  their octets.
\<close>

definition common_hdr :: "u8 \<Rightarrow> bool \<Rightarrow> bool \<Rightarrow> u8" where
  "common_hdr nsapi fst_seg has_more =
     (nsapi AND 0x0f) OR (if has_more then 0x10 else 0) OR 0x20 OR (if fst_seg then 0x40 else 0)"

definition comp_hdr :: "u8 \<Rightarrow> u8 \<Rightarrow> u8" where
  "comp_hdr pcomp dcomp = (pcomp AND 0x0f) OR push_bit 4 dcomp"

definition udata_hdr :: "u16 \<Rightarrow> u8 \<Rightarrow> octets" where
  "udata_hdr npdu seg_nr =
     [(ucast (drop_bit 8 npdu) AND 0x0f) OR push_bit 4 seg_nr, ucast (npdu AND 0xff)]"

definition sch_nsapi :: "u8 \<Rightarrow> u8" where "sch_nsapi b = b AND 0x0f"
definition sch_more :: "u8 \<Rightarrow> bool" where "sch_more b = bit b 4"
definition sch_type :: "u8 \<Rightarrow> bool" where "sch_type b = bit b 5"
definition sch_first :: "u8 \<Rightarrow> bool" where "sch_first b = bit b 6"
definition scomph_pcomp :: "u8 \<Rightarrow> u8" where "scomph_pcomp b = b AND 0x0f"
definition scomph_dcomp :: "u8 \<Rightarrow> u8" where "scomph_dcomp b = drop_bit 4 b"
definition suh_seg_nr :: "u8 \<Rightarrow> u8" where "suh_seg_nr b = drop_bit 4 b"
definition suh_npdu :: "u8 \<Rightarrow> u8 \<Rightarrow> u16" where
  "suh_npdu b0 b1 = push_bit 8 (ucast (b0 AND 0x0f)) OR ucast b1"

subsection \<open>Reassembly\<close>

definition empty_defrag :: defrag_state where
  "empty_defrag = \<lparr>df_npdu = 0, df_highest_seg = 0, df_seg_have = 0, df_no_more = False, df_tot_len = 0,
     df_frags = [], df_pcomp = 0, df_dcomp = 0, df_comp = None\<rparr>"

definition MAX_TALLOC_SIZE :: u32 where "MAX_TALLOC_SIZE = 0x10000000"

text \<open>\<open>mem\<close> is the memory from \<open>data\<close> on.\<close>

definition defrag_enqueue :: "u8 \<Rightarrow> octets \<Rightarrow> u32 \<Rightarrow> defrag_state \<Rightarrow> (int \<times> defrag_state) exec" where
  "defrag_enqueue seg_nr mem data_len d =
     (if data_len \<ge> MAX_TALLOC_SIZE then Inr (- ENOMEM, d)
      else if unat data_len > length mem then Inl Oob_access
      else Inr (0, d\<lparr>
        df_frags := (seg_nr, take (unat data_len) mem) # df_frags d,
        df_highest_seg := (if seg_nr > df_highest_seg d then seg_nr else df_highest_seg d),
        df_seg_have := df_seg_have d OR push_bit (unat seg_nr) 1,
        df_tot_len := df_tot_len d + data_len\<rparr>))"

text \<open>The bitmask of the segments up to the highest one.\<close>

definition seg_needed :: "u8 \<Rightarrow> u32" where
  "seg_needed highest_seg = fold (\<lambda>i needed. needed OR push_bit i 1) [0..<Suc (unat highest_seg)] 0"

definition defrag_have_all_segments :: "defrag_state \<Rightarrow> bool" where
  "defrag_have_all_segments d \<longleftrightarrow>
     seg_needed (df_highest_seg d) = df_seg_have d"

text \<open>\<open>defrag_get_seg\<close>: the first fragment with the number and the list without it.\<close>

fun defrag_get_seg :: "(u8 \<times> octets) list \<Rightarrow> u32 \<Rightarrow> (octets \<times> (u8 \<times> octets) list) option" where
  "defrag_get_seg [] seg_nr = None"
| "defrag_get_seg ((n, bs) # fs) seg_nr =
     (if ucast n = seg_nr then Some (bs, fs)
      else map_option (\<lambda>(r, fs). (r, (n, bs) # fs)) (defrag_get_seg fs seg_nr))"

text \<open>
  The loop of \<open>defrag_segments\<close>: the segments \<open>seg_nr .. seg_nr + n - 1\<close> are taken off
  the list and appended; the message buffer has \<open>room\<close> octets left.
\<close>

fun defrag_concat :: "nat \<Rightarrow> nat \<Rightarrow> nat \<Rightarrow> octets \<Rightarrow> (u8 \<times> octets) list \<Rightarrow> (octets option \<times> (u8 \<times> octets) list) exec" where
  "defrag_concat 0 seg_nr room npdu fs = Inr (Some npdu, fs)"
| "defrag_concat (Suc n) seg_nr room npdu fs =
     (case defrag_get_seg fs (word_of_nat seg_nr) of
        None \<Rightarrow> Inr (None, fs)
      | Some (bs, fs) \<Rightarrow>
          if length bs > room then Inl Assert_fail
          else defrag_concat n (Suc seg_nr) (room - length bs) (npdu @ bs) fs)"

text \<open>
  Decompression with the lists remembered for the packet: first the data, then the header.
  \<open>None\<close> is NULL.
\<close>

definition comp_list :: "'s sndcp \<Rightarrow> nat option \<Rightarrow> 's comp_entity list exec" where
  "comp_list st a =
     (case a of None \<Rightarrow> Inl Assert_fail
      | Some a \<Rightarrow> (case sn_comp st a of None \<Rightarrow> Inl Oob_access | Some cl \<Rightarrow> Inr cl))"

definition decompress_segment ::
  "'s codec \<Rightarrow> defrag_state \<Rightarrow> octets \<Rightarrow> 's sndcp \<Rightarrow> (octets option \<times> 's sndcp) exec" where
  "decompress_segment cd d data st =
     (let cap = length data * MAX_DATADECOMPR_FAC + MAX_HDRDECOMPR_INCR;
          proto = map_option fst (df_comp d); dat = map_option snd (df_comp d) in
      ebind (comp_list st dat) (\<lambda>cl.
      ebind (gprs_sndcp_dcomp_expand cd cap data (df_dcomp d) cl) (\<lambda>((rc, expnd), cl).
      let st = st\<lparr>sn_comp := (sn_comp st)(the dat \<mapsto> cl)\<rparr> in
      if rc < 0 then Inr (None, st)
      else
        ebind (comp_list st proto) (\<lambda>cl.
        ebind (gprs_sndcp_pcomp_expand cd cap (take (nat rc) expnd) (df_pcomp d) cl) (\<lambda>((rc, expnd), cl).
        let st = st\<lparr>sn_comp := (sn_comp st)(the proto \<mapsto> cl)\<rparr> in
        if rc < 0 then Inr (None, st) else Inr (Some (take (nat rc) expnd), st))))))"

definition sndcp_sn_unitdata_ind :: "int \<Rightarrow> sndcp_entity \<Rightarrow> octets \<Rightarrow> 's sndcp \<Rightarrow> int \<times> 's sndcp" where
  "sndcp_sn_unitdata_ind gtp_rc sne npdu st =
     (gtp_rc, sn_emit (Gtp_data_req (sne_rai sne) (sne_lle sne) (sne_nsapi sne) npdu) st)"

text \<open>
  What follows the reassembly of an N-PDU and the receipt of an unfragmented one:
  decompression when any compression is configured, and the hand-over.
\<close>

definition deliver_npdu ::
  "sndcp_cfg \<Rightarrow> 's codec \<Rightarrow> int \<Rightarrow> sndcp_entity \<Rightarrow> octets \<Rightarrow> 's sndcp \<Rightarrow> (int \<times> 's sndcp) exec" where
  "deliver_npdu cfg cd gtp_rc sne npdu st =
     (if any_pcomp_or_dcomp_active cfg then
        ebind (decompress_segment cd (sne_defrag sne) npdu st) (\<lambda>(expnd, st).
        case expnd of None \<Rightarrow> Inr (- EIO, st)
        | Some expnd \<Rightarrow> Inr (sndcp_sn_unitdata_ind gtp_rc sne expnd st))
      else Inr (sndcp_sn_unitdata_ind gtp_rc sne npdu st))"

definition sne_upd :: "nat \<times> nat \<Rightarrow> u8 \<Rightarrow> (sndcp_entity \<Rightarrow> sndcp_entity) \<Rightarrow> 's sndcp \<Rightarrow> 's sndcp" where
  "sne_upd lle nsapi f st =
     st\<lparr>sn_entities := upd_first (\<lambda>sne. sne_lle sne = lle \<and> sne_nsapi sne = nsapi) f (sn_entities st)\<rparr>"

definition sne_store :: "sndcp_entity \<Rightarrow> 's sndcp \<Rightarrow> 's sndcp" where
  "sne_store sne st = sne_upd (sne_lle sne) (sne_nsapi sne) (\<lambda>_. sne) st"

text \<open>
  \<^verbatim>\<open>msgb_alloc_headroom\<close> takes its size as a \<^verbatim>\<open>uint16_t\<close> and zeroes the buffer:
  the octets there are behind the headroom of 128.  \<^verbatim>\<open>msgb_put\<close> aborts when they do not
  suffice.  The length of the N-PDU is the total length of all segments queued, which may be
  more than what was appended.
\<close>

definition defrag_room :: "u32 \<Rightarrow> nat" where
  "defrag_room tot_len = unat (tot_len + 256) mod 65536 - 128"

definition defrag_segments ::
  "sndcp_cfg \<Rightarrow> 's codec \<Rightarrow> int \<Rightarrow> sndcp_entity \<Rightarrow> 's sndcp \<Rightarrow> (int \<times> 's sndcp) exec" where
  "defrag_segments cfg cd gtp_rc sne st =
     (let d = sne_defrag sne; room = defrag_room (df_tot_len d); npdu_len = unat (df_tot_len d) in
      ebind (defrag_concat (Suc (unat (df_highest_seg d))) 0 room [] (df_frags d)) (\<lambda>(npdu, fs).
      let sne = sne\<lparr>sne_defrag := d\<lparr>df_frags := fs\<rparr>\<rparr>; st = sne_store sne st in
      case npdu of
        None \<Rightarrow> Inr (- EIO, st)
      | Some npdu \<Rightarrow>
          if npdu_len > room then Inl Oob_access
          else deliver_npdu cfg cd gtp_rc sne (take npdu_len (npdu @ replicate npdu_len 0)) st))"

text \<open>
  \<open>defrag_input\<close>: the first segment of a packet discards what is left of the previous one.
\<close>

definition defrag_first :: "u16 \<Rightarrow> defrag_state \<Rightarrow> defrag_state" where
  "defrag_first npdu_num d =
     d\<lparr>df_frags := [], df_npdu := npdu_num, df_no_more := False, df_highest_seg := 0, df_seg_have := 0, df_tot_len := 0\<rparr>"

definition hdr_len :: "u8 \<Rightarrow> nat" where
  "hdr_len b = (if sch_first b then 4 else 3)"

text \<open>With the segment queued: the packet is put together once the last segment and all others are there.\<close>

definition defrag_check ::
  "sndcp_cfg \<Rightarrow> 's codec \<Rightarrow> int \<Rightarrow> sndcp_entity \<Rightarrow> u8 \<Rightarrow> defrag_state \<Rightarrow> 's sndcp \<Rightarrow> (int \<times> 's sndcp) exec" where
  "defrag_check cfg cd gtp_rc sne sch d st =
     (let d = (if sch_more sch then d else d\<lparr>df_no_more := True\<rparr>);
          sne = sne\<lparr>sne_defrag := d\<rparr>; st = sne_store sne st in
      if df_no_more d \<and> defrag_have_all_segments d then defrag_segments cfg cd gtp_rc sne st
      else Inr (0, st))"

definition defrag_input ::
  "sndcp_cfg \<Rightarrow> 's codec \<Rightarrow> int \<Rightarrow> sndcp_entity \<Rightarrow> octets \<Rightarrow> nat \<Rightarrow> 's sndcp \<Rightarrow> (int \<times> 's sndcp) exec" where
  "defrag_input cfg cd gtp_rc sne mem len st =
     ebind (rd mem 0) (\<lambda>sch.
     ebind (rd mem (hdr_len sch - 2)) (\<lambda>b0. ebind (rd mem (hdr_len sch - 1)) (\<lambda>b1.
     let d = (if sch_first sch then defrag_first (suh_npdu b0 b1) (sne_defrag sne) else sne_defrag sne) in
     ebind (defrag_enqueue (suh_seg_nr b0) (drop (hdr_len sch) mem) (word_of_int (int len - int (hdr_len sch))) d) (\<lambda>(rc, d).
     if rc < 0 then Inr (rc, sne_store (sne\<lparr>sne_defrag := d\<rparr>) st)
     else defrag_check cfg cd gtp_rc sne sch d st))))"

subsection \<open>Entities\<close>

definition gprs_sndcp_entity_by_lle :: "'s sndcp \<Rightarrow> nat \<times> nat \<Rightarrow> u8 \<Rightarrow> sndcp_entity option" where
  "gprs_sndcp_entity_by_lle st lle nsapi =
     find (\<lambda>sne. sne_lle sne = lle \<and> sne_nsapi sne = nsapi) (sn_entities st)"

definition gprs_sndcp_entity_alloc :: "nat \<times> nat \<Rightarrow> u8 \<Rightarrow> 's sndcp \<Rightarrow> 's sndcp" where
  "gprs_sndcp_entity_alloc lle nsapi st =
     st\<lparr>sn_entities := \<lparr>sne_lle = lle, sne_nsapi = nsapi, sne_rai = None, sne_tx_npdu_nr = 0,
                        sne_defrag = empty_defrag\<rparr> # sn_entities st\<rparr>"

definition sndcp_sm_activate_ind :: "nat \<times> nat \<Rightarrow> u8 \<Rightarrow> 's sndcp \<Rightarrow> int \<times> 's sndcp" where
  "sndcp_sm_activate_ind lle nsapi st =
     (if gprs_sndcp_entity_by_lle st lle nsapi \<noteq> None then (- EEXIST, st)
      else (0, gprs_sndcp_entity_alloc lle nsapi st))"

definition sndcp_sm_deactivate_ind :: "nat \<times> nat \<Rightarrow> u8 \<Rightarrow> 's sndcp \<Rightarrow> int \<times> 's sndcp" where
  "sndcp_sm_deactivate_ind lle nsapi st =
     (if gprs_sndcp_entity_by_lle st lle nsapi = None then (- ENOENT, st)
      else (0, st\<lparr>sn_entities := remove_first (\<lambda>sne. sne_lle sne = lle \<and> sne_nsapi sne = nsapi) (sn_entities st)\<rparr>))"

definition gprs_sndcp_sm_deactivate_ind_by_llme :: "nat \<Rightarrow> 's sndcp \<Rightarrow> 's sndcp" where
  "gprs_sndcp_sm_deactivate_ind_by_llme llme st =
     fold (\<lambda>sne st. if fst (sne_lle sne) = llme
                    then snd (sndcp_sm_deactivate_ind (sne_lle sne) (sne_nsapi sne) st) else st)
       (sn_entities st) st"

subsection \<open>Fragmentation\<close>

text \<open>
  One SN-PDU of \<open>sndcp_send_ud_frag\<close>: the payload it carries is the longest that fits into
  N201-U, computed in \<^verbatim>\<open>unsigned int\<close>.  \<open>rest\<close> are the octets from \<open>next_byte\<close> on.
\<close>

definition max_payload_len :: "u16 \<Rightarrow> bool \<Rightarrow> u32" where
  "max_payload_len n201_u fst_seg = ucast n201_u - 3 - (if fst_seg then 1 else 0)"

definition frag_len :: "u16 \<Rightarrow> u8 \<Rightarrow> octets \<Rightarrow> nat" where
  "frag_len n201_u frag_nr rest = min (length rest) (unat (max_payload_len n201_u (frag_nr = 0)))"

definition frag_pdu :: "u16 \<Rightarrow> u8 \<Rightarrow> u16 \<Rightarrow> u8 \<Rightarrow> u8 \<Rightarrow> u8 \<Rightarrow> octets \<Rightarrow> octets" where
  "frag_pdu n201_u nsapi npdu_nr pcomp dcomp frag_nr rest =
     (let n = frag_len n201_u frag_nr rest; has_more = (n < length rest) in
      [common_hdr nsapi (frag_nr = 0) has_more] @ (if frag_nr = 0 then [comp_hdr pcomp dcomp] else []) @
      udata_hdr npdu_nr (frag_nr mod 0xf) @ take n rest)"

definition next_npdu_nr :: "u16 \<Rightarrow> u16" where
  "next_npdu_nr nr = (nr + 1) mod 0xfff"

text \<open>
  \<open>sndcp_send_ud_frag\<close> and the loop around it: \<open>Inr (rc, nr, l)\<close> is the return code, the
  number of the next N-PDU and the state of the layer below.  The fragment must fit into its message
  buffer, which has 128 octets more than N201-U behind the headroom.
\<close>

function sndcp_frag_loop ::
  "(octets \<Rightarrow> 'l \<Rightarrow> (int \<times> 'l) exec) \<Rightarrow> u16 \<Rightarrow> u8 \<Rightarrow> u16 \<Rightarrow> u8 \<Rightarrow> u8 \<Rightarrow> u8 \<Rightarrow> octets \<Rightarrow> 'l \<Rightarrow> (int \<times> u16 \<times> 'l) exec" where
  "sndcp_frag_loop tx n201_u nsapi npdu_nr pcomp dcomp frag_nr rest l =
     (let pdu = frag_pdu n201_u nsapi npdu_nr pcomp dcomp frag_nr rest;
          rest' = drop (frag_len n201_u frag_nr rest) rest
      in if length pdu > unat n201_u + 128 then Inl Assert_fail
         else case tx pdu l of
           Inl e \<Rightarrow> Inl e
         | Inr (rc, l) \<Rightarrow>
             if rc < 0 then Inr (rc, npdu_nr, l)
             else if rest' = [] then Inr (0, next_npdu_nr npdu_nr, l)
             else sndcp_frag_loop tx n201_u nsapi npdu_nr pcomp dcomp (frag_nr + 1) rest' l)"
  by pat_completeness auto

text \<open>
  The loop ends: a fragment carries at least one octet, or it is the empty first one of an
  N201-U of 4, or (N201-U is 3) the fragment number runs on to its wrap-around, where the
  size of the payload wraps around too.
\<close>

definition frag_stall :: "u16 \<Rightarrow> u8 \<Rightarrow> nat" where
  "frag_stall n201_u frag_nr = (if n201_u = 4 then (if frag_nr = 0 then 1 else 0) else unat (- frag_nr))"

lemma frag_len_0:
  assumes "frag_len n201_u frag_nr rest = 0" and "rest \<noteq> []"
  shows "frag_stall n201_u (frag_nr + 1) < frag_stall n201_u frag_nr"
proof -
  have m: "max_payload_len n201_u (frag_nr = 0) = 0"
    using assms by (auto simp: frag_len_def min_def unat_eq_0 split: if_splits)
  show ?thesis
  proof (cases "frag_nr = 0")
    case True
    with m have "ucast n201_u = (ucast (4 :: u16) :: u32)" by (simp add: max_payload_len_def)
    then have "n201_u = 4" by (simp only: ucast_u16_u32_inj)
    with True show ?thesis by (simp add: frag_stall_def)
  next
    case False
    with m have "ucast n201_u = (ucast (3 :: u16) :: u32)" by (simp add: max_payload_len_def)
    then have "n201_u = 3" by (simp only: ucast_u16_u32_inj)
    moreover have "unat (- (frag_nr + 1)) < unat (- frag_nr)"
    proof -
      have "- frag_nr \<noteq> 0" using False by simp
      then have "0 < unat (- frag_nr)" by (metis unat_gt_0)
      then show ?thesis using False by (simp add: unat_minus_one)
    qed
    ultimately show ?thesis by (simp add: frag_stall_def)
  qed
qed

termination sndcp_frag_loop
proof (relation "measures [\<lambda>(tx, n201_u, nsapi, npdu_nr, pcomp, dcomp, frag_nr, rest, l). length rest,
    \<lambda>(tx, n201_u, nsapi, npdu_nr, pcomp, dcomp, frag_nr, rest, l). frag_stall n201_u frag_nr]", goal_cases)
  case 1
  then show ?case by simp
next
  case (2 tx n201_u nsapi npdu_nr pcomp dcomp frag_nr rest l pdu rest')
  then have "rest \<noteq> []" by auto
  then show ?case
    using 2 frag_len_0 [of n201_u frag_nr rest] by (cases "frag_len n201_u frag_nr rest = 0") auto
qed

declare sndcp_frag_loop.simps [simp del]

text \<open>
  \<open>sndcp_sn_unitdata_req\<close>: the comparison that decides about fragmentation is made in \<^verbatim>\<open>size_t\<close>.
\<close>

definition needs_frag :: "u16 \<Rightarrow> nat \<Rightarrow> bool" where
  "needs_frag n201_u len \<longleftrightarrow> int len > (uint n201_u - 4) mod 2 ^ 64"

definition compress_npdu ::
  "sndcp_cfg \<Rightarrow> 's codec \<Rightarrow> octets \<Rightarrow> nat \<Rightarrow> u8 \<Rightarrow> 's sndcp \<Rightarrow> ((octets \<times> u8 \<times> u8) option \<times> 's sndcp) exec" where
  "compress_npdu cfg cd msg llme nsapi st =
     (if any_pcomp_or_dcomp_active cfg then
        let proto = map_option fst (sn_llme_comp st llme); dat = map_option snd (sn_llme_comp st llme) in
        ebind (comp_list st proto) (\<lambda>cl.
        ebind (gprs_sndcp_pcomp_compress cd msg cl nsapi) (\<lambda>((rc, msg, pcomp), cl).
        let st = st\<lparr>sn_comp := (sn_comp st)(the proto \<mapsto> cl)\<rparr> in
        if rc < 0 then Inr (None, st)
        else if nat rc > length msg then Inl Oob_access
        else
          ebind (comp_list st dat) (\<lambda>cl.
          ebind (gprs_sndcp_dcomp_compress cd (take (nat rc) msg) cl nsapi) (\<lambda>((rc, msg, dcomp), cl).
          let st = st\<lparr>sn_comp := (sn_comp st)(the dat \<mapsto> cl)\<rparr> in
          if rc < 0 then Inr (None, st)
          else if nat rc > length msg then Inl Oob_access
          else Inr (Some (take (nat rc) msg, pcomp, dcomp), st)))))
      else Inr (Some (msg, 0, 0), st))"

definition sndcp_sn_unitdata_req ::
  "sndcp_cfg \<Rightarrow> 's codec \<Rightarrow> (octets \<Rightarrow> 'l \<Rightarrow> (int \<times> 'l) exec) \<Rightarrow> u16 \<Rightarrow> octets \<Rightarrow> nat \<times> nat \<Rightarrow> u8 \<Rightarrow>
   's sndcp \<Rightarrow> 'l \<Rightarrow> (int \<times> 's sndcp \<times> 'l) exec" where
  "sndcp_sn_unitdata_req cfg cd tx n201_u msg lle nsapi st l =
     ebind (compress_npdu cfg cd msg (fst lle) nsapi st) (\<lambda>(r, st).
     case r of
       None \<Rightarrow> Inr (- EIO, st, l)
     | Some (msg, pcomp, dcomp) \<Rightarrow>
         (case gprs_sndcp_entity_by_lle st lle nsapi of
            None \<Rightarrow> Inr (- EIO, st, l)
          | Some sne \<Rightarrow>
              if needs_frag n201_u (length msg) then
                ebind (sndcp_frag_loop tx n201_u (sne_nsapi sne) (sne_tx_npdu_nr sne) pcomp dcomp 0 msg l) (\<lambda>(rc, nr, l).
                  Inr (rc, sne_store (sne\<lparr>sne_tx_npdu_nr := nr\<rparr>) st, l))
              else
                let pdu = [common_hdr nsapi True False, comp_hdr pcomp dcomp] @ udata_hdr (sne_tx_npdu_nr sne) 0 @ msg;
                    st = sne_store (sne\<lparr>sne_tx_npdu_nr := next_npdu_nr (sne_tx_npdu_nr sne)\<rparr>) st
                in ebind (tx pdu l) (\<lambda>(rc, l). Inr (rc, st, l))))"

subsection \<open>Receiving an SN-PDU\<close>

text \<open>
  \<open>sndcp_ll_unitdata_ind\<close>: \<open>mem\<close> is the memory from \<open>hdr\<close> on and \<open>len\<close> the length of the
  SN-PDU in it.  \<open>cell_id\<close> are the octets of the BSSGP cell identifier, from which the
  routing area of the entity is parsed, and \<open>mm_by_tlli\<close> tells whether a mobility
  management context is found with it.
\<close>

definition take_comp_hdr :: "u8 \<Rightarrow> octets \<Rightarrow> (nat \<times> nat) option \<Rightarrow> sndcp_entity \<Rightarrow> sndcp_entity exec" where
  "take_comp_hdr sch mem comp_lists sne =
     (if sch_first sch then
        ebind (rd mem 1) (\<lambda>b. Inr (sne\<lparr>sne_defrag := (sne_defrag sne)\<lparr>df_pcomp := scomph_pcomp b,
          df_dcomp := scomph_dcomp b, df_comp := comp_lists\<rparr>\<rparr>))
      else Inr sne)"

definition ll_unitdata_sne ::
  "sndcp_cfg \<Rightarrow> 's codec \<Rightarrow> int \<Rightarrow> u8 \<Rightarrow> octets \<Rightarrow> nat \<Rightarrow> sndcp_entity \<Rightarrow> 's sndcp \<Rightarrow> (int \<times> 's sndcp) exec" where
  "ll_unitdata_sne cfg cd gtp_rc sch mem len sne st =
     (let st = sne_store sne st in
      if \<not> sch_first sch \<or> sch_more sch then defrag_input cfg cd gtp_rc sne mem len st
      else if len \<le> 4 then Inr (- EIO, st)
      else deliver_npdu cfg cd gtp_rc sne (take (len - 4) (drop 4 mem)) st)"

definition sndcp_ll_unitdata_ind ::
  "sndcp_cfg \<Rightarrow> 's codec \<Rightarrow> int \<Rightarrow> (u32 \<Rightarrow> octets \<Rightarrow> bool) \<Rightarrow> u32 \<Rightarrow> octets \<Rightarrow> nat \<times> nat \<Rightarrow> octets \<Rightarrow> nat \<Rightarrow>
   's sndcp \<Rightarrow> (int \<times> 's sndcp) exec" where
  "sndcp_ll_unitdata_ind cfg cd gtp_rc mm_by_tlli tlli cell_id lle mem len st =
     ebind (rd mem 0) (\<lambda>sch.
     if \<not> sch_type sch then Inr (- EINVAL, st)
     else if len < 3 then Inr (- EIO, st)
     else case gprs_sndcp_entity_by_lle st lle (sch_nsapi sch) of
       None \<Rightarrow> Inr (- EIO, st)
     | Some sne \<Rightarrow>
         let sne = sne\<lparr>sne_rai := Some cell_id\<rparr>; st = sne_store sne st in
         if \<not> mm_by_tlli tlli cell_id then Inr (- EIO, st)
         else
           let st = sn_emit (Gb_recv_pdu tlli) st in
           ebind (take_comp_hdr sch mem (sn_llme_comp st (fst lle)) sne) (\<lambda>sne.
             ll_unitdata_sne cfg cd gtp_rc sch mem len sne st))"

end
