(* ===== verification/Sndcp_Nego.thy ===== *)
theory Sndcp_Nego
  imports Sndcp
begin

section \<open>SNDCP: negotiation of compression (src/src/sgsn/gprs\_sndcp.c)\<close>

text \<open>
  The SNDCP-XID procedures: generating the network's request, answering an indication of
  the mobile and processing its confirmation.  Both handlers turn each compression field
  into its echo form (propose bit cleared, NSAPIs cleared when the algorithm is rejected) and
  create or delete the compression entity.
\<close>

subsection \<open>The compression lists of an LLME\<close>

definition on_comp ::
  "(nat \<times> nat \<Rightarrow> nat) \<Rightarrow> nat \<Rightarrow> ('s comp_entity list \<Rightarrow> 's comp_entity list exec) \<Rightarrow> 's sndcp \<Rightarrow> 's sndcp exec" where
  "on_comp sel llme f st =
     (let a = map_option sel (sn_llme_comp st llme) in
      ebind (comp_list st a) (\<lambda>cl. ebind (f cl) (\<lambda>cl.
        Inr (st\<lparr>sn_comp := (sn_comp st)(the a \<mapsto> cl)\<rparr>))))"

text \<open>Both lists of an LLME, allocated when it is (\<^verbatim>\<open>llme_alloc\<close>) and freed with it.\<close>

definition llme_comp_alloc :: "nat \<Rightarrow> 's sndcp \<Rightarrow> 's sndcp" where
  "llme_comp_alloc llme st =
     (let a = sn_next st in
      st\<lparr>sn_comp := (sn_comp st)(a \<mapsto> gprs_sndcp_comp_alloc, Suc a \<mapsto> gprs_sndcp_comp_alloc),
         sn_llme_comp := (sn_llme_comp st)(llme \<mapsto> (a, Suc a)), sn_next := Suc (Suc a)\<rparr>)"

definition llme_comp_free :: "nat \<Rightarrow> 's sndcp \<Rightarrow> 's sndcp exec" where
  "llme_comp_free llme st =
     (let proto = map_option fst (sn_llme_comp st llme); dat = map_option snd (sn_llme_comp st llme) in
      ebind (comp_list st proto) (\<lambda>cl. ebind (gprs_sndcp_comp_free cl) (\<lambda>_.
      let st = st\<lparr>sn_comp := (sn_comp st)(the proto := None)\<rparr> in
      ebind (comp_list st dat) (\<lambda>cl. ebind (gprs_sndcp_comp_free cl) (\<lambda>_.
        Inr (st\<lparr>sn_comp := (sn_comp st)(the dat := None)\<rparr>))))))"

text \<open>What \<^verbatim>\<open>llme_free\<close> does to SNDCP.\<close>

definition sndcp_llme_free :: "nat \<Rightarrow> 's sndcp \<Rightarrow> 's sndcp exec" where
  "sndcp_llme_free llme st =
     ebind (llme_comp_free llme (gprs_sndcp_sm_deactivate_ind_by_llme llme st)) (\<lambda>st.
       Inr (st\<lparr>sn_llme_comp := (sn_llme_comp st)(llme := None)\<rparr>))"

subsection \<open>The request of the network\<close>

definition gen_comp_fields :: "sndcp_cfg \<Rightarrow> u8 \<Rightarrow> comp_field list" where
  "gen_comp_fields cfg nsapi =
     (let rfc1144 = (if cfg_rfc1144_active cfg then
            [zero_comp_field\<lparr>cf_p := True, cf_entity := 0, cf_algo := RFC_1144, cf_comp := [1, 2],
               cf_rfc1144 := Some \<lparr>rfc1144_nsapi = [nsapi], rfc1144_s01 = cfg_rfc1144_s01 cfg\<rparr>\<rparr>] else []);
          v42bis = (if cfg_v42bis_active cfg then
            [zero_comp_field\<lparr>cf_p := True, cf_entity := length rfc1144, cf_algo := V42BIS, cf_comp := [1],
               cf_v42bis := Some \<lparr>v42bis_nsapi = [nsapi], v42bis_p0 = cfg_v42bis_p0 cfg,
                 v42bis_p1 = cfg_v42bis_p1 cfg, v42bis_p2 = cfg_v42bis_p2 cfg\<rparr>\<rparr>] else [])
      in v42bis @ rfc1144)"

definition gprs_llc_gen_sndcp_xid :: "tlv_put_fn \<Rightarrow> sndcp_cfg \<Rightarrow> nat \<Rightarrow> u8 \<Rightarrow> (int \<times> octets) exec" where
  "gprs_llc_gen_sndcp_xid tlv_put cfg bytes_len nsapi =
     (let comp_fields = gen_comp_fields cfg nsapi in
      if comp_fields = [] then Inr (0, [])
      else gprs_sndcp_compile_xid tlv_put bytes_len comp_fields 0)"

definition sndcp_sn_xid_req ::
  "tlv_put_fn \<Rightarrow> sndcp_cfg \<Rightarrow> nat \<times> nat \<Rightarrow> u8 \<Rightarrow> 's sndcp \<Rightarrow> llc \<Rightarrow> (int \<times> 's sndcp \<times> llc) exec" where
  "sndcp_sn_xid_req tlv_put cfg lle nsapi st llc =
     ebind (llme_comp_free (fst lle) st) (\<lambda>st.
     let st = llme_comp_alloc (fst lle) st;
         llc = llme_upd (fst lle) (lle_upd (snd lle) (\<lambda>l. l\<lparr>lle_xid := None\<rparr>)) llc in
     ebind (gprs_llc_gen_sndcp_xid tlv_put cfg 1024 nsapi) (\<lambda>(xid_len, l3params).
     ebind (gprs_ll_xid_req (fst lle) (snd lle)
              (if xid_len > 0
               then Some \<lparr>xid_type = XID_T_L3_PAR, xid_data = Some l3params, xid_data_len = nat xid_len\<rparr>
               else None) llc) (\<lambda>(rc, llc).
       Inr (rc, st, llc))))"

subsection \<open>Handling the fields of the mobile\<close>

definition handle_pcomp_entities ::
  "sndcp_cfg \<Rightarrow> 's codec \<Rightarrow> comp_field \<Rightarrow> nat \<Rightarrow> 's sndcp \<Rightarrow> (comp_field \<times> 's sndcp) exec" where
  "handle_pcomp_entities cfg cd cf llme st =
     (let cf = cf\<lparr>cf_p := False\<rparr> in
      if cf_algo cf = RFC_1144 then
        ebind (if cfg_rfc1144_passive cfg then ebind (deref (cf_rfc1144 cf)) (\<lambda>p. Inr (length (rfc1144_nsapi p) > 0))
               else Inr False) (\<lambda>accept.
        if accept then
          ebind (on_comp fst llme (\<lambda>cl. gprs_sndcp_comp_add cd cl cf) st) (\<lambda>st. Inr (cf, st))
        else
          ebind (on_comp fst llme (\<lambda>cl. gprs_sndcp_comp_delete cl (cf_entity cf)) st) (\<lambda>st.
          ebind (deref (cf_rfc1144 cf)) (\<lambda>p.
            Inr (cf\<lparr>cf_rfc1144 := Some (p\<lparr>rfc1144_nsapi := []\<rparr>)\<rparr>, st))))
      else if cf_algo cf = RFC_2507 then
        ebind (deref (cf_rfc2507 cf)) (\<lambda>p.
        ebind (on_comp fst llme (\<lambda>cl. gprs_sndcp_comp_delete cl (cf_entity cf)) st) (\<lambda>st.
          Inr (cf\<lparr>cf_rfc2507 := Some (p\<lparr>rfc2507_nsapi := []\<rparr>)\<rparr>, st)))
      else if cf_algo cf = ROHC then
        ebind (deref (cf_rohc cf)) (\<lambda>p.
        ebind (on_comp fst llme (\<lambda>cl. gprs_sndcp_comp_delete cl (cf_entity cf)) st) (\<lambda>st.
          Inr (cf\<lparr>cf_rohc := Some (p\<lparr>rohc_nsapi := []\<rparr>)\<rparr>, st)))
      else Inr (cf, st))"

definition handle_dcomp_entities ::
  "sndcp_cfg \<Rightarrow> 's codec \<Rightarrow> comp_field \<Rightarrow> nat \<Rightarrow> 's sndcp \<Rightarrow> (comp_field \<times> 's sndcp) exec" where
  "handle_dcomp_entities cfg cd cf llme st =
     (let cf = cf\<lparr>cf_p := False\<rparr> in
      if cf_algo cf = V42BIS then
        ebind (if cfg_v42bis_passive cfg then ebind (deref (cf_v42bis cf)) (\<lambda>p. Inr (length (v42bis_nsapi p) > 0))
               else Inr False) (\<lambda>accept.
        if accept then
          ebind (on_comp snd llme (\<lambda>cl. gprs_sndcp_comp_add cd cl cf) st) (\<lambda>st. Inr (cf, st))
        else
          ebind (on_comp snd llme (\<lambda>cl. gprs_sndcp_comp_delete cl (cf_entity cf)) st) (\<lambda>st.
          ebind (deref (cf_v42bis cf)) (\<lambda>p.
            Inr (cf\<lparr>cf_v42bis := Some (p\<lparr>v42bis_nsapi := []\<rparr>)\<rparr>, st))))
      else if cf_algo cf = V44 then
        ebind (deref (cf_v44 cf)) (\<lambda>p.
        ebind (on_comp snd llme (\<lambda>cl. gprs_sndcp_comp_delete cl (cf_entity cf)) st) (\<lambda>st.
          Inr (cf\<lparr>cf_v44 := Some (p\<lparr>v44_nsapi := []\<rparr>)\<rparr>, st)))
      else Inr (cf, st))"

text \<open>The loop both procedures run over the parsed fields; neither handler returns an error.\<close>

fun handle_comp_fields ::
  "sndcp_cfg \<Rightarrow> 's codec \<Rightarrow> comp_field list \<Rightarrow> nat \<Rightarrow> 's sndcp \<Rightarrow> (comp_field list \<times> 's sndcp) exec" where
  "handle_comp_fields cfg cd [] llme st = Inr ([], st)"
| "handle_comp_fields cfg cd (cf # cfs) llme st =
     ebind (case gprs_sndcp_get_compression_class cf of
              SNDCP_XID_PROTOCOL_COMPRESSION \<Rightarrow> handle_pcomp_entities cfg cd cf llme st
            | SNDCP_XID_DATA_COMPRESSION \<Rightarrow> handle_dcomp_entities cfg cd cf llme st
            | _ \<Rightarrow>
                ebind (on_comp fst llme (\<lambda>cl. gprs_sndcp_comp_delete cl (cf_entity cf)) st) (\<lambda>st.
                ebind (on_comp snd llme (\<lambda>cl. gprs_sndcp_comp_delete cl (cf_entity cf)) st) (\<lambda>st.
                  Inr (cf, st)))) (\<lambda>(cf, st).
     ebind (handle_comp_fields cfg cd cfs llme st) (\<lambda>(cfs, st). Inr (cf # cfs, st)))"

definition xid_octets :: "llc_xid_field \<Rightarrow> octets" where
  "xid_octets f = (case xid_data f of None \<Rightarrow> [] | Some d \<Rightarrow> d)"

definition sndcp_sn_xid_ind ::
  "tlv_put_fn \<Rightarrow> tlv_parse_fn \<Rightarrow> sndcp_cfg \<Rightarrow> 's codec \<Rightarrow> llc_xid_field \<Rightarrow> nat \<Rightarrow> 's sndcp \<Rightarrow>
   ((int \<times> llc_xid_field) \<times> 's sndcp) exec" where
  "sndcp_sn_xid_ind tlv_put tlv_parse_one cfg cd ind llme st =
     (if xid_data_len ind = 0 then Inr ((0, zero_xid_field\<lparr>xid_type := XID_T_L3_PAR\<rparr>), st)
      else
        ebind (gprs_sndcp_parse_xid tlv_parse_one (Some 0) (xid_octets ind) (word_of_nat (xid_data_len ind)) None)
          (\<lambda>(version, comp_fields).
        case comp_fields of
          None \<Rightarrow> Inr ((- EINVAL, zero_xid_field), st)
        | Some cfs \<Rightarrow>
            ebind (handle_comp_fields cfg cd cfs llme st) (\<lambda>(cfs, st).
            ebind (gprs_sndcp_compile_xid tlv_put (xid_data_len ind) cfs 0) (\<lambda>(rc, bytes).
            if rc > 0 then
              Inr ((0, \<lparr>xid_type = XID_T_L3_PAR, xid_data = Some bytes, xid_data_len = nat rc\<rparr>), st)
            else Inr ((- EINVAL, zero_xid_field\<lparr>xid_type := XID_T_L3_PAR\<rparr>), st)))))"

definition sndcp_sn_xid_conf ::
  "tlv_parse_fn \<Rightarrow> sndcp_cfg \<Rightarrow> 's codec \<Rightarrow> llc_xid_field \<Rightarrow> llc_xid_field \<Rightarrow> nat \<Rightarrow> 's sndcp \<Rightarrow> (int \<times> 's sndcp) exec" where
  "sndcp_sn_xid_conf tlv_parse_one cfg cd conf request llme st =
     ebind (gprs_sndcp_parse_xid tlv_parse_one None (xid_octets request) (word_of_nat (xid_data_len request)) None)
       (\<lambda>(_, comp_fields_req).
     case comp_fields_req of
       None \<Rightarrow> Inr (- EINVAL, st)
     | Some req \<Rightarrow>
         ebind (gprs_sndcp_parse_xid tlv_parse_one None (xid_octets conf) (word_of_nat (xid_data_len conf)) (Some req))
           (\<lambda>(_, comp_fields_conf).
         case comp_fields_conf of
           None \<Rightarrow> Inr (- EINVAL, st)
         | Some cfs \<Rightarrow> ebind (handle_comp_fields cfg cd cfs llme st) (\<lambda>(_, st). Inr (0, st))))"

end
