(* ===== verification/Sndcp_Frag.thy ===== *)
theory Sndcp_Frag
  imports Sndcp_Nego "HOL-Library.Multiset"
begin

unbundle bit_operations_syntax

section \<open>SNDCP: segmentation and reassembly\<close>

text \<open>
  The SN-PDUs that \<open>sndcp_sn_unitdata_req\<close> makes of an N-PDU, what the reassembly holds
  after some of them have arrived, and the theorem that ties the two together.
\<close>

subsection \<open>Headers\<close>

lemma mask_4_u8: "(0x0f :: u8) = mask 4" by (simp add: mask_eq_exp_minus_1)

lemma and_0f_small: "(x :: u8) \<le> 15 \<Longrightarrow> x AND 0x0f = x"
  by (drule bits_le_15, rule u8_eqI) (simp_all add: bit_simps mask_4_u8)

lemma common_hdr_fields [simp]:
  "sch_type (common_hdr nsapi f m)" "sch_first (common_hdr nsapi f m) = f" "sch_more (common_hdr nsapi f m) = m"
  by (simp_all add: sch_type_def sch_first_def sch_more_def common_hdr_def mask_4_u8 bit_simps)

lemma common_hdr_nsapi [simp]: "nsapi \<le> 15 \<Longrightarrow> sch_nsapi (common_hdr nsapi f m) = nsapi"
  by (drule bits_le_15, rule u8_eqI) (simp_all add: sch_nsapi_def common_hdr_def mask_4_u8 bit_simps)

lemma comp_hdr_fields [simp]:
  "pcomp \<le> 15 \<Longrightarrow> scomph_pcomp (comp_hdr pcomp dcomp) = pcomp"
  "dcomp \<le> 15 \<Longrightarrow> scomph_dcomp (comp_hdr pcomp dcomp) = dcomp"
  by (drule bits_le_15, rule u8_eqI; simp add: scomph_pcomp_def scomph_dcomp_def comp_hdr_def mask_4_u8 bit_simps)+

lemma udata_hdr_seg [simp]: "seg \<le> 15 \<Longrightarrow> suh_seg_nr (udata_hdr npdu seg ! 0) = seg"
  by (drule bits_le_15, rule u8_eqI) (simp_all add: suh_seg_nr_def udata_hdr_def mask_4_u8 bit_simps)

lemma udata_hdr_length [simp]: "length (udata_hdr npdu seg) = 2"
  by (simp add: udata_hdr_def)

subsection \<open>Reassembly\<close>

text \<open>Segments are numbered from 0 on; at most sixteen fit into the four bits of the number.\<close>

definition seg_entry :: "octets list \<Rightarrow> nat \<Rightarrow> u8 \<times> octets" where
  "seg_entry segs i = (word_of_nat i, segs ! i)"

text \<open>The state in which the segments \<open>S\<close> (latest first) of a packet have arrived.\<close>

definition defrag_has :: "octets list \<Rightarrow> nat list \<Rightarrow> defrag_state \<Rightarrow> bool" where
  "defrag_has segs S d \<longleftrightarrow>
     df_frags d = map (seg_entry segs) S \<and>
     (\<forall>k. bit (df_seg_have d) k \<longleftrightarrow> k \<in> set S) \<and>
     unat (df_highest_seg d) = Max (insert 0 (set S)) \<and>
     df_tot_len d = word_of_nat (\<Sum>i\<leftarrow>S. length (segs ! i)) \<and>
     (df_no_more d \<longleftrightarrow> length segs - 1 \<in> set S)"

definition segs_ok :: "octets list \<Rightarrow> bool" where
  "segs_ok segs \<longleftrightarrow> segs \<noteq> [] \<and> length segs \<le> 16 \<and> length (concat segs) < 65280"

lemma unat_seg [simp]: "i < 16 \<Longrightarrow> unat (word_of_nat i :: u8) = i"
  by (simp add: unsigned_of_nat take_bit_nat_eq_self)

lemma seg_nr_inj:
  assumes "i < 16" "j < 16"
  shows "(ucast (word_of_nat i :: u8) :: u32) = word_of_nat j \<longleftrightarrow> i = j"
proof -
  have "unat (ucast (word_of_nat i :: u8) :: u32) = i" "unat (word_of_nat j :: u32) = j"
    using assms by (simp_all add: unsigned_of_nat unsigned_ucast_eq take_bit_nat_eq_self)
  then show ?thesis by (metis unsigned_word_eqI)
qed

lemma get_seg:
  assumes "\<forall>i\<in>set S. i < 16" and "j \<in> set S"
  shows "defrag_get_seg (map (seg_entry segs) S) (word_of_nat j) = Some (segs ! j, map (seg_entry segs) (remove1 j S))"
  using assms by (induction S) (auto simp: seg_entry_def seg_nr_inj)

lemma concat_segs:
  assumes "\<forall>i\<in>set S. i < 16" and "{j..<j + n} \<subseteq> set S" and "distinct S"
    and "(\<Sum>i\<leftarrow>[j..<j + n]. length (segs ! i)) \<le> room"
  shows "\<exists>fs. defrag_concat n j room acc (map (seg_entry segs) S) =
    Inr (Some (acc @ concat (map ((!) segs) [j..<j + n])), fs)"
  using assms
proof (induction n arbitrary: j room acc S)
  case (Suc n)
  have j: "j \<in> set S" and u: "[j..<j + Suc n] = j # [Suc j..<Suc j + n]"
    using Suc.prems(2) by (auto simp: upt_rec [of j] simp flip: upt_Suc)
  have "\<exists>fs. defrag_concat n (Suc j) (room - length (segs ! j)) (acc @ segs ! j) (map (seg_entry segs) (remove1 j S)) =
    Inr (Some ((acc @ segs ! j) @ concat (map ((!) segs) [Suc j..<Suc j + n])), fs)"
    using Suc.prems u by (intro Suc.IH) (auto dest: notin_set_remove1)
  moreover have "length (segs ! j) \<le> room" using Suc.prems(4) unfolding u by simp
  ultimately show ?case unfolding u by (simp add: get_seg [OF Suc.prems(1) j])
qed simp

lemma bit_seg_needed: "bit (seg_needed h) k \<longleftrightarrow> k < Suc (unat h) \<and> k < 32"
proof -
  have "bit (fold (\<lambda>i s. s OR push_bit i (1 :: u32)) [0..<m] 0) k \<longleftrightarrow> k < m \<and> k < 32" for m
    by (induction m) (auto simp: bit_simps less_Suc_eq)
  then show ?thesis unfolding seg_needed_def .
qed

lemma enqueue_has:
  assumes "defrag_has segs S d" and "segs_ok segs" and "i < length segs" and "i \<notin> set S" "\<forall>i\<in>set S. i < length segs" "distinct S"
  shows "\<exists>d'. defrag_enqueue (word_of_nat i) (segs ! i @ rest) (word_of_nat (length (segs ! i))) d = Inr (0, d') \<and>
    defrag_has segs (i # S) (if i = length segs - 1 then d'\<lparr>df_no_more := True\<rparr> else d') \<and> df_no_more d' = df_no_more d \<and>
    df_comp d' = df_comp d"
proof -
  have i: "i < 16" using assms(2,3) by (simp add: segs_ok_def)
  have "length (segs ! i) \<le> length (concat segs)"
    using assms(3) member_le_sum_list [of "length (segs ! i)" "map length segs"] by (simp add: length_concat)
  then have len: "unat (word_of_nat (length (segs ! i)) :: u32) = length (segs ! i)" and
    lt: "word_of_nat (length (segs ! i)) < MAX_TALLOC_SIZE"
    using assms(2) by (simp_all add: segs_ok_def unsigned_of_nat take_bit_nat_eq_self word_less_nat_alt MAX_TALLOC_SIZE_def)
  have h: "unat (if word_of_nat i > df_highest_seg d then word_of_nat i else df_highest_seg d) = Max (insert 0 (set (i # S)))"
  proof -
    have "Max (insert 0 (set (i # S))) = max i (Max (insert 0 (set S)))" by (simp add: insert_commute [of 0])
    moreover have "unat (df_highest_seg d) = Max (insert 0 (set S))" using assms(1) by (simp only: defrag_has_def)
    ultimately show ?thesis using i by (simp only: word_less_nat_alt max_def unat_seg split: if_split) linarith
  qed
  have b: "bit (df_seg_have d OR push_bit (unat (word_of_nat i :: u8)) 1) k \<longleftrightarrow> k \<in> set (i # S)" for k
  proof -
    have "bit (df_seg_have d) k \<longleftrightarrow> k \<in> set S" using assms(1) by (simp only: defrag_has_def)
    then show ?thesis using i by (auto simp: bit_simps)
  qed
  let ?d = "d\<lparr>df_frags := (word_of_nat i, segs ! i) # df_frags d,
    df_highest_seg := (if word_of_nat i > df_highest_seg d then word_of_nat i else df_highest_seg d),
    df_seg_have := df_seg_have d OR push_bit (unat (word_of_nat i :: u8)) 1,
    df_tot_len := df_tot_len d + word_of_nat (length (segs ! i))\<rparr>"
  have e: "defrag_enqueue (word_of_nat i) (segs ! i @ rest) (word_of_nat (length (segs ! i))) d = Inr (0, ?d)"
    using lt [unfolded linorder_not_le [symmetric]] unfolding defrag_enqueue_def len by simp
  have f: "df_frags d = map (seg_entry segs) S" "df_tot_len d = word_of_nat (\<Sum>i\<leftarrow>S. length (segs ! i))"
    "df_no_more d \<longleftrightarrow> length segs - 1 \<in> set S"
    using assms(1) by (simp_all only: defrag_has_def)
  have "defrag_has segs (i # S) (if i = length segs - 1 then ?d\<lparr>df_no_more := True\<rparr> else ?d)"
    unfolding defrag_has_def using h b f
    by (cases "i = length segs - 1") (simp_all add: seg_entry_def add.commute)
  then show ?thesis using e by (intro exI [of _ ?d]) simp
qed

lemma have_all_iff:
  assumes "defrag_has segs S d" and "segs_ok segs" and "\<forall>i\<in>set S. i < length segs" and "length segs - 1 \<in> set S"
  shows "defrag_have_all_segments d \<longleftrightarrow> set S = {..<length segs}"
proof -
  let ?n = "length segs"
  have n: "0 < ?n" "?n \<le> 16" using assms(2) by (simp_all add: segs_ok_def)
  have "Max (insert 0 (set S)) = ?n - 1"
    using assms(3,4) by (intro Max_eqI) (auto simp: less_Suc_eq_le [symmetric])
  then have h: "Suc (unat (df_highest_seg d)) = ?n" using assms(1) n(1) by (simp add: defrag_has_def)
  have b: "bit (df_seg_have d) k \<longleftrightarrow> k \<in> set S" for k using assms(1) by (simp only: defrag_has_def)
  have "defrag_have_all_segments d \<longleftrightarrow> (\<forall>k<32. (k < ?n) = (k \<in> set S))"
  proof
    assume "defrag_have_all_segments d"
    then show "\<forall>k<32. (k < ?n) = (k \<in> set S)"
      unfolding defrag_have_all_segments_def by (metis b bit_seg_needed h)
  next
    assume "\<forall>k<32. (k < ?n) = (k \<in> set S)"
    then show "defrag_have_all_segments d"
      unfolding defrag_have_all_segments_def by (intro bit_word_eqI) (simp add: bit_seg_needed h b)
  qed
  also have "\<dots> \<longleftrightarrow> set S = {..<?n}"
  proof -
    have "x < ?n \<Longrightarrow> x < 32" for x using n(2) by simp
    then show ?thesis using assms(3) by (auto simp: set_eq_iff)
  qed
  finally show ?thesis .
qed

lemma sum_segs:
  assumes "distinct S" "set S = {..<length segs}"
  shows "(\<Sum>i\<leftarrow>S. length (segs ! i)) = length (concat segs)"
proof -
  have "(\<Sum>i\<leftarrow>S. length (segs ! i)) = (\<Sum>i\<in>set S. length (segs ! i))"
    using assms(1) by (simp add: sum_list_distinct_conv_sum_set)
  also have "\<dots> = length (concat segs)"
    unfolding assms(2) by (simp add: length_concat sum_list_sum_nth atLeast0LessThan)
  finally show ?thesis .
qed

lemma defrag_room_eq:
  assumes "n < 65280"
  shows "defrag_room (word_of_nat n) = n + 128"
proof -
  have "word_of_nat n + 256 = (word_of_nat (n + 256) :: u32)" by simp
  moreover have "unat (word_of_nat (n + 256) :: u32) = n + 256"
    using assms by (simp only: unsigned_of_nat) (simp add: take_bit_nat_eq_self)
  ultimately show ?thesis using assms by (simp add: defrag_room_def del: of_nat_add)
qed

lemma defrag_complete:
  assumes "defrag_has segs S (sne_defrag sne)" and "segs_ok segs" and "distinct S" and "set S = {..<length segs}"
  shows "\<exists>fs. let sne' = sne\<lparr>sne_defrag := (sne_defrag sne)\<lparr>df_frags := fs\<rparr>\<rparr> in
    defrag_segments cfg cd rc sne st = deliver_npdu cfg cd rc sne' (concat segs) (sne_store sne' st)"
proof -
  let ?d = "sne_defrag sne" and ?n = "length segs"
  have n: "0 < ?n" "?n \<le> 16" and l: "length (concat segs) < 65280" using assms(2) by (simp_all add: segs_ok_def)
  have "Max (insert 0 (set S)) = ?n - 1"
    using assms(4) n by (intro Max_eqI) (auto simp: less_Suc_eq_le [symmetric])
  then have h: "Suc (unat (df_highest_seg ?d)) = ?n" using assms(1) n(1) by (simp add: defrag_has_def)
  have f: "df_frags ?d = map (seg_entry segs) S" and t: "df_tot_len ?d = word_of_nat (length (concat segs))"
    using assms(1) sum_segs [OF assms(3,4)] by (simp_all only: defrag_has_def)
  have u: "unat (df_tot_len ?d) = length (concat segs)"
    using l by (simp add: t unsigned_of_nat take_bit_nat_eq_self)
  have room: "defrag_room (df_tot_len ?d) = length (concat segs) + 128"
    unfolding t by (rule defrag_room_eq [OF l])
  have c: "concat (map ((!) segs) [0..<0 + ?n]) = concat segs" by (simp add: map_nth)
  have s: "(\<Sum>i\<leftarrow>[0..<0 + ?n]. length (segs ! i)) \<le> length (concat segs) + 128"
    using sum_segs [of "[0..<?n]" segs] by (simp add: atLeast0LessThan)
  obtain fs where "defrag_concat ?n 0 (length (concat segs) + 128) [] (map (seg_entry segs) S) = Inr (Some (concat segs), fs)"
    using concat_segs [where acc = "[]", of S 0 ?n segs, OF _ _ assms(3) s, unfolded c] assms(4) n by (auto simp: atLeast0LessThan)
  then show ?thesis
    unfolding defrag_segments_def Let_def h f u room by auto
qed

subsection \<open>The SN-PDUs of an N-PDU\<close>

text \<open>Segment \<open>i\<close> of \<open>n\<close>, and all of them.\<close>

definition sn_pdu :: "u8 \<Rightarrow> u16 \<Rightarrow> u8 \<Rightarrow> u8 \<Rightarrow> nat \<Rightarrow> octets list \<Rightarrow> nat \<Rightarrow> octets" where
  "sn_pdu nsapi nr pcomp dcomp n segs i =
     [common_hdr nsapi (i = 0) (Suc i < n)] @ (if i = 0 then [comp_hdr pcomp dcomp] else []) @
     udata_hdr nr (word_of_nat i) @ segs ! i"

definition collect :: "octets \<Rightarrow> octets list \<Rightarrow> (int \<times> octets list) exec" where
  "collect pdu l = Inr (0, l @ [pdu])"

lemma u8_small: "i < 255 \<Longrightarrow> (word_of_nat i :: u8) = 0 \<longleftrightarrow> i = 0"
proof -
  assume "i < 255"
  then have "unat (word_of_nat i :: u8) = i" by (simp add: unsigned_of_nat take_bit_nat_eq_self)
  then show ?thesis by (metis unat_eq_zero)
qed

lemma seg_mod_15: "i < 15 \<Longrightarrow> (word_of_nat i :: u8) mod 0xf = word_of_nat i"
  by (simp add: word_unat_eq_iff unat_mod unsigned_of_nat take_bit_nat_eq_self)

lemma frag_len_eq:
  assumes "5 \<le> n201_u" "i < 255"
  shows "frag_len n201_u (word_of_nat i) rest = min (length rest) (unat n201_u - (if i = 0 then 4 else 3))"
proof -
  have "5 \<le> unat n201_u" using assms(1) by (simp add: word_le_nat_alt)
  then have "unat (ucast n201_u - 3 :: u32) = unat n201_u - 3" "unat (ucast n201_u - 4 :: u32) = unat n201_u - 4"
    by (simp_all add: unat_sub word_le_nat_alt unat_ucast_u16_u32)
  then show ?thesis by (simp add: frag_len_def max_payload_len_def u8_small [OF assms(2)])
qed

text \<open>The loop from the second fragment on.\<close>

lemma frag_loop_segs:
  assumes "5 \<le> n201_u" and "0 < i" and "i + k = 15" and "rest \<noteq> []" and "length rest \<le> k * (unat n201_u - 3)"
  shows "\<exists>segs. segs \<noteq> [] \<and> length segs \<le> k \<and> concat segs = rest \<and> (\<forall>s\<in>set segs. length s + 3 \<le> unat n201_u) \<and>
    sndcp_frag_loop collect n201_u nsapi nr pcomp dcomp (word_of_nat i) rest l =
    Inr (0, next_npdu_nr nr, l @ map (\<lambda>j. [common_hdr nsapi False (Suc j < length segs)] @ udata_hdr nr (word_of_nat (i + j)) @ segs ! j) [0..<length segs])"
  using assms
proof (induction k arbitrary: i rest l)
  case (Suc k)
  let ?m = "unat n201_u - 3" and ?pdu = "frag_pdu n201_u nsapi nr pcomp dcomp (word_of_nat i) rest"
  have m: "0 < ?m" "3 + ?m = unat n201_u" using Suc.prems(1) by (simp_all add: word_le_nat_alt)
  have i: "i < 15" "i < 255" using Suc.prems by auto
  have fl: "frag_len n201_u (word_of_nat i) rest = min (length rest) ?m"
    using frag_len_eq [OF Suc.prems(1) i(2)] Suc.prems(2) by simp
  have pdu: "?pdu = [common_hdr nsapi False (?m < length rest)] @ udata_hdr nr (word_of_nat i) @ take ?m rest"
    using Suc.prems(2) by (simp add: frag_pdu_def fl u8_small [OF i(2)] seg_mod_15 [OF i(1)] Let_def min_def)
  have room: "\<not> unat n201_u + 128 < length ?pdu" unfolding pdu using m by auto
  show ?case
  proof (cases "length rest \<le> ?m")
    case True
    then show ?thesis
      using room m Suc.prems by (intro exI [of _ "[rest]"]) (auto simp: sndcp_frag_loop.simps [where rest = rest] fl collect_def pdu Let_def)
  next
    case False
    let ?rest = "drop ?m rest"
    from False have k: "0 < k" using Suc.prems(5) by (cases k) auto
    have pre: "0 < Suc i" "Suc i + k = 15" "?rest \<noteq> []" "length ?rest \<le> k * ?m"
      using Suc.prems False by (simp_all add: algebra_simps)
    obtain segs where s: "segs \<noteq> []" "length segs \<le> k" "concat segs = ?rest" "\<forall>s\<in>set segs. length s + 3 \<le> unat n201_u"
      "sndcp_frag_loop collect n201_u nsapi nr pcomp dcomp (word_of_nat (Suc i)) ?rest (l @ [?pdu]) =
       Inr (0, next_npdu_nr nr, (l @ [?pdu]) @ map (\<lambda>j. [common_hdr nsapi False (Suc j < length segs)] @ udata_hdr nr (word_of_nat (Suc i + j)) @ segs ! j) [0..<length segs])"
      using Suc.IH [OF Suc.prems(1) pre, of "l @ [?pdu]"] by blast
    have w: "(word_of_nat i + 1 :: u8) = word_of_nat (Suc i)" by simp
    have "sndcp_frag_loop collect n201_u nsapi nr pcomp dcomp (word_of_nat i) rest l =
       Inr (0, next_npdu_nr nr, (l @ [?pdu]) @ map (\<lambda>j. [common_hdr nsapi False (Suc j < length segs)] @ udata_hdr nr (word_of_nat (Suc i + j)) @ segs ! j) [0..<length segs])"
      using room False s(5) by (simp add: sndcp_frag_loop.simps [where rest = rest] fl collect_def Let_def w del: of_nat_Suc)
    moreover have "[0..<length (take ?m rest # segs)] = 0 # map Suc [0..<length segs]"
      by (simp add: map_Suc_upt upt_conv_Cons del: upt_Suc)
    ultimately show ?thesis using s(1-4) False m
      by (intro exI [of _ "take ?m rest # segs"]) (auto simp: pdu o_def simp del: upt_Suc of_nat_Suc of_nat_add)
  qed
qed simp

lemma needs_frag_iff: "5 \<le> n201_u \<Longrightarrow> needs_frag n201_u len \<longleftrightarrow> unat n201_u - 4 < len"
proof -
  assume "5 \<le> n201_u"
  obtain k where k: "unat n201_u = k" by simp
  have "5 \<le> k" using \<open>5 \<le> n201_u\<close> k by (simp add: word_le_nat_alt)
  moreover have "k < 2 ^ LENGTH(16)" unfolding k [symmetric] by (rule unsigned_less)
  ultimately have "(int k - 4) mod 2 ^ 64 = int (k - 4)" by simp
  moreover have "uint n201_u = int k" by (simp flip: k)
  ultimately show ?thesis unfolding needs_frag_def k by simp
qed

lemma find_entity:
  "gprs_sndcp_entity_by_lle st lle nsapi = Some sne \<Longrightarrow> sne_lle sne = lle \<and> sne_nsapi sne = nsapi"
  by (auto simp: gprs_sndcp_entity_by_lle_def find_Some_iff)

lemma unitdata_req_segs:
  assumes "5 \<le> n201_u" and "\<not> any_pcomp_or_dcomp_active cfg" and "gprs_sndcp_entity_by_lle st lle nsapi = Some sne"
    and "msg \<noteq> []" and "length msg \<le> (unat n201_u - 4) + 14 * (unat n201_u - 3)"
  shows "\<exists>segs. segs \<noteq> [] \<and> length segs \<le> 15 \<and> concat segs = msg \<and>
    (\<forall>i<length segs. length (sn_pdu nsapi (sne_tx_npdu_nr sne) 0 0 (length segs) segs i) \<le> unat n201_u) \<and>
    sndcp_sn_unitdata_req cfg cd collect n201_u msg lle nsapi st [] =
      Inr (0, sne_store (sne\<lparr>sne_tx_npdu_nr := next_npdu_nr (sne_tx_npdu_nr sne)\<rparr>) st,
        map (sn_pdu nsapi (sne_tx_npdu_nr sne) 0 0 (length segs) segs) [0..<length segs])"
proof -
  let ?m = "unat n201_u - 4" and ?nr = "sne_tx_npdu_nr sne"
  have m: "0 < ?m" "4 + ?m = unat n201_u" using assms(1) by (simp_all add: word_le_nat_alt)
  have nsapi: "sne_nsapi sne = nsapi" using find_entity [OF assms(3)] by simp
  show ?thesis
  proof (cases "length msg \<le> ?m")
    case True
    then show ?thesis using assms m
      by (intro exI [of _ "[msg]"])
         (simp add: sndcp_sn_unitdata_req_def compress_npdu_def needs_frag_iff collect_def sn_pdu_def)
  next
    case False
    let ?pdu = "frag_pdu n201_u nsapi ?nr 0 0 0 msg" and ?rest = "drop ?m msg"
    have fl: "frag_len n201_u 0 msg = ?m" using frag_len_eq [OF assms(1), of 0] False by simp
    have pdu: "?pdu = [common_hdr nsapi True True, comp_hdr 0 0] @ udata_hdr ?nr 0 @ take ?m msg"
      using False by (simp add: frag_pdu_def fl Let_def)
    have pre: "0 < (1::nat)" "1 + 14 = (15::nat)" "?rest \<noteq> []" "length ?rest \<le> 14 * (unat n201_u - 3)"
      using False assms(5) by simp_all
    from frag_loop_segs [OF assms(1) pre, of nsapi ?nr 0 0 "[?pdu]"] obtain segs where s:
      "segs \<noteq> []" "length segs \<le> 14" "concat segs = ?rest" "\<forall>s\<in>set segs. length s + 3 \<le> unat n201_u"
      "sndcp_frag_loop collect n201_u nsapi ?nr 0 0 (word_of_nat 1) ?rest [?pdu] =
       Inr (0, next_npdu_nr ?nr, [?pdu] @ map (\<lambda>j. [common_hdr nsapi False (Suc j < length segs)] @ udata_hdr ?nr (word_of_nat (1 + j)) @ segs ! j) [0..<length segs])"
      by blast
    have "sndcp_frag_loop collect n201_u nsapi ?nr 0 0 0 msg [] =
       Inr (0, next_npdu_nr ?nr, [?pdu] @ map (\<lambda>j. [common_hdr nsapi False (Suc j < length segs)] @ udata_hdr ?nr (word_of_nat (1 + j)) @ segs ! j) [0..<length segs])"
      using False s(5) m by (simp add: sndcp_frag_loop.simps [where rest = msg] fl collect_def Let_def pdu)
    moreover have u: "[0..<length (take ?m msg # segs)] = 0 # map Suc [0..<length segs]"
      by (simp add: map_Suc_upt upt_conv_Cons del: upt_Suc)
    moreover have "[?pdu] @ map (\<lambda>j. [common_hdr nsapi False (Suc j < length segs)] @ udata_hdr ?nr (word_of_nat (1 + j)) @ segs ! j) [0..<length segs] =
      map (sn_pdu nsapi ?nr 0 0 (length (take ?m msg # segs)) (take ?m msg # segs)) [0..<length (take ?m msg # segs)]"
      unfolding u using s(1) by (simp add: pdu sn_pdu_def)
    moreover have "\<forall>i<length (take ?m msg # segs). length (sn_pdu nsapi ?nr 0 0 (length (take ?m msg # segs)) (take ?m msg # segs) i) \<le> unat n201_u"
    proof (intro allI impI)
      fix i assume "i < length (take ?m msg # segs)"
      then show "length (sn_pdu nsapi ?nr 0 0 (length (take ?m msg # segs)) (take ?m msg # segs) i) \<le> unat n201_u"
        using s(4) m by (cases i) (auto simp: sn_pdu_def all_set_conv_all_nth)
    qed
    ultimately show ?thesis using False s(2,3) assms(2,3)
      by (intro exI [of _ "take ?m msg # segs"])
         (simp add: sndcp_sn_unitdata_req_def compress_npdu_def needs_frag_iff [OF assms(1)] nsapi)
  qed
qed

subsection \<open>Receiving the SN-PDUs\<close>

definition npdus :: "sndcp_event list \<Rightarrow> ((nat \<times> nat) \<times> u8 \<times> octets) list" where
  "npdus es = concat (map (\<lambda>e. case e of Gtp_data_req rai lle nsapi npdu \<Rightarrow> [(lle, nsapi, npdu)] | _ \<Rightarrow> []) es)"

lemma find_upd_first: "find P xs \<noteq> None \<Longrightarrow> P x \<Longrightarrow> find P (upd_first P (\<lambda>_. x) xs) = Some x"
  by (induction xs) auto

lemma by_lle_store:
  assumes "gprs_sndcp_entity_by_lle st lle nsapi \<noteq> None" "sne_lle sne = lle" "sne_nsapi sne = nsapi"
  shows "gprs_sndcp_entity_by_lle (sne_store sne st) lle nsapi = Some sne"
  using assms by (simp add: gprs_sndcp_entity_by_lle_def sne_store_def sne_upd_def find_upd_first)

lemma by_lle_emit [simp]: "gprs_sndcp_entity_by_lle (sn_emit e st) = gprs_sndcp_entity_by_lle st"
  by (simp add: gprs_sndcp_entity_by_lle_def sn_emit_def fun_eq_iff)

lemma sn_out_simps [simp]:
  "sn_out (sne_store sne st) = sn_out st" "sn_out (sn_emit e st) = sn_out st @ [e]"
  by (simp_all add: sne_store_def sne_upd_def sn_emit_def)

lemma npdus_simps [simp]:
  "npdus [] = []" "npdus (xs @ ys) = npdus xs @ npdus ys" "npdus (Gb_recv_pdu t # es) = npdus es"
  "npdus (Gtp_data_req rai lle nsapi npdu # es) = (lle, nsapi, npdu) # npdus es"
  by (simp_all add: npdus_def)

lemma has_nil: "segs_ok segs \<Longrightarrow> defrag_has segs [] (defrag_first npdu d)"
  by (simp add: defrag_has_def defrag_first_def)

text \<open>One SN-PDU goes into the reassembly of the entity.\<close>

lemma defrag_input_step:
  assumes has: "defrag_has segs S (if i = 0 then defrag_first (suh_npdu (udata_hdr nr (word_of_nat i) ! 0) (udata_hdr nr (word_of_nat i) ! 1)) (sne_defrag sne) else sne_defrag sne)"
    and ok: "segs_ok segs" and S: "i < length segs" "i \<notin> set S" "\<forall>i\<in>set S. i < length segs" "distinct S"
    and pdu: "pdu = [common_hdr nsapi (i = 0) (Suc i < length segs)] @ (if i = 0 then [chdr] else []) @ udata_hdr nr (word_of_nat i) @ segs ! i"
  shows "\<exists>d. let sne' = sne\<lparr>sne_defrag := d\<rparr> in
    defrag_has segs (i # S) d \<and> df_comp d = df_comp (sne_defrag sne) \<and>
    defrag_input cfg cd rc sne (pdu @ trail) (length pdu) st =
    (if set (i # S) = {..<length segs} then defrag_segments cfg cd rc sne' (sne_store sne' st) else Inr (0, sne_store sne' st))"
proof -
  have i: "i < 16" using S(1) ok by (simp add: segs_ok_def)
  let ?d = "if i = 0 then defrag_first (suh_npdu (udata_hdr nr (word_of_nat i) ! 0) (udata_hdr nr (word_of_nat i) ! 1)) (sne_defrag sne) else sne_defrag sne"
  obtain d' where d': "defrag_enqueue (word_of_nat i) (segs ! i @ trail) (word_of_nat (length (segs ! i))) ?d = Inr (0, d')"
    and h: "defrag_has segs (i # S) (if i = length segs - 1 then d'\<lparr>df_no_more := True\<rparr> else d')"
    and c: "df_comp d' = df_comp ?d"
    using enqueue_has [OF has ok S] by blast
  define d2 where "d2 = (if i = length segs - 1 then d'\<lparr>df_no_more := True\<rparr> else d')"
  let ?sne = "sne\<lparr>sne_defrag := d2\<rparr>"
  have h: "defrag_has segs (i # S) d2" using h by (simp only: d2_def)
  have c: "df_comp d2 = df_comp (sne_defrag sne)" using c by (simp add: d2_def defrag_first_def)
  have more: "sch_more (common_hdr nsapi (i = 0) (Suc i < length segs)) \<longleftrightarrow> i \<noteq> length segs - 1"
    using S(1) by auto
  have seg: "suh_seg_nr (udata_hdr nr (word_of_nat i) ! 0) = word_of_nat i"
    using i by (simp add: word_le_nat_alt)
  have w: "word_of_int (int (length pdu) - int (hdr_len (common_hdr nsapi (i = 0) (Suc i < length segs)))) = (word_of_nat (length (segs ! i)) :: u32)"
    by (simp add: pdu hdr_len_def)
  have eq: "defrag_input cfg cd rc sne (pdu @ trail) (length pdu) st =
    (if df_no_more d2 \<and> defrag_have_all_segments d2 then defrag_segments cfg cd rc ?sne (sne_store ?sne st) else Inr (0, sne_store ?sne st))"
    unfolding defrag_input_def defrag_check_def d2_def using d' w more seg
    by (cases "i = 0"; cases "i = length segs - 1")
       (simp_all add: pdu hdr_len_def udata_hdr_def Let_def numeral_2_eq_2 numeral_3_eq_3)
  have in_S: "\<forall>j\<in>set (i # S). j < length segs" using S by auto
  have nm: "df_no_more d2 \<longleftrightarrow> length segs - 1 \<in> set (i # S)" using h by (simp only: defrag_has_def)
  have "df_no_more d2 \<and> defrag_have_all_segments d2 \<longleftrightarrow> set (i # S) = {..<length segs}"
  proof (cases "length segs - 1 \<in> set (i # S)")
    case True
    then show ?thesis using nm have_all_iff [OF h ok in_S True] by simp
  next
    case False
    moreover have "length segs - 1 \<in> {..<length segs}" using S(1) by simp
    ultimately have "set (i # S) \<noteq> {..<length segs}" by metis
    then show ?thesis using nm False by simp
  qed
  with eq h c show ?thesis unfolding Let_def by (intro exI [of _ d2]) simp
qed

lemma defrag_input_seg:
  assumes has: "defrag_has segs S (if i = 0 then defrag_first (suh_npdu (udata_hdr nr (word_of_nat i) ! 0) (udata_hdr nr (word_of_nat i) ! 1)) (sne_defrag sne) else sne_defrag sne)"
    and ok: "segs_ok segs" and S: "i < length segs" "i \<notin> set S" "\<forall>i\<in>set S. i < length segs" "distinct S"
    and cfg: "\<not> any_pcomp_or_dcomp_active cfg"
    and ent: "gprs_sndcp_entity_by_lle st (sne_lle sne) (sne_nsapi sne) \<noteq> None"
    and pdu: "pdu = sn_pdu nsapi nr 0 0 (length segs) segs i"
  shows "\<exists>st' sne'. gprs_sndcp_entity_by_lle st' (sne_lle sne) (sne_nsapi sne) = Some sne' \<and>
    (if set (i # S) = {..<length segs}
     then defrag_input cfg cd rc sne (pdu @ trail) (length pdu) st = Inr (rc, st') \<and>
       npdus (sn_out st') = npdus (sn_out st) @ [(sne_lle sne, sne_nsapi sne, concat segs)]
     else defrag_input cfg cd rc sne (pdu @ trail) (length pdu) st = Inr (0, st') \<and>
       defrag_has segs (i # S) (sne_defrag sne') \<and> npdus (sn_out st') = npdus (sn_out st))"
proof -
  obtain d where h: "defrag_has segs (i # S) d" and eq: "defrag_input cfg cd rc sne (pdu @ trail) (length pdu) st =
    (if set (i # S) = {..<length segs} then defrag_segments cfg cd rc (sne\<lparr>sne_defrag := d\<rparr>) (sne_store (sne\<lparr>sne_defrag := d\<rparr>) st)
     else Inr (0, sne_store (sne\<lparr>sne_defrag := d\<rparr>) st))"
    using defrag_input_step [OF has ok S pdu [unfolded sn_pdu_def]] unfolding Let_def by blast
  let ?sne = "sne\<lparr>sne_defrag := d\<rparr>"
  have ent': "gprs_sndcp_entity_by_lle (sne_store ?sne st) (sne_lle sne) (sne_nsapi sne) = Some ?sne"
    using ent by (simp add: by_lle_store)
  show ?thesis
  proof (cases "set (i # S) = {..<length segs}")
    case True
    obtain fs where fs: "defrag_segments cfg cd rc ?sne (sne_store ?sne st) =
      deliver_npdu cfg cd rc (?sne\<lparr>sne_defrag := d\<lparr>df_frags := fs\<rparr>\<rparr>) (concat segs) (sne_store (?sne\<lparr>sne_defrag := d\<lparr>df_frags := fs\<rparr>\<rparr>) (sne_store ?sne st))"
      using defrag_complete [where sne = ?sne and S = "i # S", OF _ ok _ True] h S by (fastforce simp: Let_def)
    show ?thesis
      using True eq fs ent' cfg by (auto simp: deliver_npdu_def sndcp_sn_unitdata_ind_def by_lle_store)
  next
    case False
    then show ?thesis using eq ent' h by (intro exI [of _ "sne_store ?sne st"] exI [of _ ?sne]) auto
  qed
qed

lemma ex_map_conv_mset: "mset ys = mset (map f xs) \<Longrightarrow> \<exists>zs. ys = map f zs \<and> mset zs = mset xs"
proof (induction xs arbitrary: ys)
  case (Cons x xs)
  then have "f x \<in> set ys" by (metis list.set_intros(1) list.simps(9) mset_eq_setD)
  then obtain as bs where ys: "ys = as @ f x # bs" by (metis split_list)
  with Cons.prems have "mset (as @ bs) = mset (map f xs)" by simp
  from Cons.IH [OF this] obtain zs where zs: "as @ bs = map f zs" "mset zs = mset xs" by blast
  let ?k = "length as"
  have "as = map f (take ?k zs)" "bs = map f (drop ?k zs)"
    using zs(1) by (metis append_eq_conv_conj take_map, metis append_eq_conv_conj drop_map)
  then have "ys = map f (take ?k zs @ x # drop ?k zs)" using ys by simp
  moreover have "mset (take ?k zs @ x # drop ?k zs) = mset (x # xs)"
    using zs(2) by (metis append_take_drop_id mset.simps(2) mset_append union_mset_add_mset_right)
  ultimately show ?case by blast
qed simp

text \<open>The receipt of a sequence of SN-PDUs, each followed in memory by \<open>trail\<close>.\<close>

fun rx_pdus :: "(octets \<Rightarrow> 's sndcp \<Rightarrow> (int \<times> 's sndcp) exec) \<Rightarrow> octets list \<Rightarrow> 's sndcp \<Rightarrow> 's sndcp exec" where
  "rx_pdus rx [] st = Inr st"
| "rx_pdus rx (p # ps) st = ebind (rx p st) (\<lambda>(rc, st). rx_pdus rx ps st)"

lemma ll_ind_seg:
  assumes ent: "gprs_sndcp_entity_by_lle st lle nsapi = Some sne"
    and has: "i \<noteq> 0 \<Longrightarrow> defrag_has segs S (sne_defrag sne)" "i = 0 \<Longrightarrow> S = []"
    and ok: "segs_ok segs" "concat segs \<noteq> []" and S: "i < length segs" "i \<notin> set S" "\<forall>i\<in>set S. i < length segs" "distinct S"
    and cfg: "\<not> any_pcomp_or_dcomp_active cfg" and mm: "mm_by_tlli tlli cell_id" and nsapi: "nsapi \<le> 15"
    and pdu: "pdu = sn_pdu nsapi nr 0 0 (length segs) segs i"
  shows "\<exists>st' sne' rc'. gprs_sndcp_entity_by_lle st' lle nsapi = Some sne' \<and>
    sndcp_ll_unitdata_ind cfg cd rc mm_by_tlli tlli cell_id lle (pdu @ trail) (length pdu) st = Inr (rc', st') \<and>
    (if set (i # S) = {..<length segs}
     then npdus (sn_out st') = npdus (sn_out st) @ [(lle, nsapi, concat segs)]
     else defrag_has segs (i # S) (sne_defrag sne') \<and> npdus (sn_out st') = npdus (sn_out st))"
proof -
  have lle: "sne_lle sne = lle" "sne_nsapi sne = nsapi" using find_entity [OF ent] by auto
  let ?sne1 = "sne\<lparr>sne_rai := Some cell_id\<rparr>"
  let ?st1 = "sn_emit (Gb_recv_pdu tlli) (sne_store ?sne1 st)"
  let ?sne2 = "if i = 0 then ?sne1\<lparr>sne_defrag := (sne_defrag sne)\<lparr>df_pcomp := 0, df_dcomp := 0, df_comp := sn_llme_comp ?st1 (fst lle)\<rparr>\<rparr> else ?sne1"
  let ?st2 = "sne_store ?sne2 ?st1"
  have len: "\<not> length pdu < 3" by (simp add: pdu sn_pdu_def)
  have ent1: "gprs_sndcp_entity_by_lle ?st2 lle nsapi = Some ?sne2"
    using ent lle by (simp add: by_lle_store)
  have r: "sndcp_ll_unitdata_ind cfg cd rc mm_by_tlli tlli cell_id lle (pdu @ trail) (length pdu) st =
     (if i \<noteq> 0 \<or> Suc i < length segs then defrag_input cfg cd rc ?sne2 (pdu @ trail) (length pdu) ?st2
      else if length pdu \<le> 4 then Inr (- EIO, ?st2)
      else deliver_npdu cfg cd rc ?sne2 (take (length pdu - 4) (drop 4 (pdu @ trail))) ?st2)"
    using len ent mm nsapi unfolding sndcp_ll_unitdata_ind_def take_comp_hdr_def ll_unitdata_sne_def
    by (cases "i = 0") (simp_all add: pdu sn_pdu_def Let_def)
  show ?thesis
  proof (cases "i \<noteq> 0 \<or> Suc i < length segs")
    case True
    have "defrag_has segs S (if i = 0 then defrag_first (suh_npdu (udata_hdr nr (word_of_nat i) ! 0) (udata_hdr nr (word_of_nat i) ! 1)) (sne_defrag ?sne2) else sne_defrag ?sne2)"
      using has has_nil [OF ok(1)] by auto
    moreover have k: "sne_lle ?sne2 = lle" "sne_nsapi ?sne2 = nsapi" "sn_out ?st2 = sn_out st @ [Gb_recv_pdu tlli]"
      using lle by simp_all
    moreover have "gprs_sndcp_entity_by_lle ?st2 (sne_lle ?sne2) (sne_nsapi ?sne2) \<noteq> None"
      unfolding k ent1 by simp
    ultimately obtain st' sne' where d: "gprs_sndcp_entity_by_lle st' lle nsapi = Some sne'"
      "if set (i # S) = {..<length segs}
       then defrag_input cfg cd rc ?sne2 (pdu @ trail) (length pdu) ?st2 = Inr (rc, st') \<and>
         npdus (sn_out st') = npdus (sn_out ?st2) @ [(lle, nsapi, concat segs)]
       else defrag_input cfg cd rc ?sne2 (pdu @ trail) (length pdu) ?st2 = Inr (0, st') \<and>
         defrag_has segs (i # S) (sne_defrag sne') \<and> npdus (sn_out st') = npdus (sn_out ?st2)"
      using defrag_input_seg [where sne = ?sne2 and st = ?st2 and cd = cd and rc = rc and trail = trail, OF _ ok(1) S cfg _ pdu] by metis
    have n: "npdus (sn_out ?st2) = npdus (sn_out st)" unfolding k by simp
    have r2: "sndcp_ll_unitdata_ind cfg cd rc mm_by_tlli tlli cell_id lle (pdu @ trail) (length pdu) st =
        defrag_input cfg cd rc ?sne2 (pdu @ trail) (length pdu) ?st2"
      by (rule trans [OF r if_P [OF True]])
    show ?thesis
    proof (cases "set (i # S) = {..<length segs}")
      case True
      from d(2) [unfolded if_P [OF True] n r2 [symmetric]] d(1) True show ?thesis by auto
    next
      case False
      from d(2) [unfolded if_not_P [OF False] n r2 [symmetric]] d(1) False show ?thesis
        by (intro exI [of _ st'] exI [of _ sne'] exI [of _ 0]) simp
    qed
  next
    case False
    then have i: "i = 0" "length segs = 1" "S = []" using S(1) has(2) by (auto simp: not_less le_Suc_eq)
    then obtain seg where segs: "segs = [seg]" by (cases segs) auto
    show ?thesis
      using False ent1 lle cfg ok(2) unfolding r
      by (auto simp: i segs pdu sn_pdu_def deliver_npdu_def sndcp_sn_unitdata_ind_def udata_hdr_def lessThan_Suc)
  qed
qed

lemma rx_pdus_segs:
  assumes ent: "gprs_sndcp_entity_by_lle st lle nsapi = Some sne"
    and has: "S \<noteq> [] \<Longrightarrow> defrag_has segs S (sne_defrag sne)" "S = [] \<Longrightarrow> hd js = 0" "S \<noteq> [] \<Longrightarrow> 0 \<in> set S"
    and ok: "segs_ok segs" "concat segs \<noteq> []"
    and js: "js \<noteq> []" "distinct (js @ S)" "set (js @ S) = {..<length segs}"
    and cfg: "\<not> any_pcomp_or_dcomp_active cfg" and mm: "mm_by_tlli tlli cell_id" and nsapi: "nsapi \<le> 15"
  shows "\<exists>st'. rx_pdus (\<lambda>p. sndcp_ll_unitdata_ind cfg cd rc mm_by_tlli tlli cell_id lle (p @ trail) (length p))
      (map (sn_pdu nsapi nr 0 0 (length segs) segs) js) st = Inr st' \<and>
    npdus (sn_out st') = npdus (sn_out st) @ [(lle, nsapi, concat segs)]"
  using ent has js
proof (induction js arbitrary: st sne S)
  case (Cons i js)
  have S: "i < length segs" "i \<notin> set S" "\<forall>i\<in>set S. i < length segs" "distinct S"
    using Cons.prems(6,7) by auto
  have h: "i \<noteq> 0 \<Longrightarrow> defrag_has segs S (sne_defrag sne)" "i = 0 \<Longrightarrow> S = []"
    using Cons.prems(2-4) S(2) by (cases "S = []"; auto)+
  obtain st' sne' rc' where st': "gprs_sndcp_entity_by_lle st' lle nsapi = Some sne'"
    "sndcp_ll_unitdata_ind cfg cd rc mm_by_tlli tlli cell_id lle (sn_pdu nsapi nr 0 0 (length segs) segs i @ trail)
       (length (sn_pdu nsapi nr 0 0 (length segs) segs i)) st = Inr (rc', st')"
    "if set (i # S) = {..<length segs}
     then npdus (sn_out st') = npdus (sn_out st) @ [(lle, nsapi, concat segs)]
     else defrag_has segs (i # S) (sne_defrag sne') \<and> npdus (sn_out st') = npdus (sn_out st)"
    using ll_ind_seg [where mm_by_tlli = mm_by_tlli and cd = cd and rc = rc and trail = trail and nr = nr, OF Cons.prems(1) h ok S cfg mm nsapi refl] by blast
  show ?case
  proof (cases "js = []")
    case True
    then show ?thesis using st'(2,3) Cons.prems(7) by auto
  next
    case False
    then have "hd js \<in> {..<length segs}" "hd js \<notin> set (i # S)"
      using Cons.prems(6) unfolding Cons.prems(7) [symmetric] by (cases js; auto)+
    then have "set (i # S) \<noteq> {..<length segs}" by metis
    then have d: "defrag_has segs (i # S) (sne_defrag sne')" "npdus (sn_out st') = npdus (sn_out st)" using st'(3) by auto
    have "0 \<in> set (i # S)" using Cons.prems(3,4) by (cases S) auto
    moreover have "distinct (js @ i # S)" "set (js @ i # S) = {..<length segs}" using Cons.prems(6,7) by auto
    ultimately show ?thesis using Cons.IH [of st' sne' "i # S", OF st'(1) d(1) _ _ False] st'(2) d(2) by auto
  qed
qed simp


definition no_codec :: "unit codec" where
  "no_codec = \<lparr>cd_slhc_init = \<lambda>_. (), cd_slhc_compress = \<lambda>d s. ((int (length d), d), s),
     cd_slhc_remember = \<lambda>d s. ((int (length d), d), s), cd_slhc_uncompress = \<lambda>d s. ((int (length d), d), s),
     cd_v42bis_init = \<lambda>_ _ _. (), cd_v42bis_compress_p0 = \<lambda>_. 0, cd_v42bis_decompress_p0 = \<lambda>_. 0,
     cd_v42bis_p1 = \<lambda>_. 512, cd_v42bis_p2 = \<lambda>_. 6, cd_v42bis_compress = \<lambda>d s. ((0, d), s),
     cd_v42bis_compress_flush = \<lambda>s. ((0, []), s), cd_v42bis_decompress = \<lambda>d s. ((0, d), s),
     cd_v42bis_decompress_flush = \<lambda>s. ((0, []), s)\<rparr>"

definition sndcp_empty :: "'s sndcp" where
  "sndcp_empty = \<lparr>sn_entities = [], sn_comp = (\<lambda>_. None), sn_llme_comp = (\<lambda>_. None), sn_next = 0, sn_out = []\<rparr>"

definition cfg_plain :: sndcp_cfg where
  "cfg_plain = \<lparr>cfg_rfc1144_active = False, cfg_rfc1144_passive = False, cfg_rfc1144_s01 = 0,
     cfg_v42bis_active = False, cfg_v42bis_passive = False, cfg_v42bis_p0 = 0, cfg_v42bis_p1 = 0, cfg_v42bis_p2 = 0\<rparr>"

text \<open>
  C2. An N-PDU that is sent without compression reaches the peer unchanged: it is cut into SN-PDUs
  of at most N201-U octets each, and a peer with an entity for the NSAPI that receives the
  first of them followed by the others in any order hands up exactly this N-PDU.  The bound on
  the length is what fifteen segments carry.
\<close>

theorem npdu_reassembled:
  assumes "5 \<le> n201_u" and "\<not> any_pcomp_or_dcomp_active cfg" and "nsapi \<le> 15"
    and "gprs_sndcp_entity_by_lle st lle nsapi = Some sne" and "gprs_sndcp_entity_by_lle st2 lle2 nsapi = Some sne2"
    and "msg \<noteq> []" and "length msg \<le> (unat n201_u - 4) + 14 * (unat n201_u - 3)" and "length msg < 65280"
    and "mm_by_tlli tlli cell_id"
  shows "\<exists>st' pdu pdus. sndcp_sn_unitdata_req cfg cd collect n201_u msg lle nsapi st [] = Inr (0, st', pdu # pdus) \<and>
    (\<forall>p\<in>set (pdu # pdus). length p \<le> unat n201_u) \<and>
    (\<forall>order. mset order = mset pdus \<longrightarrow> (\<exists>st2'.
       rx_pdus (\<lambda>p. sndcp_ll_unitdata_ind cfg cd2 rc mm_by_tlli tlli cell_id lle2 (p @ trail) (length p)) (pdu # order) st2 = Inr st2' \<and>
       npdus (sn_out st2') = npdus (sn_out st2) @ [(lle2, nsapi, msg)]))"
proof -
  obtain segs where s: "segs \<noteq> []" "length segs \<le> 15" "concat segs = msg"
    "\<forall>i<length segs. length (sn_pdu nsapi (sne_tx_npdu_nr sne) 0 0 (length segs) segs i) \<le> unat n201_u"
    "sndcp_sn_unitdata_req cfg cd collect n201_u msg lle nsapi st [] =
      Inr (0, sne_store (sne\<lparr>sne_tx_npdu_nr := next_npdu_nr (sne_tx_npdu_nr sne)\<rparr>) st,
        map (sn_pdu nsapi (sne_tx_npdu_nr sne) 0 0 (length segs) segs) [0..<length segs])"
    using unitdata_req_segs [OF assms(1,2,4,6,7)] by blast
  let ?p = "sn_pdu nsapi (sne_tx_npdu_nr sne) 0 0 (length segs) segs"
  have u: "[0..<length segs] = 0 # [1..<length segs]" using s(1) by (simp add: upt_conv_Cons)
  have ok: "segs_ok segs" "concat segs \<noteq> []" using s(1-3) assms(6,8) by (simp_all add: segs_ok_def)
  have req: "sndcp_sn_unitdata_req cfg cd collect n201_u msg lle nsapi st [] =
      Inr (0, sne_store (sne\<lparr>sne_tx_npdu_nr := next_npdu_nr (sne_tx_npdu_nr sne)\<rparr>) st, ?p 0 # map ?p [1..<length segs])"
    using s(5) unfolding u by simp
  have fit: "\<forall>p\<in>set (?p 0 # map ?p [1..<length segs]). length p \<le> unat n201_u"
    using s(1,4) by auto
  have "\<exists>st2'. rx_pdus (\<lambda>p. sndcp_ll_unitdata_ind cfg cd2 rc mm_by_tlli tlli cell_id lle2 (p @ trail) (length p)) (?p 0 # order) st2 = Inr st2' \<and>
       npdus (sn_out st2') = npdus (sn_out st2) @ [(lle2, nsapi, msg)]"
    if "mset order = mset (map ?p [1..<length segs])" for order
  proof -
    from that
    obtain js where js: "order = map ?p js" "mset js = mset [1..<length segs]"
      by (metis ex_map_conv_mset)
    then have "distinct js" "set js = {1..<length segs}"
      by (metis distinct_upt mset_eq_imp_distinct_iff, metis mset_eq_setD set_upt)
    then have j: "distinct ((0 # js) @ [])" "set ((0 # js) @ []) = {..<length segs}" using s(1) by auto
    from rx_pdus_segs [where S = "[]" and mm_by_tlli = mm_by_tlli and js = "0 # js", OF assms(5) _ _ _ ok _ j assms(2,9,3)]
    show ?thesis unfolding js(1) s(3) by simp
  qed
  with req fit show ?thesis by blast
qed

lemma by_lle_activate:
  "gprs_sndcp_entity_by_lle (snd (sndcp_sm_activate_ind lle nsapi sndcp_empty)) lle nsapi =
   Some \<lparr>sne_lle = lle, sne_nsapi = nsapi, sne_rai = None, sne_tx_npdu_nr = 0, sne_defrag = empty_defrag\<rparr>"
  by (simp add: sndcp_sm_activate_ind_def gprs_sndcp_entity_by_lle_def gprs_sndcp_entity_alloc_def sndcp_empty_def)

definition npdu_example :: octets where
  "npdu_example = [1, 2, 3, 4, 5, 6, 7, 8, 9, 10, 11, 12, 13, 14, 15]"

theorem npdu_reassembled_witness:
  "\<exists>st' pdu pdus st2'. sndcp_sn_unitdata_req cfg_plain no_codec collect 10 npdu_example
       (0, 3) 5 (snd (sndcp_sm_activate_ind (0, 3) 5 sndcp_empty)) [] = Inr (0, st', pdu # pdus) \<and>
     rx_pdus (\<lambda>p. sndcp_ll_unitdata_ind cfg_plain no_codec 0 (\<lambda>_ _. True) 1 [] (1, 3) (p @ [0, 0, 0]) (length p)) (pdu # rev pdus)
       (snd (sndcp_sm_activate_ind (1, 3) 5 sndcp_empty)) = Inr st2' \<and>
     npdus (sn_out st2') = [((1, 3), 5, npdu_example)]"
proof -
  have a: "\<not> any_pcomp_or_dcomp_active cfg_plain" by (simp add: any_pcomp_or_dcomp_active_def cfg_plain_def)
  have o: "npdus (sn_out (snd (sndcp_sm_activate_ind (1, 3) 5 sndcp_empty))) = []"
    by (simp add: sndcp_sm_activate_ind_def gprs_sndcp_entity_by_lle_def gprs_sndcp_entity_alloc_def sndcp_empty_def)
  have n: "5 \<le> (10 :: u16)" "5 \<le> (15 :: u8)" "npdu_example \<noteq> []"
    "length npdu_example \<le> (unat (10 :: u16) - 4) + 14 * (unat (10 :: u16) - 3)" "length npdu_example < 65280"
    by (simp_all add: npdu_example_def)
  obtain st' pdu pdus where r: "sndcp_sn_unitdata_req cfg_plain no_codec collect 10 npdu_example
       (0, 3) 5 (snd (sndcp_sm_activate_ind (0, 3) 5 sndcp_empty)) [] = Inr (0, st', pdu # pdus)"
    "\<And>order. mset order = mset pdus \<Longrightarrow> \<exists>st2'.
       rx_pdus (\<lambda>p. sndcp_ll_unitdata_ind cfg_plain no_codec 0 (\<lambda>_ _. True) 1 [] (1, 3) (p @ [0, 0, 0]) (length p)) (pdu # order)
         (snd (sndcp_sm_activate_ind (1, 3) 5 sndcp_empty)) = Inr st2' \<and>
       npdus (sn_out st2') = [] @ [((1, 3), 5, npdu_example)]"
    using npdu_reassembled [OF n(1) a n(2) by_lle_activate [of "(0, 3)"] by_lle_activate [of "(1, 3)"] n(3-5),
      where mm_by_tlli = "\<lambda>_ _. True" and tlli = 1 and cell_id = "[]" and cd = no_codec and ?cd2.0 = no_codec and rc = 0
        and trail = "[0, 0, 0]", OF TrueI, unfolded o] by blast
  from r(2) [of "rev pdus"] have "\<exists>st2'.
       rx_pdus (\<lambda>p. sndcp_ll_unitdata_ind cfg_plain no_codec 0 (\<lambda>_ _. True) 1 [] (1, 3) (p @ [0, 0, 0]) (length p)) (pdu # rev pdus)
         (snd (sndcp_sm_activate_ind (1, 3) 5 sndcp_empty)) = Inr st2' \<and>
       npdus (sn_out st2') = [((1, 3), 5, npdu_example)]" by simp
  with r(1) show ?thesis by blast
qed

end
