(* ===== verification/Sndcp_Inv.thy ===== *)
theory Sndcp_Inv
  imports Sndcp_Frag
begin

unbundle bit_operations_syntax

section \<open>SNDCP: the invariant\<close>

text \<open>
  What every operation of SNDCP keeps: entities with distinct keys, compression lists of one
  class each with distinct entity numbers.
\<close>

subsection \<open>Invariant\<close>

text \<open>
  The key of an entity; compression lists of one class, with distinct entity numbers, whose
  entries use the one algorithm that is implemented.  Lists are allocated in pairs, so the
  header compression lists have even addresses and the data compression lists odd ones.
\<close>

definition sne_key :: "sndcp_entity \<Rightarrow> (nat \<times> nat) \<times> u8" where
  "sne_key sne = (sne_lle sne, sne_nsapi sne)"

definition comp_list_ok :: "xid_param_types \<Rightarrow> 's comp_entity list \<Rightarrow> bool" where
  "comp_list_ok cls cl \<longleftrightarrow> distinct (map ce_entity cl) \<and>
     (\<forall>ce\<in>set cl. ce_compclass ce = cls \<and> ce_algo ce = 0 \<and> ce_nsapi ce \<noteq> [])"

definition addr_class :: "nat \<Rightarrow> xid_param_types" where
  "addr_class a = (if even a then SNDCP_XID_PROTOCOL_COMPRESSION else SNDCP_XID_DATA_COMPRESSION)"

definition pair_ok :: "(nat \<times> nat) option \<Rightarrow> bool" where
  "pair_ok p = (case p of None \<Rightarrow> True | Some (a, b) \<Rightarrow> even a \<and> odd b)"

definition comp_store_ok :: "'s sndcp \<Rightarrow> bool" where
  "comp_store_ok st \<longleftrightarrow> even (sn_next st) \<and> (\<forall>l. pair_ok (sn_llme_comp st l)) \<and>
     (\<forall>a cl. sn_comp st a = Some cl \<longrightarrow> comp_list_ok (addr_class a) cl)"

definition sne_ok :: "sndcp_entity \<Rightarrow> bool" where
  "sne_ok sne \<longleftrightarrow> pair_ok (df_comp (sne_defrag sne))"

definition sndcp_inv :: "'s sndcp \<Rightarrow> bool" where
  "sndcp_inv st \<longleftrightarrow> distinct (map sne_key (sn_entities st)) \<and> (\<forall>sne\<in>set (sn_entities st). sne_ok sne) \<and> comp_store_ok st"

subsubsection \<open>Compression lists\<close>

lemma comp_list_ok_upd:
  "comp_list_ok cls cl \<Longrightarrow> comp_list_ok cls (upd_first P (\<lambda>ce. ce\<lparr>ce_state := s\<rparr>) cl)"
  unfolding comp_list_ok_def using set_upd_first [of P "\<lambda>ce. ce\<lparr>ce_state := s\<rparr>" cl]
  by (auto simp: map_upd_first) (fastforce+)?

lemma comp_list_ok_remove: "comp_list_ok cls cl \<Longrightarrow> comp_list_ok cls (remove_first (\<lambda>ce. ce_entity ce = e) cl)"
  by (auto simp: comp_list_ok_def remove_first_filter distinct_map_filter)

lemma with_entity_ok:
  "comp_list_ok cls cl \<Longrightarrow> ensures (with_entity P c ce cl run) (\<lambda>(r, cl'). comp_list_ok cls cl')"
  by (auto simp: with_entity_def comp_list_ok_upd ensures_def ebind_Inr_iff)

lemma with_entity_keeps:
  "with_entity P c ce cl run = Inr (r, cl') \<Longrightarrow> comp_list_ok cls cl \<Longrightarrow> comp_list_ok cls cl'"
  using ensuresD [OF with_entity_ok] by fastforce

lemma comp_delete_ok: "comp_list_ok cls cl \<Longrightarrow> ensures (gprs_sndcp_comp_delete cl e) (comp_list_ok cls)"
  by (auto simp: gprs_sndcp_comp_delete_def comp_list_ok_remove ensures_def ebind_Inr_iff split: option.splits if_splits)

lemma comp_delete_gone:
  "comp_list_ok cls cl \<Longrightarrow> ensures (gprs_sndcp_comp_delete cl e) (\<lambda>cl'. comp_list_ok cls cl' \<and> e \<notin> ce_entity ` set cl')"
  by (auto simp: gprs_sndcp_comp_delete_def comp_list_ok_remove ensures_def ebind_Inr_iff find_None_iff
      remove_first_filter comp_list_ok_def distinct_map_filter split: option.splits if_splits)

lemma comp_create_ok:
  assumes "gprs_sndcp_get_compression_class cf = cls"
  shows "ensures (gprs_sndcp_comp_create cd cf) (\<lambda>r. \<forall>ce. r = Some ce \<longrightarrow>
    ce_compclass ce = cls \<and> ce_algo ce = 0 \<and> ce_nsapi ce \<noteq> [] \<and> ce_entity ce = cf_entity cf)"
  using assms
  by (auto simp: gprs_sndcp_comp_create_def gprs_sndcp_pcomp_init_def gprs_sndcp_dcomp_init_def ensures_def ebind_Inr_iff Let_def
      split: option.splits if_splits xid_param_types.splits)

lemma comp_add_ok:
  assumes "comp_list_ok cls cl" "gprs_sndcp_get_compression_class cf = cls"
  shows "ensures (gprs_sndcp_comp_add cd cl cf) (comp_list_ok cls)"
proof (rule ensuresI)
  fix cl' assume "gprs_sndcp_comp_add cd cl cf = Inr cl'"
  then obtain cl1 r where c: "gprs_sndcp_comp_delete cl (cf_entity cf) = Inr cl1" "gprs_sndcp_comp_create cd cf = Inr r"
    "cl' = (case r of None \<Rightarrow> cl1 | Some ce \<Rightarrow> ce # cl1)"
    by (auto simp: gprs_sndcp_comp_add_def ebind_Inr_iff)
  from ensuresD [OF comp_delete_gone [OF assms(1)] c(1)] ensuresD [OF comp_create_ok [OF assms(2)] c(2)] c(3)
  show "comp_list_ok cls cl'" by (auto simp: comp_list_ok_def split: option.splits)
qed

lemma store_upd:
  assumes "comp_store_ok st" "comp_list_ok (addr_class a) cl"
  shows "comp_store_ok (st\<lparr>sn_comp := (sn_comp st)(a \<mapsto> cl)\<rparr>)"
  using assms by (auto simp: comp_store_ok_def)

lemma store_free: "comp_store_ok st \<Longrightarrow> comp_store_ok (st\<lparr>sn_comp := (sn_comp st)(a := None)\<rparr>)"
  by (auto simp: comp_store_ok_def)

lemma store_cong:
  "sn_next st' = sn_next st \<Longrightarrow> sn_llme_comp st' = sn_llme_comp st \<Longrightarrow> sn_comp st' = sn_comp st \<Longrightarrow> comp_store_ok st' = comp_store_ok st"
  by (simp add: comp_store_ok_def)

lemma comp_list_at:
  "comp_store_ok st \<Longrightarrow> ensures (comp_list st a) (\<lambda>cl. a \<noteq> None \<and> comp_list_ok (addr_class (the a)) cl)"
  by (auto simp: comp_list_def comp_store_ok_def ensures_def split: option.splits)

lemma pair_class:
  assumes "pair_ok p" "p \<noteq> None"
  shows "addr_class (the (map_option fst p)) = SNDCP_XID_PROTOCOL_COMPRESSION"
    "addr_class (the (map_option snd p)) = SNDCP_XID_DATA_COMPRESSION"
  using assms by (auto simp: pair_ok_def addr_class_def split: option.splits)

lemma pcomp_expand_ok:
  "comp_list_ok cls cl \<Longrightarrow> ensures (gprs_sndcp_pcomp_expand cd cap data c cl) (\<lambda>(r, cl'). comp_list_ok cls cl')"
  using with_entity_ok by (fastforce simp: gprs_sndcp_pcomp_expand_def split: option.splits)

lemma dcomp_expand_ok:
  "comp_list_ok cls cl \<Longrightarrow> ensures (gprs_sndcp_dcomp_expand cd cap data c cl) (\<lambda>(r, cl'). comp_list_ok cls cl')"
  using with_entity_ok by (fastforce simp: gprs_sndcp_dcomp_expand_def split: option.splits)

lemma pcomp_compress_ok:
  "comp_list_ok cls cl \<Longrightarrow> ensures (gprs_sndcp_pcomp_compress cd data cl c) (\<lambda>(r, cl'). comp_list_ok cls cl')"
  by (auto simp: gprs_sndcp_pcomp_compress_def ensures_def ebind_Inr_iff split: option.splits dest: with_entity_keeps)

lemma dcomp_compress_ok:
  "comp_list_ok cls cl \<Longrightarrow> ensures (gprs_sndcp_dcomp_compress cd data cl c) (\<lambda>(r, cl'). comp_list_ok cls cl')"
  by (auto simp: gprs_sndcp_dcomp_compress_def ensures_def ebind_Inr_iff split: option.splits dest: with_entity_keeps)

text \<open>A step on the list at an address of the store.\<close>

definition comp_frame :: "'s sndcp \<Rightarrow> 's sndcp \<Rightarrow> bool" where
  "comp_frame st st' \<longleftrightarrow> sn_entities st' = sn_entities st \<and> (comp_store_ok st \<longrightarrow> comp_store_ok st')"

lemma frame_refl [simp]: "comp_frame st st" by (simp add: comp_frame_def)

lemma frame_trans: "comp_frame st st' \<Longrightarrow> comp_frame st' st'' \<Longrightarrow> comp_frame st st''"
  by (simp add: comp_frame_def)

lemma frame_upd:
  assumes "comp_list st a = Inr cl" "\<And>cls. comp_list_ok cls cl \<Longrightarrow> comp_list_ok cls cl'"
  shows "comp_frame st (st\<lparr>sn_comp := (sn_comp st)(the a \<mapsto> cl')\<rparr>)"
  using assms ensuresD [OF comp_list_at assms(1)] by (auto simp: comp_frame_def intro!: store_upd)

lemma decompress_frame: "ensures (decompress_segment cd d data st) (\<lambda>(r, st'). comp_frame st st')"
proof (rule ensuresI, clarify)
  fix r st' assume r: "decompress_segment cd d data st = Inr (r, st')"
  let ?cap = "length data * MAX_DATADECOMPR_FAC + MAX_HDRDECOMPR_INCR"
  from r obtain cl rc ex cl' where a: "comp_list st (map_option snd (df_comp d)) = Inr cl"
    "gprs_sndcp_dcomp_expand cd ?cap data (df_dcomp d) cl = Inr ((rc, ex), cl')"
    by (auto simp: decompress_segment_def Let_def ebind_Inr_iff)
  let ?st = "st\<lparr>sn_comp := (sn_comp st)(the (map_option snd (df_comp d)) \<mapsto> cl')\<rparr>"
  have f1: "comp_frame st ?st"
    using ensuresD [OF dcomp_expand_ok a(2)] by (intro frame_upd [OF a(1)]) auto
  show "comp_frame st st'"
  proof (cases "rc < 0")
    case True
    then show ?thesis using r a f1 by (simp add: decompress_segment_def Let_def)
  next
    case False
    with r a obtain cl2 rc2 ex2 cl2' where b: "comp_list ?st (map_option fst (df_comp d)) = Inr cl2"
      "gprs_sndcp_pcomp_expand cd ?cap (take (nat rc) ex) (df_pcomp d) cl2 = Inr ((rc2, ex2), cl2')"
      "st' = ?st\<lparr>sn_comp := (sn_comp ?st)(the (map_option fst (df_comp d)) \<mapsto> cl2')\<rparr>"
      by (auto simp: decompress_segment_def Let_def ebind_Inr_iff split: if_splits)
    have "comp_frame ?st st'" unfolding b(3)
      using ensuresD [OF pcomp_expand_ok b(2)] by (intro frame_upd [OF b(1)]) auto
    with f1 show ?thesis by (rule frame_trans)
  qed
qed

lemma compress_frame: "ensures (compress_npdu cfg cd msg llme nsapi st) (\<lambda>(r, st'). comp_frame st st')"
proof (rule ensuresI, clarify)
  fix r st' assume r: "compress_npdu cfg cd msg llme nsapi st = Inr (r, st')"
  let ?p = "map_option fst (sn_llme_comp st llme)" and ?d = "map_option snd (sn_llme_comp st llme)"
  show "comp_frame st st'"
  proof (cases "any_pcomp_or_dcomp_active cfg")
    case False
    then show ?thesis using r by (simp add: compress_npdu_def)
  next
    case True
    with r obtain cl rc m pc cl' where a: "comp_list st ?p = Inr cl" "gprs_sndcp_pcomp_compress cd msg cl nsapi = Inr ((rc, m, pc), cl')"
      by (auto simp: compress_npdu_def Let_def ebind_Inr_iff)
    let ?st = "st\<lparr>sn_comp := (sn_comp st)(the ?p \<mapsto> cl')\<rparr>"
    have f1: "comp_frame st ?st"
      using ensuresD [OF pcomp_compress_ok a(2)] by (intro frame_upd [OF a(1)]) auto
    show ?thesis
    proof (cases "rc < 0 \<or> nat rc > length m")
      case True
      then show ?thesis using r a f1 \<open>any_pcomp_or_dcomp_active cfg\<close> by (auto simp: compress_npdu_def Let_def split: if_splits)
    next
      case False
      with r a True obtain cl2 rc2 m2 dc cl2' where b: "comp_list ?st ?d = Inr cl2"
        "gprs_sndcp_dcomp_compress cd (take (nat rc) m) cl2 nsapi = Inr ((rc2, m2, dc), cl2')"
        "st' = ?st\<lparr>sn_comp := (sn_comp ?st)(the ?d \<mapsto> cl2')\<rparr>"
        by (auto simp: compress_npdu_def Let_def ebind_Inr_iff split: if_splits)
      have "comp_frame ?st st'" unfolding b(3)
        using ensuresD [OF dcomp_compress_ok b(2)] by (intro frame_upd [OF b(1)]) auto
      with f1 show ?thesis by (rule frame_trans)
    qed
  qed
qed


subsubsection \<open>Entities\<close>

lemma store_simps [simp]:
  "comp_store_ok (sne_store sne st) = comp_store_ok st" "comp_store_ok (sn_emit e st) = comp_store_ok st"
  "sn_llme_comp (sne_store sne st) = sn_llme_comp st" "sn_llme_comp (sn_emit e st) = sn_llme_comp st"
  "sn_entities (sn_emit e st) = sn_entities st"
  by (simp_all add: comp_store_ok_def sne_store_def sne_upd_def sn_emit_def)

lemma inv_store:
  assumes "sndcp_inv st" "sne_ok sne"
  shows "sndcp_inv (sne_store sne st)"
proof -
  let ?P = "\<lambda>s. sne_lle s = sne_lle sne \<and> sne_nsapi s = sne_nsapi sne"
  have "map sne_key (upd_first ?P (\<lambda>_. sne) xs) = map sne_key xs" for xs
    by (induction xs) (auto simp: sne_key_def)
  moreover have "set (upd_first ?P (\<lambda>_. sne) xs) \<subseteq> insert sne (set xs)" for xs
    by (induction xs) auto
  ultimately show ?thesis
    using assms unfolding sndcp_inv_def store_simps sne_store_def sne_upd_def
    by (auto simp: comp_store_ok_def)
qed

lemma inv_sn_emit [simp]: "sndcp_inv (sn_emit e st) = sndcp_inv st"
  by (simp add: sndcp_inv_def)

lemma inv_frame: "comp_frame st st' \<Longrightarrow> sndcp_inv st \<Longrightarrow> sndcp_inv st'"
  by (simp add: comp_frame_def sndcp_inv_def)

lemma inv_at: "sndcp_inv st \<Longrightarrow> gprs_sndcp_entity_by_lle st lle nsapi = Some sne \<Longrightarrow> sne_ok sne"
  by (auto simp: sndcp_inv_def gprs_sndcp_entity_by_lle_def find_Some_iff)

lemma sne_ok_simps [simp]:
  "sne_ok (sne\<lparr>sne_rai := r\<rparr>) = sne_ok sne" "sne_ok (sne\<lparr>sne_tx_npdu_nr := n\<rparr>) = sne_ok sne"
  "sne_ok (sne\<lparr>sne_defrag := d\<rparr>) = pair_ok (df_comp d)"
  by (simp_all add: sne_ok_def)

lemma sn_inv_deliver:
  assumes "sndcp_inv st" "deliver_npdu cfg cd rc sne npdu st = Inr (r, st')"
  shows "sndcp_inv st'"
proof (cases "any_pcomp_or_dcomp_active cfg")
  case True
  with assms(2) obtain ex st1 where d: "decompress_segment cd (sne_defrag sne) npdu st = Inr (ex, st1)"
    "(case ex of None \<Rightarrow> Inr (- EIO, st1) | Some ex \<Rightarrow> Inr (sndcp_sn_unitdata_ind rc sne ex st1)) = (Inr (r, st') :: _ exec)"
    by (auto simp: deliver_npdu_def ebind_Inr_iff)
  then have "sndcp_inv st1" using inv_frame assms(1) ensuresD [OF decompress_frame d(1)] by auto
  then show ?thesis using d(2) by (auto simp: sndcp_sn_unitdata_ind_def split: option.splits)
next
  case False
  then show ?thesis using assms by (auto simp: deliver_npdu_def sndcp_sn_unitdata_ind_def)
qed

lemma inv_defrag_segments:
  assumes "sndcp_inv st" "sne_ok sne" "defrag_segments cfg cd rc sne st = Inr (r, st')"
  shows "sndcp_inv st'"
  using assms
  by (auto simp: defrag_segments_def Let_def ebind_Inr_iff sne_ok_def intro!: inv_store split: option.splits if_splits
      elim!: sn_inv_deliver [rotated])

lemma enqueue_comp: "defrag_enqueue s m n d = Inr (rc, d') \<Longrightarrow> df_comp d' = df_comp d"
  by (auto simp: defrag_enqueue_def split: if_splits)

lemma inv_defrag_check:
  assumes "sndcp_inv st" "pair_ok (df_comp d)" "defrag_check cfg cd rc sne sch d st = Inr (r, st')"
  shows "sndcp_inv st'"
proof -
  define d2 where "d2 = (if sch_more sch then d else d\<lparr>df_no_more := True\<rparr>)"
  have ok2: "sne_ok (sne\<lparr>sne_defrag := d2\<rparr>)" using assms(2) by (simp add: d2_def)
  show ?thesis
    using assms(3) inv_store [OF assms(1) ok2] inv_defrag_segments [OF inv_store [OF assms(1) ok2] ok2]
    unfolding defrag_check_def Let_def d2_def [symmetric] by (auto split: if_splits)
qed

lemma inv_defrag_input:
  assumes "sndcp_inv st" "sne_ok sne" "defrag_input cfg cd rc sne mem len st = Inr (r, st')"
  shows "sndcp_inv st'"
proof -
  have c: "pair_ok (df_comp d1)" if "defrag_enqueue s m n (defrag_first k (sne_defrag sne)) = Inr (rc0, d1)" for s m n k rc0 d1
    using enqueue_comp [OF that] assms(2) by (simp add: sne_ok_def defrag_first_def)
  have c': "pair_ok (df_comp d1)" if "defrag_enqueue s m n (sne_defrag sne) = Inr (rc0, d1)" for s m n rc0 d1
    using enqueue_comp [OF that] assms(2) by (simp add: sne_ok_def)
  have I: "sndcp_inv (sne_store (sne\<lparr>sne_defrag := d\<rparr>) st)" if "pair_ok (df_comp d)" for d
    using that by (intro inv_store [OF assms(1)]) simp
  show ?thesis
    using assms(3)
    by (auto simp: defrag_input_def ebind_Inr_iff Let_def split: if_split_asm
        intro: inv_defrag_check [OF assms(1)] I dest: c c')
qed

lemma inv_ll_sne:
  assumes "sndcp_inv st" "sne_ok sne" "ll_unitdata_sne cfg cd rc sch mem len sne st = Inr (r, st')"
  shows "sndcp_inv st'"
  using assms(3) inv_store [OF assms(1,2)] assms(2)
  by (auto simp: ll_unitdata_sne_def Let_def split: if_splits intro: inv_defrag_input sn_inv_deliver)

lemma inv_ll_unitdata_ind:
  assumes "sndcp_inv st" "sndcp_ll_unitdata_ind cfg cd rc mm tlli cell lle mem len st = Inr (r, st')"
  shows "sndcp_inv st'"
proof -
  have p: "pair_ok (sn_llme_comp st l)" for l using assms(1) by (auto simp: sndcp_inv_def comp_store_ok_def)
  have t: "sne_ok sne'" if "take_comp_hdr sch mem (sn_llme_comp st l) sne = Inr sne'" "sne_ok sne" for sch l sne sne'
    using that p by (auto simp: take_comp_hdr_def ebind_Inr_iff split: if_splits)
  have i: "sndcp_inv (sne_store (sne\<lparr>sne_rai := c\<rparr>) st)" if "gprs_sndcp_entity_by_lle st lle n = Some sne" for n sne c
    using inv_at [OF assms(1) that] by (intro inv_store [OF assms(1)]) simp
  show ?thesis
    using assms i inv_at [OF assms(1), of lle]
    by (auto simp: sndcp_ll_unitdata_ind_def Let_def ebind_Inr_iff split: if_split_asm option.split_asm
        elim!: inv_ll_sne [rotated 2] dest!: t)
qed

lemma inv_activate:
  assumes "sndcp_inv st" "sndcp_sm_activate_ind lle nsapi st = (rc, st')"
  shows "sndcp_inv st'"
proof (cases "gprs_sndcp_entity_by_lle st lle nsapi = None")
  case True
  then have "(lle, nsapi) \<notin> sne_key ` set (sn_entities st)"
    by (auto simp: gprs_sndcp_entity_by_lle_def find_None_iff sne_key_def)
  with True assms show ?thesis
    by (auto simp: sndcp_sm_activate_ind_def gprs_sndcp_entity_alloc_def sndcp_inv_def sne_key_def sne_ok_def
        empty_defrag_def pair_ok_def comp_store_ok_def)
next
  case False
  then show ?thesis using assms by (auto simp: sndcp_sm_activate_ind_def)
qed

lemma inv_deactivate:
  assumes "sndcp_inv st" "sndcp_sm_deactivate_ind lle nsapi st = (rc, st')"
  shows "sndcp_inv st'"
proof -
  have p: "(\<lambda>sne. sne_lle sne = lle \<and> sne_nsapi sne = nsapi) = (\<lambda>sne. sne_key sne = (lle, nsapi))"
    by (auto simp: sne_key_def)
  show ?thesis
    using assms unfolding sndcp_sm_deactivate_ind_def p
    by (auto simp: sndcp_inv_def remove_first_filter distinct_map_filter comp_store_ok_def split: if_splits)
qed

lemma inv_deactivate_llme: "sndcp_inv (st :: 'a sndcp) \<Longrightarrow> sndcp_inv (gprs_sndcp_sm_deactivate_ind_by_llme llme st)"
proof -
  assume i: "sndcp_inv st"
  have "sndcp_inv st' \<Longrightarrow> sndcp_inv (fold (\<lambda>sne (st :: 'a sndcp). if fst (sne_lle sne) = llme
      then snd (sndcp_sm_deactivate_ind (sne_lle sne) (sne_nsapi sne) st) else st) xs st')" for xs and st' :: "'a sndcp"
    by (induction xs arbitrary: st') (auto intro: inv_deactivate [OF _ surjective_pairing])
  with i show ?thesis unfolding gprs_sndcp_sm_deactivate_ind_by_llme_def by blast
qed

lemma inv_comp_alloc: "sndcp_inv st \<Longrightarrow> sndcp_inv (llme_comp_alloc llme st)"
  by (auto simp: sndcp_inv_def llme_comp_alloc_def Let_def comp_store_ok_def pair_ok_def comp_list_ok_def gprs_sndcp_comp_alloc_def)

lemma inv_comp_free:
  assumes "sndcp_inv st" "llme_comp_free llme st = Inr st'"
  shows "sndcp_inv st'"
proof -
  from assms(2) obtain a b where "st' = st\<lparr>sn_comp := (sn_comp st)(a := None, b := None)\<rparr>"
    by (auto simp: llme_comp_free_def Let_def ebind_Inr_iff)
  then show ?thesis using assms(1) by (auto simp: sndcp_inv_def comp_store_ok_def)
qed

lemma inv_llme_free: "sndcp_inv st \<Longrightarrow> sndcp_llme_free llme st = Inr st' \<Longrightarrow> sndcp_inv st'"
  by (auto simp: sndcp_llme_free_def ebind_Inr_iff sndcp_inv_def comp_store_ok_def pair_ok_def
      dest!: inv_comp_free [OF inv_deactivate_llme, rotated])

lemma inv_unitdata_req:
  assumes "sndcp_inv st" "sndcp_sn_unitdata_req cfg cd tx n msg lle nsapi st l = Inr (rc, st', l')"
  shows "sndcp_inv st'"
proof -
  from assms(2) obtain r st1 where c: "compress_npdu cfg cd msg (fst lle) nsapi st = Inr (r, st1)"
    by (auto simp: sndcp_sn_unitdata_req_def ebind_Inr_iff)
  have i: "sndcp_inv st1" using inv_frame assms(1) ensuresD [OF compress_frame c] by auto
  have I: "sndcp_inv (sne_store (sne\<lparr>sne_tx_npdu_nr := k\<rparr>) st1)" if "gprs_sndcp_entity_by_lle st1 lle nsapi = Some sne" for sne k
    using inv_at [OF i that] by (intro inv_store [OF i]) simp
  show ?thesis
    using assms(2) i I unfolding sndcp_sn_unitdata_req_def c Let_def ebind_simps prod.case
    by (auto simp: ebind_Inr_iff split: option.split_asm if_split_asm)
qed

lemma sn_inv_xid_req:
  assumes "sndcp_inv st" "sndcp_sn_xid_req tlv_put cfg lle nsapi st llc = Inr (rc, st', llc')"
  shows "sndcp_inv st'"
proof -
  from assms(2) obtain st1 where "llme_comp_free (fst lle) st = Inr st1" "st' = llme_comp_alloc (fst lle) st1"
    by (auto simp: sndcp_sn_xid_req_def Let_def ebind_Inr_iff)
  then show ?thesis using inv_comp_alloc inv_comp_free [OF assms(1)] by auto
qed

lemma on_comp_keeps:
  assumes "sndcp_inv st" "on_comp sel llme f st = Inr st'"
    and "\<And>cl cl' a. sel = fst \<Longrightarrow> comp_list_ok SNDCP_XID_PROTOCOL_COMPRESSION cl \<Longrightarrow> f cl = Inr cl' \<Longrightarrow> comp_list_ok SNDCP_XID_PROTOCOL_COMPRESSION cl'"
    and "\<And>cl cl' a. sel = snd \<Longrightarrow> comp_list_ok SNDCP_XID_DATA_COMPRESSION cl \<Longrightarrow> f cl = Inr cl' \<Longrightarrow> comp_list_ok SNDCP_XID_DATA_COMPRESSION cl'"
    and sel: "sel = fst \<or> sel = snd"
  shows "sndcp_inv st'"
proof -
  let ?a = "map_option sel (sn_llme_comp st llme)"
  from assms(2) obtain cl cl' where c: "comp_list st ?a = Inr cl" "f cl = Inr cl'" "st' = st\<lparr>sn_comp := (sn_comp st)(the ?a \<mapsto> cl')\<rparr>"
    by (auto simp: on_comp_def Let_def ebind_Inr_iff)
  have s: "comp_store_ok st" "pair_ok (sn_llme_comp st llme)" using assms(1) by (auto simp: sndcp_inv_def comp_store_ok_def)
  have k: "?a \<noteq> None" "comp_list_ok (addr_class (the ?a)) cl" using ensuresD [OF comp_list_at [OF s(1)] c(1)] by auto
  have "comp_list_ok (addr_class (the ?a)) cl'"
    using sel k assms(3,4) c(2) pair_class [OF s(2)] by auto
  then show ?thesis using assms(1) store_upd [OF s(1)] by (simp add: c(3) sndcp_inv_def)
qed

lemma on_comp_delete:
  assumes "sndcp_inv st" "on_comp sel llme (\<lambda>cl. gprs_sndcp_comp_delete cl e) st = Inr st'" "sel = fst \<or> sel = snd"
  shows "sndcp_inv st'"
  using assms(3) by (intro on_comp_keeps [OF assms(1,2)]) (auto dest: ensuresD [OF comp_delete_ok])

lemma class_p [simp]: "gprs_sndcp_get_compression_class (cf\<lparr>cf_p := b\<rparr>) = gprs_sndcp_get_compression_class cf"
  by (simp add: gprs_sndcp_get_compression_class_def)

lemma fst_snd_neq: "(fst :: nat \<times> nat \<Rightarrow> nat) \<noteq> snd"
proof
  assume "(fst :: nat \<times> nat \<Rightarrow> nat) = snd"
  then have "fst (0 :: nat, 1 :: nat) = snd (0 :: nat, 1 :: nat)" by (rule fun_cong)
  then show False by simp
qed

lemma on_comp_add:
  assumes "sndcp_inv st"
    and "sel = fst \<and> gprs_sndcp_get_compression_class cf = SNDCP_XID_PROTOCOL_COMPRESSION \<or>
         sel = snd \<and> gprs_sndcp_get_compression_class cf = SNDCP_XID_DATA_COMPRESSION"
    and "on_comp sel llme (\<lambda>cl. gprs_sndcp_comp_add cd cl cf) st = Inr st'"
  shows "sndcp_inv st'"
  using assms(2) fst_snd_neq by (intro on_comp_keeps [OF assms(1,3)]) (auto dest: ensuresD [OF comp_add_ok])

lemma inv_pcomp:
  assumes "sndcp_inv st" "gprs_sndcp_get_compression_class cf = SNDCP_XID_PROTOCOL_COMPRESSION"
    and "handle_pcomp_entities cfg cd cf llme st = Inr (cf', st')"
  shows "sndcp_inv st'"
  using assms(3) on_comp_delete [OF assms(1)] on_comp_add [OF assms(1), where cf = "cf\<lparr>cf_p := False\<rparr>"] assms(1,2)
  by (auto simp: handle_pcomp_entities_def Let_def ebind_Inr_iff split: if_split_asm)

lemma inv_dcomp:
  assumes "sndcp_inv st" "gprs_sndcp_get_compression_class cf = SNDCP_XID_DATA_COMPRESSION"
    and "handle_dcomp_entities cfg cd cf llme st = Inr (cf', st')"
  shows "sndcp_inv st'"
  using assms(3) on_comp_delete [OF assms(1)] on_comp_add [OF assms(1), where cf = "cf\<lparr>cf_p := False\<rparr>"] assms(1,2)
  by (auto simp: handle_dcomp_entities_def Let_def ebind_Inr_iff split: if_split_asm)

lemma inv_comp_fields:
  "sndcp_inv st \<Longrightarrow> handle_comp_fields cfg cd cfs llme st = Inr (cfs', st') \<Longrightarrow> sndcp_inv st'"
proof (induction cfs arbitrary: st cfs')
  case (Cons cf cfs)
  from Cons.prems(2) obtain cf1 st1 cfs1 where r: "handle_comp_fields cfg cd cfs llme st1 = Inr (cfs1, st')"
    and s: "(case gprs_sndcp_get_compression_class cf of
              SNDCP_XID_PROTOCOL_COMPRESSION \<Rightarrow> handle_pcomp_entities cfg cd cf llme st
            | SNDCP_XID_DATA_COMPRESSION \<Rightarrow> handle_dcomp_entities cfg cd cf llme st
            | _ \<Rightarrow>
                ebind (on_comp fst llme (\<lambda>cl. gprs_sndcp_comp_delete cl (cf_entity cf)) st) (\<lambda>st.
                ebind (on_comp snd llme (\<lambda>cl. gprs_sndcp_comp_delete cl (cf_entity cf)) st) (\<lambda>st.
                  Inr (cf, st)))) = Inr (cf1, st1)"
    by (auto simp: ebind_Inr_iff)
  have d: "sndcp_inv st1" if "ebind (on_comp fst llme (\<lambda>cl. gprs_sndcp_comp_delete cl (cf_entity cf)) st) (\<lambda>st.
                ebind (on_comp snd llme (\<lambda>cl. gprs_sndcp_comp_delete cl (cf_entity cf)) st) (\<lambda>st.
                  Inr (cf, st))) = Inr (cf1, st1)"
  proof -
    from that obtain x where x: "on_comp fst llme (\<lambda>cl. gprs_sndcp_comp_delete cl (cf_entity cf)) st = Inr x"
      "on_comp snd llme (\<lambda>cl. gprs_sndcp_comp_delete cl (cf_entity cf)) x = Inr st1"
      by (auto simp: ebind_Inr_iff)
    from on_comp_delete [OF Cons.prems(1) x(1)] have "sndcp_inv x" by simp
    from on_comp_delete [OF this x(2)] show ?thesis by simp
  qed
  have "sndcp_inv st1"
    using s d inv_pcomp [OF Cons.prems(1)] inv_dcomp [OF Cons.prems(1)]
    by (cases "gprs_sndcp_get_compression_class cf") simp_all
  then show ?case using r by (rule Cons.IH)
qed simp

lemma inv_xid_ind:
  assumes "sndcp_inv st" "sndcp_sn_xid_ind tlv_put tlv_parse_one cfg cd ind llme st = Inr (r, st')"
  shows "sndcp_inv st'"
  using assms inv_comp_fields
  by (fastforce simp: sndcp_sn_xid_ind_def ebind_Inr_iff split: if_split_asm option.split_asm)

lemma sn_inv_xid_conf:
  assumes "sndcp_inv st" "sndcp_sn_xid_conf tlv_parse_one cfg cd conf req llme st = Inr (r, st')"
  shows "sndcp_inv st'"
  using assms inv_comp_fields
  by (fastforce simp: sndcp_sn_xid_conf_def ebind_Inr_iff split: if_split_asm option.split_asm)

text \<open>
  The ways the other components drive SNDCP: session management activates and deactivates
  entities, LLC allocates and frees an LLME and hands up frames and XID
  information, GTP sends N-PDUs down.  An operation that aborts has no successor state.
\<close>

inductive sndcp_step :: "sndcp_cfg \<Rightarrow> 's codec \<Rightarrow> 's sndcp \<Rightarrow> 's sndcp \<Rightarrow> bool" for cfg cd where
  step_activate: "sndcp_sm_activate_ind lle nsapi st = (rc, st') \<Longrightarrow> sndcp_step cfg cd st st'"
| step_deactivate: "sndcp_sm_deactivate_ind lle nsapi st = (rc, st') \<Longrightarrow> sndcp_step cfg cd st st'"
| step_llme_alloc: "sn_llme_comp st llme = None \<Longrightarrow> sndcp_step cfg cd st (llme_comp_alloc llme st)"
| step_llme_free: "sndcp_llme_free llme st = Inr st' \<Longrightarrow> sndcp_step cfg cd st st'"
| step_ll_unitdata_ind:
    "sndcp_ll_unitdata_ind cfg cd gtp_rc mm_by_tlli tlli cell_id lle mem len st = Inr (rc, st') \<Longrightarrow> sndcp_step cfg cd st st'"
| step_unitdata_req:
    "sndcp_sn_unitdata_req cfg cd (tx :: octets \<Rightarrow> llc \<Rightarrow> (int \<times> llc) exec) n201_u msg lle nsapi st l = Inr (rc, st', l') \<Longrightarrow> sndcp_step cfg cd st st'"
| step_xid_req: "sndcp_sn_xid_req tlv_put cfg lle nsapi st llc = Inr (rc, st', llc') \<Longrightarrow> sndcp_step cfg cd st st'"
| step_xid_ind: "sndcp_sn_xid_ind tlv_put tlv_parse_one cfg cd ind llme st = Inr (r, st') \<Longrightarrow> sndcp_step cfg cd st st'"
| step_xid_conf: "sndcp_sn_xid_conf tlv_parse_one cfg cd conf req llme st = Inr (rc, st') \<Longrightarrow> sndcp_step cfg cd st st'"

inductive sndcp_reachable :: "sndcp_cfg \<Rightarrow> 's codec \<Rightarrow> 's sndcp \<Rightarrow> bool" for cfg cd where
  reach_init: "sndcp_reachable cfg cd sndcp_empty"
| reach_step: "sndcp_reachable cfg cd st \<Longrightarrow> sndcp_step cfg cd st st' \<Longrightarrow> sndcp_reachable cfg cd st'"

lemma inv_step: "sndcp_step cfg cd st st' \<Longrightarrow> sndcp_inv st \<Longrightarrow> sndcp_inv st'"
proof (induction rule: sndcp_step.induct)
  case (step_activate lle nsapi st rc st') then show ?case by (blast intro: inv_activate)
next
  case (step_deactivate lle nsapi st rc st') then show ?case by (blast intro: inv_deactivate)
next
  case (step_llme_alloc st llme) then show ?case by (blast intro: inv_comp_alloc)
next
  case (step_llme_free llme st st') then show ?case by (blast intro: inv_llme_free)
next
  case step_ll_unitdata_ind then show ?case by (blast intro: inv_ll_unitdata_ind)
next
  case step_unitdata_req then show ?case by (blast intro: inv_unitdata_req)
next
  case step_xid_req then show ?case by (blast intro: sn_inv_xid_req)
next
  case step_xid_ind then show ?case by (blast intro: inv_xid_ind)
next
  case step_xid_conf then show ?case by (blast intro: sn_inv_xid_conf)
qed

text \<open>
  C5. Every sequence of calls into SNDCP, from session management, LLC and GTP, keeps its
  invariant: no two entities have the same LLC entity and NSAPI, the header and data
  compression lists hold only entities of their class with distinct numbers, an
  implemented algorithm and at least one NSAPI, and the lists an LLME or a reassembly refers
  to are one of each class.
\<close>

theorem sndcp_reachable_inv:
  assumes "sndcp_reachable cfg cd st"
  shows "sndcp_inv st"
  using assms
proof (induction rule: sndcp_reachable.induct)
  case reach_init
  show ?case by (simp add: sndcp_inv_def sndcp_empty_def comp_store_ok_def pair_ok_def)
next
  case (reach_step st st')
  then show ?case by (blast intro: inv_step)
qed

theorem sndcp_reachable_inv_witness:
  "sndcp_inv (snd (sndcp_sm_activate_ind (0, 3) 5 (llme_comp_alloc 0 (sndcp_empty :: unit sndcp))))"
proof -
  have "sndcp_reachable cfg_plain no_codec (llme_comp_alloc 0 sndcp_empty)"
    by (rule reach_step [OF reach_init step_llme_alloc]) (simp add: sndcp_empty_def)
  then have "sndcp_reachable cfg_plain no_codec (snd (sndcp_sm_activate_ind (0, 3) 5 (llme_comp_alloc 0 sndcp_empty)))"
    by (rule reach_step [OF _ step_activate [OF surjective_pairing]])
  then show ?thesis by (rule sndcp_reachable_inv)
qed

end
