(* ===== verification/Sndcp_Xid_Props.thy ===== *)
theory Sndcp_Xid_Props
  imports Sndcp_Xid
begin

unbundle bit_operations_syntax

section \<open>SNDCP XID: properties of messages\<close>

text \<open>
  The round trip of whole messages, carried by the same stream argument as for LLC XID
  (\<open>field_stream\<close>, here interpreted on \<open>xid_block_loop\<close>), the completion of a response from
  its request, and the inputs on which encoder and decoder disagree or the parser leaves
  its defined behaviour.
\<close>

subsection \<open>Blocks of fields\<close>

text \<open>The encoding of a well-formed field, and that the block loop undoes a run of them.\<close>

definition comp_field_octets :: "comp_field \<Rightarrow> octets" where
  "comp_field_octets f = (case encode_comp_field 512 f of Inr (rc, bs) \<Rightarrow> bs | Inl _ \<Rightarrow> [])"

lemma comp_field_octets:
  assumes "comp_field_ok lt cls f"
  shows "length (comp_field_octets f) \<le> m \<Longrightarrow>
      encode_comp_field m f = Inr (int (length (comp_field_octets f)), comp_field_octets f)"
    and "4 \<le> length (comp_field_octets f)"
    and "1 \<le> n \<Longrightarrow> decode_comp_field (comp_field_octets f @ rest) n lt cls =
      Inr (int (length (comp_field_octets f)), f)"
proof -
  obtain bs where bs: "\<And>m. length bs \<le> m \<Longrightarrow> encode_comp_field m f = Inr (int (length bs), bs)"
    "4 \<le> length bs" "length bs \<le> 44"
    "\<And>rest n. 1 \<le> n \<Longrightarrow> decode_comp_field (bs @ rest) n lt cls = Inr (int (length bs), f)"
    by (rule comp_field_roundtrip [OF assms]) blast
  moreover from bs have "comp_field_octets f = bs" by (simp add: comp_field_octets_def)
  ultimately show "length (comp_field_octets f) \<le> m \<Longrightarrow>
      encode_comp_field m f = Inr (int (length (comp_field_octets f)), comp_field_octets f)"
    and "4 \<le> length (comp_field_octets f)"
    and "1 \<le> n \<Longrightarrow> decode_comp_field (comp_field_octets f @ rest) n lt cls =
      Inr (int (length (comp_field_octets f)), f)" by simp_all
qed

lemma xid_block_loop_step:
  assumes ok: "comp_field_ok lt cls f" and n: "length (comp_field_octets f) \<le> n" "n \<le> T" and b: "0 < budget"
  shows "xid_block_loop lt cls (comp_field_octets f @ rest) n (T - n) budget acc =
    (if n = length (comp_field_octets f) then Inr (int T, f # acc)
     else xid_block_loop lt cls rest (n - length (comp_field_octets f))
            (T - (n - length (comp_field_octets f))) (budget - 1) (f # acc))"
proof -
  obtain b' where "budget = Suc b'" using b by (cases budget) auto
  moreover have "1 \<le> n" using comp_field_octets(2) [OF ok] n(1) by simp
  moreover have "T - n + length (comp_field_octets f) = T - (n - length (comp_field_octets f))"
    using n by simp
  ultimately show ?thesis
    using comp_field_octets(3) [OF ok] n by simp
qed

interpretation sndcp_block: field_stream "comp_field_ok lt cls" comp_field_octets T
  "\<lambda>src n budget acc. xid_block_loop lt cls src n (T - n) budget acc" "\<lambda>acc _. Inr (int T, acc)"
proof
  show "0 < length (comp_field_octets f)" if "comp_field_ok lt cls f" for f
    using comp_field_octets(2) [OF that] by (simp del: length_greater_0_conv)
qed (rule xid_block_loop_step)

lemma block_count:
  assumes "\<forall>f\<in>set fs. comp_field_ok lt cls f"
  shows "4 * length fs \<le> length (concat (map comp_field_octets fs))"
  using assms by (induction fs) (fastforce dest: comp_field_octets(2))+

lemma decode_xid_block_ok:
  assumes ok: "\<forall>f\<in>set fs. comp_field_ok lt (xid_class_of_tag tag) f" and "fs \<noteq> []"
    and l: "length (concat (map comp_field_octets fs)) \<le> 255"
  shows "decode_xid_block acc tag (length (concat (map comp_field_octets fs)))
      (concat (map comp_field_octets fs) @ rest) lt =
    Inr (int (length (concat (map comp_field_octets fs))), rev fs @ acc)"
proof -
  have "length fs \<le> MAX_ENTITIES * 2 + 1"
    using block_count [OF ok] l by (simp add: MAX_ENTITIES_def)
  from sndcp_block.loop_stream [OF ok assms(2) le_refl this]
  show ?thesis by (simp add: decode_xid_block_def)
qed

lemma comp_field_ok_class: "comp_field_ok lt cls f \<Longrightarrow> gprs_sndcp_get_compression_class f = cls"
  unfolding comp_field_ok_def by (metis comp_payload_roundtrip)

definition xid_fields_ok :: "entity_algo list option \<Rightarrow> comp_field list \<Rightarrow> bool" where
  "xid_fields_ok lt fs \<longleftrightarrow> (\<forall>f\<in>set fs. comp_field_ok lt (gprs_sndcp_get_compression_class f) f)"

definition of_class :: "xid_param_types \<Rightarrow> comp_field list \<Rightarrow> comp_field list" where
  "of_class cls fs = filter (\<lambda>f. gprs_sndcp_get_compression_class f = cls) fs"

definition class_octets :: "xid_param_types \<Rightarrow> comp_field list \<Rightarrow> octets" where
  "class_octets cls fs = concat (map comp_field_octets (rev (of_class cls fs)))"

lemma of_class_ok: "xid_fields_ok lt fs \<Longrightarrow> \<forall>f\<in>set (of_class cls fs). comp_field_ok lt cls f"
  by (auto simp: xid_fields_ok_def of_class_def)

lemma pack_fields_ok:
  assumes "xid_fields_ok lt fs" "bc + length (concat (map comp_field_octets (of_class cls fs))) \<le> m"
  shows "pack_fields m cls bc fs = Inr (concat (map comp_field_octets (of_class cls fs)))"
  using assms
proof (induction fs arbitrary: bc)
  case (Cons f fs)
  have ok: "comp_field_ok lt (gprs_sndcp_get_compression_class f) f" "xid_fields_ok lt fs" using Cons.prems(1) by (simp_all add: xid_fields_ok_def)
  show ?case
  proof (cases "gprs_sndcp_get_compression_class f = cls")
    case True
    then have b: "bc + (length (comp_field_octets f) + length (concat (map comp_field_octets (of_class cls fs)))) \<le> m"
      using Cons.prems(2) by (simp add: of_class_def)
    have e: "encode_comp_field (m - bc) f = Inr (int (length (comp_field_octets f)), comp_field_octets f)"
      using b by (intro comp_field_octets(1) [OF ok(1)]) simp
    show ?thesis using True b e Cons.IH [OF ok(2), of "bc + length (comp_field_octets f)"]
      by (simp add: of_class_def)
  next
    case False
    then show ?thesis using Cons.prems(2) Cons.IH [OF ok(2)] by (simp add: of_class_def)
  qed
qed (simp add: of_class_def)

lemma gprs_sndcp_pack_fields_ok:
  assumes "xid_fields_ok lt fs" "length (class_octets cls fs) \<le> 512"
  shows "gprs_sndcp_pack_fields fs 512 cls = Inr (class_octets cls fs)"
  using pack_fields_ok [of lt "rev fs" 0 cls 512] assms
  by (simp add: gprs_sndcp_pack_fields_def xid_fields_ok_def class_octets_def of_class_def rev_filter)

lemma class_octets_empty:
  assumes "xid_fields_ok lt fs"
  shows "class_octets cls fs = [] \<longleftrightarrow> of_class cls fs = []"
proof -
  have "4 * length (of_class cls fs) \<le> length (class_octets cls fs)"
    using block_count [of "rev (of_class cls fs)" lt cls] of_class_ok [OF assms, of cls]
    by (simp add: class_octets_def)
  then show ?thesis by (auto simp: class_octets_def simp del: concat_eq_Nil_conv)
qed

definition xid_tlv :: "xid_param_types \<Rightarrow> octets \<Rightarrow> octets" where
  "xid_tlv cls v = (if v = [] then [] else xid_tag cls # word_of_nat (length v) # v)"

lemma compile_block_ok:
  assumes "tlv_put_spec tlv_put" "xid_fields_ok lt fs" "length (class_octets cls fs) \<le> 255"
  shows "compile_block tlv_put fs cls = Inr (int (length (xid_tlv cls (class_octets cls fs))), xid_tlv cls (class_octets cls fs))"
  using assms gprs_sndcp_pack_fields_ok [OF assms(2)]
  by (auto simp: compile_block_def xid_tlv_def tlv_put_spec_def Let_def unat_u8_of_nat)

lemma sint_u32_of_nat: "n \<le> 1000 \<Longrightarrow> sint (word_of_nat n :: u32) = int n"
  by (simp add: signed_of_nat signed_take_bit_int_eq_self)

lemma u32_le_2: "n \<le> 1000 \<Longrightarrow> (word_of_nat n :: u32) \<le> 2 \<longleftrightarrow> n \<le> 2"
  by (simp add: word_le_nat_alt unsigned_of_nat take_bit_nat_eq_self)

lemma u32_rest: "word_of_nat (2 + k + r) - word_of_int (2 + int k) = (word_of_nat r :: u32)"
  by simp

lemma tlv_parse_ok:
  assumes "tlv_parse_spec tlv_parse_one" "tag \<le> 2" "length val \<le> 255" "2 + length val + length rest \<le> 1000"
  shows "tlv_parse_one (tag # word_of_nat (length val) # val @ rest)
      (sint (word_of_nat (2 + length val + length rest) :: u32)) = (2 + int (length val), tag, length val, 2)"
  using assms by (simp only: sint_u32_of_nat) (simp add: tlv_parse_spec_def unat_u8_of_nat uint_u8_of_nat)

lemma xid_tag_class: "xid_class_of_tag (xid_tag cls) = cls" "xid_tag cls \<le> 3"
  "cls \<noteq> SNDCP_XID_INVALID_COMPRESSION \<Longrightarrow> xid_tag cls \<le> 2"
  by (cases cls; simp add: xid_class_of_tag_def xid_tag_def)+

lemma decode_version_step:
  assumes "tlv_parse_spec tlv_parse_one" "length rest \<le> 600"
  shows "decode_xid_loop tlv_parse_one lt (Suc budget)
      (xid_tlv SNDCP_XID_VERSION_NUMBER [v] @ rest) (word_of_nat (3 + length rest)) (Some v0) acc =
    (if length rest \<le> 2 then Inr (0, Some (uint v), Some acc)
     else decode_xid_loop tlv_parse_one lt budget rest (word_of_nat (length rest)) (Some (uint v)) acc)"
proof -
  note tc = xid_tag_class [of SNDCP_XID_VERSION_NUMBER]
  have "word_of_nat (3 + length rest) - word_of_int (2 + int 1) = (word_of_nat (length rest) :: u32)"
    using u32_rest [of 1 "length rest"] by simp
  then show ?thesis
    using tlv_parse_ok [OF assms(1) tc(3), of "[v]" rest] assms(2) u32_le_2 [of "length rest"]
    by (simp add: xid_tlv_def tc(1) Let_def del: of_nat_add)
qed

lemma decode_block_step:
  assumes "tlv_parse_spec tlv_parse_one" "xid_fields_ok lt fs" "of_class cls fs \<noteq> []"
    "cls = SNDCP_XID_DATA_COMPRESSION \<or> cls = SNDCP_XID_PROTOCOL_COMPRESSION"
    "length (class_octets cls fs) \<le> 255" "length rest \<le> 600"
  shows "decode_xid_loop tlv_parse_one lt (Suc budget)
      (xid_tlv cls (class_octets cls fs) @ rest)
      (word_of_nat (length (xid_tlv cls (class_octets cls fs) @ rest))) v acc =
    (if length rest \<le> 2 then Inr (0, v, Some (of_class cls fs @ acc))
     else decode_xid_loop tlv_parse_one lt budget rest (word_of_nat (length rest)) v (of_class cls fs @ acc))"
proof -
  let ?bs = "class_octets cls fs"
  note tc = xid_tag_class [of cls]
  have t: "cls \<noteq> SNDCP_XID_INVALID_COMPRESSION" "cls \<noteq> SNDCP_XID_VERSION_NUMBER" using assms(4) by auto
  have ne: "?bs \<noteq> []" using assms(2,3) by (simp add: class_octets_empty)
  have "decode_xid_block acc (xid_tag cls) (length ?bs) (?bs @ rest) lt = Inr (int (length ?bs), of_class cls fs @ acc)"
    using decode_xid_block_ok [of "rev (of_class cls fs)" lt "xid_tag cls" acc rest] of_class_ok [OF assms(2)] assms(3,5) tc(1)
    by (simp add: class_octets_def)
  then show ?thesis
    using tlv_parse_ok [OF assms(1) tc(3) [OF t(1)] assms(5), of rest] assms(4-6) ne t u32_le_2 [of "length rest"]
      u32_rest [of "length ?bs" "length rest"]
    by (simp add: xid_tlv_def tc(1) Let_def add.assoc nat_add_distrib del: of_nat_add) blast
qed


subsection \<open>Messages\<close>

definition xid_msg :: "comp_field list \<Rightarrow> int \<Rightarrow> octets" where
  "xid_msg fs version = (if version \<ge> 0 then xid_tlv SNDCP_XID_VERSION_NUMBER [lo8 version] else []) @
     xid_tlv SNDCP_XID_DATA_COMPRESSION (class_octets SNDCP_XID_DATA_COMPRESSION fs) @
     xid_tlv SNDCP_XID_PROTOCOL_COMPRESSION (class_octets SNDCP_XID_PROTOCOL_COMPRESSION fs)"

definition blocks_fit :: "comp_field list \<Rightarrow> bool" where
  "blocks_fit fs \<longleftrightarrow> length (class_octets SNDCP_XID_DATA_COMPRESSION fs) \<le> 255 \<and>
     length (class_octets SNDCP_XID_PROTOCOL_COMPRESSION fs) \<le> 255"

lemma class_octets_Nil [simp]: "class_octets cls [] = []"
  by (simp add: class_octets_def of_class_def)

lemma xid_tlv_Nil [simp]: "xid_tlv cls [] = []"
  by (simp add: xid_tlv_def)

lemma gprs_sndcp_compile_xid_ok:
  assumes "tlv_put_spec tlv_put" "xid_fields_ok lt fs" "blocks_fit fs" "3 \<le> dst_maxlen"
  shows "gprs_sndcp_compile_xid tlv_put dst_maxlen fs version =
    (if length (xid_msg fs version) \<le> dst_maxlen then Inr (int (length (xid_msg fs version)), xid_msg fs version)
     else Inl Oob_access)"
proof -
  have v: "tlv_put (xid_tag SNDCP_XID_VERSION_NUMBER) 1 [lo8 version] = xid_tlv SNDCP_XID_VERSION_NUMBER [lo8 version]"
    "length (xid_tlv SNDCP_XID_VERSION_NUMBER [lo8 version]) = 3"
    using assms(1) by (simp_all add: tlv_put_spec_def xid_tlv_def)
  show ?thesis
    using compile_block_ok [OF assms(1,2)] assms(3,4) v
    by (simp add: gprs_sndcp_compile_xid_def Let_def blocks_fit_def xid_msg_def)
qed

lemma decode_blocks:
  assumes spec: "tlv_parse_spec tlv_parse_one" and ok: "xid_fields_ok lt fs" and fit: "blocks_fit fs"
  assumes "fs \<noteq> []"
  shows "decode_xid_loop tlv_parse_one lt (Suc (Suc budget)) (xid_msg fs (- 1)) (word_of_nat (length (xid_msg fs (- 1)))) v [] =
    Inr (0, v, Some (of_class SNDCP_XID_PROTOCOL_COMPRESSION fs @ of_class SNDCP_XID_DATA_COMPRESSION fs))"
    and "2 < length (xid_msg fs (- 1))" and "length (xid_msg fs (- 1)) \<le> 600"
proof -
  let ?D = "SNDCP_XID_DATA_COMPRESSION" and ?P = "SNDCP_XID_PROTOCOL_COMPRESSION"
  let ?p = "xid_tlv ?P (class_octets ?P fs)"
  note D = decode_block_step [OF spec ok, of ?D] and P = decode_block_step [OF spec ok, of ?P "[]"]
  note ce = class_octets_empty [OF ok]
  have l: "length (class_octets ?D fs) \<le> 255" "length (class_octets ?P fs) \<le> 255" "length ?p \<le> 257" using fit by (auto simp: blocks_fit_def xid_tlv_def)
  have pl: "2 < length ?p" if "of_class ?P fs \<noteq> []" using that ce [of ?P] by (simp add: xid_tlv_def)
  have dl: "2 < length (xid_tlv ?D (class_octets ?D fs))" if "of_class ?D fs \<noteq> []" using that ce [of ?D] by (simp add: xid_tlv_def)
  obtain f where f: "f \<in> set fs" using assms(4) by (cases fs) auto
  then have "gprs_sndcp_get_compression_class f \<in> {?D, ?P}" 
    using ok comp_params_ok_class by (fastforce simp: xid_fields_ok_def comp_field_ok_def)
  with f have some: "of_class ?D fs \<noteq> [] \<or> of_class ?P fs \<noteq> []"
    by (auto simp: of_class_def filter_empty_conv)
  show "decode_xid_loop tlv_parse_one lt (Suc (Suc budget)) (xid_msg fs (- 1)) (word_of_nat (length (xid_msg fs (- 1)))) v [] =
    Inr (0, v, Some (of_class ?P fs @ of_class ?D fs))"
  proof (cases "of_class ?D fs = []")
    case True
    then show ?thesis using some P l ce [of ?D] by (simp add: xid_msg_def)
  next
    case False
    show ?thesis
    proof (cases "of_class ?P fs = []")
      case True
      then show ?thesis using D [of "[]"] False l ce [of ?P] by (simp add: xid_msg_def)
    next
      case P': False
      then show ?thesis using D [of ?p "Suc budget" v "[]"] P [of budget v "of_class ?D fs"] False pl l by (simp add: xid_msg_def)
    qed
  qed
  show "2 < length (xid_msg fs (- 1))" using some pl dl by (auto simp: xid_msg_def)
  show "length (xid_msg fs (- 1)) \<le> 600" using l by (simp add: xid_msg_def xid_tlv_def)
qed

lemma gprs_sndcp_decode_xid_ok:
  assumes spec: "tlv_parse_spec tlv_parse_one" and ok: "xid_fields_ok lt fs" and fit: "blocks_fit fs"
    and ne: "fs \<noteq> [] \<or> 0 \<le> version"
  shows "gprs_sndcp_decode_xid tlv_parse_one (Some v0) (xid_msg fs version) (word_of_nat (length (xid_msg fs version))) lt =
    Inr (0, Some (if version \<ge> 0 then version mod 256 else - 1),
      Some (of_class SNDCP_XID_PROTOCOL_COMPRESSION fs @ of_class SNDCP_XID_DATA_COMPRESSION fs))"
proof (cases "version \<ge> 0")
  case True
  then have m: "xid_msg fs version = xid_tlv SNDCP_XID_VERSION_NUMBER [lo8 version] @ xid_msg fs (- 1)"
    "length (xid_msg fs version) = 3 + length (xid_msg fs (- 1))"
    by (simp_all add: xid_msg_def xid_tlv_def)
  note V = decode_version_step [OF spec, of "xid_msg fs (- 1)" lt "Suc (Suc 0)" "lo8 version" "- 1" "[]"]
  show ?thesis
  proof (cases "fs = []")
    case True
    then have "xid_msg fs (- 1) = []" by (simp add: xid_msg_def)
    then show ?thesis using V m \<open>version \<ge> 0\<close> True
      by (simp add: gprs_sndcp_decode_xid_def numeral_3_eq_3 uint_lo8 of_class_def)
  next
    case False
    note B = decode_blocks [OF spec ok fit False]
    show ?thesis unfolding gprs_sndcp_decode_xid_def m(2) unfolding m(1) numeral_3_eq_3
      using V B \<open>version \<ge> 0\<close> by (simp add: uint_lo8 numeral_3_eq_3 del: of_nat_add decode_xid_loop.simps)
  qed
next
  case False
  then have "xid_msg fs version = xid_msg fs (- 1)" by (simp add: xid_msg_def)
  then show ?thesis using decode_blocks(1) [OF spec ok fit, of "Suc 0"] False ne
    by (simp add: gprs_sndcp_decode_xid_def numeral_3_eq_3)
qed

subsection \<open>Errors, short profile lists, completion\<close>

lemma decode_xid_loop_freed:
  "decode_xid_loop tlv_parse_one lt b src rem v fs = Inr (rc, v', l) \<Longrightarrow> rc < 0 \<Longrightarrow> l = None"
  by (induction b arbitrary: src rem v fs)
     (auto simp: ebind_Inr_iff Let_def split: prod.splits if_splits)

lemma decode_rohc_profiles_short:
  assumes "n = length pre" "src_len = n + 2 * length ps"
  shows "decode_rohc_profiles (length ps + Suc k) (pre @ encode_rohc_profiles ps) src_len n acc =
    Inr (int src_len, [])"
  using assms
proof (induction ps arbitrary: n pre acc)
  case Nil
  then show ?case by (simp add: decode_pcomp_16_bit_field_def errno_defs)
next
  case (Cons p ps)
  have u: "uint p \<le> 65535" using uint_lt2p [of p] by simp
  obtain m where m: "length ps + Suc k = m" "length (p # ps) + Suc k = Suc m" by simp
  have "decode_rohc_profiles m ((pre @ [hi8 (uint p), lo8 (uint p)]) @ encode_rohc_profiles ps)
      src_len (n + 2) (acc @ [p]) = Inr (int src_len, [])"
    unfolding m(1) [symmetric] by (rule Cons.IH) (use Cons.prems in simp_all)
  then show ?case unfolding m(2) using Cons.prems u by (simp add: field_defs)
qed

text \<open>A parameter set without a missing (negative) entry.\<close>

definition rfc1144_set :: "pcomp_rfc1144_params \<Rightarrow> bool" where
  "rfc1144_set p \<longleftrightarrow> rfc1144_s01 p \<ge> 0"
definition rfc2507_set :: "pcomp_rfc2507_params \<Rightarrow> bool" where
  "rfc2507_set p \<longleftrightarrow> rfc2507_f_max_period p \<ge> 0 \<and> rfc2507_f_max_time p \<ge> 0 \<and> rfc2507_max_header p \<ge> 0 \<and>
       rfc2507_tcp_space p \<ge> 0 \<and> rfc2507_non_tcp_space p \<ge> 0"
definition rohc_set :: "pcomp_rohc_params \<Rightarrow> bool" where
  "rohc_set p \<longleftrightarrow> rohc_max_cid p \<ge> 0 \<and> rohc_max_header p \<ge> 0"
definition v42bis_set :: "dcomp_v42bis_params \<Rightarrow> bool" where
  "v42bis_set p \<longleftrightarrow> v42bis_p0 p \<ge> 0 \<and> v42bis_p1 p \<ge> 0 \<and> v42bis_p2 p \<ge> 0"
definition v44_set :: "dcomp_v44_params \<Rightarrow> bool" where
  "v44_set p \<longleftrightarrow> v44_c0 p \<ge> 0 \<and> v44_p0 p \<ge> 0 \<and> v44_p1t p \<ge> 0 \<and> v44_p1r p \<ge> 0 \<and> v44_p3t p \<ge> 0 \<and>
       v44_p3r p \<ge> 0"

lemma complete_set:
  "rfc1144_set s1 \<Longrightarrow> rfc1144_set (complete_rfc1144 d1 s1)"
  "rfc2507_set s2 \<Longrightarrow> rfc2507_set (complete_rfc2507 d2 s2)"
  "rohc_set s3 \<Longrightarrow> rohc_set (complete_rohc d3 s3)"
  "v42bis_set s4 \<Longrightarrow> v42bis_set (complete_v42bis d4 s4)"
  "v44_set s5 \<Longrightarrow> v44_set (complete_v44 d5 s5)"
  by (simp_all add: rfc1144_set_def complete_rfc1144_def rfc2507_set_def complete_rfc2507_def rohc_set_def
    complete_rohc_def v42bis_set_def complete_v42bis_def v44_set_def complete_v44_def from_req_def)

definition params_complete :: "comp_field \<Rightarrow> bool" where
  "params_complete f \<longleftrightarrow> pred_option rfc1144_set (cf_rfc1144 f) \<and> pred_option rfc2507_set (cf_rfc2507 f) \<and>
     pred_option rohc_set (cf_rohc f) \<and> pred_option v42bis_set (cf_v42bis f) \<and> pred_option v44_set (cf_v44 f)"

definition one_param_set :: "comp_field \<Rightarrow> bool" where
  "one_param_set f \<longleftrightarrow>
     length (filter id [cf_rfc1144 f \<noteq> None, cf_rfc2507 f \<noteq> None, cf_rohc f \<noteq> None,
       cf_v42bis f \<noteq> None, cf_v44 f \<noteq> None]) \<le> 1"

lemma one_param_set_comp [simp]: "one_param_set (f\<lparr>cf_comp := c\<rparr>) = one_param_set f"
  by (simp add: one_param_set_def)

lemma complete_params_one:
  assumes "one_param_set f" "params_complete src" "complete_comp_field_params f src = (rc, f')"
  shows "(0 \<le> rc \<longrightarrow> params_complete f') \<and> one_param_set f' \<and> cf_entity f' = cf_entity f"
  using assms
  by (auto simp: complete_comp_field_params_def one_param_set_def params_complete_def
      complete_set errno_defs split: if_splits)

lemma complete_loop:
  assumes "one_param_set f" "\<forall>src\<in>set req. cf_entity src = cf_entity f \<longrightarrow> params_complete src"
    "complete_comp_field_loop rc0 f req = (rc, f')" "0 \<le> rc"
    "params_complete f \<or> rc0 < 0 \<or> (\<exists>src\<in>set req. cf_entity src = cf_entity f)"
  shows "params_complete f'"
  using assms
proof (induction rc0 f req rule: complete_comp_field_loop.induct)
  case (2 rc0 f src req)
  show ?case
  proof (cases "cf_entity src = cf_entity f")
    case True
    define f1 where "f1 = (if length (cf_comp src) > 0 then f\<lparr>cf_comp := cf_comp src\<rparr> else f)"
    obtain rc1 f2 where c: "complete_comp_field_params f1 src = (rc1, f2)" by force
    have f1: "one_param_set f1" "cf_entity f1 = cf_entity f"
      using "2.prems"(1) by (simp_all add: f1_def)
    have "params_complete src" using "2.prems"(2) True by simp
    note f2 = complete_params_one [OF f1(1) this c]
    have loop: "complete_comp_field_loop rc1 f2 req = (rc, f')"
      using "2.prems"(3) True c by (simp add: f1_def)
    show ?thesis
      by (rule "2.IH"(1) [OF True f1_def c [symmetric] refl _ _ loop "2.prems"(4)])
         (use f2 f1 "2.prems"(2) in auto)
  next
    case False
    then show ?thesis using 2 by auto
  qed
qed simp

subsection \<open>Examples\<close>

text \<open>A pair of functions that meets the two specifications, and messages for the witnesses.\<close>

definition tlv_put_ref :: tlv_put_fn where
  "tlv_put_ref tag len val = tag # len # take (unat len) val"

definition tlv_parse_ref :: tlv_parse_fn where
  "tlv_parse_ref buf buf_len =
     (case buf of tag # len # val \<Rightarrow>
        (if tag \<le> 2 \<and> 2 + int (unat len) \<le> buf_len then (2 + int (unat len), tag, unat len, 2)
         else (- 1, 0, 0, 0))
      | _ \<Rightarrow> (- 1, 0, 0, 0))"

lemma tlv_ref_spec: "tlv_put_spec tlv_put_ref" "tlv_parse_spec tlv_parse_ref"
  by (auto simp: tlv_put_spec_def tlv_put_ref_def tlv_parse_spec_def tlv_parse_ref_def)

definition xid_fields_example :: "comp_field list" where
  "xid_fields_example =
     [zero_comp_field\<lparr>cf_p := True, cf_entity := 3, cf_algo := V42BIS, cf_comp := [1],
        cf_v42bis := Some \<lparr>v42bis_nsapi = [5, 15], v42bis_p0 = 3, v42bis_p1 = 2048, v42bis_p2 = 20\<rparr>\<rparr>,
      zero_comp_field\<lparr>cf_p := True, cf_entity := 0, cf_algo := RFC_1144, cf_comp := [1, 2],
        cf_rfc1144 := Some \<lparr>rfc1144_nsapi = [5], rfc1144_s01 = 15\<rparr>\<rparr>]"

definition xid_octets_example :: octets where
  "xid_octets_example = [0, 1, 0, 1, 10, 131, 0, 7, 16, 128, 32, 3, 8, 0, 20, 2, 7, 128, 0, 4, 18, 0, 32, 15]"

lemma xid_fields_example_ok: "xid_fields_ok None xid_fields_example"
  by (simp add: xid_fields_ok_def xid_fields_example_def comp_field_ok_def comp_params_ok_def
      zero_comp_field_def gprs_sndcp_get_compression_class_def v42bis_ok_def rfc1144_ok_def nsapis_ok_def
      expected_comp_len_def)

lemma xid_fields_example_compile:
  "gprs_sndcp_compile_xid tlv_put_ref 64 xid_fields_example 0 = Inr (24, xid_octets_example)"
  by code_simp

lemma xid_fields_example_fit: "blocks_fit xid_fields_example"
  by code_simp

subsection \<open>Properties\<close>

text \<open>
  C6. Compiling a version number and a list of well-formed compression fields into an SNDCP
  XID message and parsing that message gives back the version (modulo 256) and the fields,
  protocol compression first, in their order, provided each of the two blocks has at most
  255 octets; the return code of the compiler is the message's length and never exceeds
  the buffer's.  The TLV functions are assumed to behave as libosmocore documents them.
\<close>

theorem sndcp_xid_roundtrip:
  assumes put: "tlv_put_spec tlv_put" and parse: "tlv_parse_spec tlv_parse_one"
    and ok: "xid_fields_ok None fs" and fit: "blocks_fit fs" and ne: "fs \<noteq> [] \<or> 0 \<le> version"
    and c: "gprs_sndcp_compile_xid tlv_put dst_maxlen fs version = Inr (n, bs)"
  shows "n = int (length bs) \<and> length bs \<le> dst_maxlen \<and>
    gprs_sndcp_parse_xid tlv_parse_one (Some v0) bs (word_of_int n) None =
      Inr (Some (if version \<ge> 0 then version mod 256 else - 1),
           Some (of_class SNDCP_XID_PROTOCOL_COMPRESSION fs @ of_class SNDCP_XID_DATA_COMPRESSION fs))"
proof -
  have "3 \<le> dst_maxlen" using c by (auto simp: gprs_sndcp_compile_xid_def split: if_splits)
  with c gprs_sndcp_compile_xid_ok [OF put ok fit]
  have b: "n = int (length bs)" "bs = xid_msg fs version" "length bs \<le> dst_maxlen"
    by (auto split: if_splits)
  have l: "2 < length bs" "length bs \<le> 700"
    using decode_blocks(2,3) [OF parse ok fit] ne b(2) by (cases "fs = []"; force simp: xid_msg_def xid_tlv_def)+
  then have "(word_of_nat (length bs) :: u32) \<noteq> 0"
    using u32_le_2 [of "length bs"] by (auto simp: word_le_nat_alt)
  then show ?thesis
    using gprs_sndcp_decode_xid_ok [OF parse ok fit ne, of v0] b
    by (simp add: gprs_sndcp_parse_xid_def)
qed

theorem sndcp_xid_roundtrip_witness:
  "gprs_sndcp_parse_xid tlv_parse_ref (Some 7) xid_octets_example 24 None =
     Inr (Some 0, Some (rev xid_fields_example))"
  using sndcp_xid_roundtrip [OF tlv_ref_spec xid_fields_example_ok xid_fields_example_fit _ xid_fields_example_compile, of 7]
  by (simp add: xid_fields_example_def of_class_def gprs_sndcp_get_compression_class_def zero_comp_field_def)

text \<open>
  C39. Whenever \<open>gprs_sndcp_decode_xid\<close> reports an error for a non-empty message, \<open>gprs_sndcp_parse_xid\<close> frees the field list a second
  time instead of returning NULL: for an indication, which is decoded without a table, and for a confirmation, which is decoded with
  the table of the algorithms of the request.
\<close>

theorem sndcp_xid_double_free:
  assumes "(req = None \<and> lt = None) \<or> (\<exists>fields table. req = Some fields \<and> gprs_sndcp_fill_table fields = Inr table \<and> lt = Some table)"
    and "gprs_sndcp_decode_xid tlv_parse_one version src src_len lt = Inr (rc, v, l)"
    and "rc < 0" and "src_len \<noteq> 0"
  shows "gprs_sndcp_parse_xid tlv_parse_one version src src_len req = Inl Double_free"
proof -
  have "l = None" using assms(2,3) decode_xid_loop_freed unfolding gprs_sndcp_decode_xid_def by blast
  then show ?thesis using assms by (auto simp: gprs_sndcp_parse_xid_def talloc_free_list_def)
qed

theorem sndcp_xid_double_free_witness:
  "gprs_sndcp_parse_xid tlv_parse_ref (Some 7) [3, 1, 0] 3 None = Inl Double_free \<and>
   gprs_sndcp_parse_xid tlv_parse_ref None [3, 1, 0] 3 (Some [zero_comp_field\<lparr>cf_rfc1144 := Some \<lparr>rfc1144_nsapi = [5], rfc1144_s01 = 15\<rparr>\<rparr>]) = Inl Double_free"
proof
  have "gprs_sndcp_decode_xid tlv_parse_ref (Some 7) [3, 1, 0] 3 None = Inr (- EINVAL, Some (- 1), None)"
    by (simp add: gprs_sndcp_decode_xid_def numeral_3_eq_3 tlv_parse_ref_def)
  from sndcp_xid_double_free [OF _ this] show "gprs_sndcp_parse_xid tlv_parse_ref (Some 7) [3, 1, 0] 3 None = Inl Double_free"
    by (simp add: errno_defs)
next
  let ?req = "[zero_comp_field\<lparr>cf_rfc1144 := Some \<lparr>rfc1144_nsapi = [5], rfc1144_s01 = 15\<rparr>\<rparr>]"
  have "case gprs_sndcp_fill_table ?req of Inl _ \<Rightarrow> False | Inr _ \<Rightarrow> True" by code_simp
  then obtain lt where lt: "gprs_sndcp_fill_table ?req = Inr lt" by (auto split: sum.splits)
  have "gprs_sndcp_decode_xid tlv_parse_ref None [3, 1, 0] 3 (Some lt) = Inr (- EINVAL, None, None)"
    by (simp add: gprs_sndcp_decode_xid_def numeral_3_eq_3 tlv_parse_ref_def)
  from sndcp_xid_double_free [OF _ this, of "Some ?req"] lt
  show "gprs_sndcp_parse_xid tlv_parse_ref None [3, 1, 0] 3 (Some ?req) = Inl Double_free"
    by (simp add: errno_defs)
qed

text \<open>
  A protocol compression TLV that holds a single octet with the propose bit set makes the
  parser read past the end of the message: no length is checked after the first octet of
  a compression field.
\<close>

theorem sndcp_xid_overread:
  assumes "tlv_parse_spec tlv_parse_one" and "b AND 0x80 \<noteq> 0"
  shows "gprs_sndcp_parse_xid tlv_parse_one version [2, 1, b] 3 None = Inl Oob_access"
proof -
  have "tlv_parse_one [2, 1, b] 3 = (3, 2, 1, 2)"
    using assms(1) [unfolded tlv_parse_spec_def, rule_format, of 2 "[b]" 1 3 "[]"] by simp
  moreover have "decode_comp_field [b] 1 None SNDCP_XID_PROTOCOL_COMPRESSION = Inl Oob_access"
    using assms(2) by (simp add: decode_comp_field_def Let_def)
  ultimately show ?thesis
    by (simp add: gprs_sndcp_parse_xid_def gprs_sndcp_decode_xid_def numeral_3_eq_3
      xid_class_of_tag_def decode_xid_block_def)
qed

theorem sndcp_xid_overread_witness:
  "gprs_sndcp_parse_xid tlv_parse_ref None [2, 1, 0x83] 3 None = Inl Oob_access"
  by (rule sndcp_xid_overread [OF tlv_ref_spec(2)]) simp

text \<open>
  The encoder accepts V.44 dictionary sizes p1t from 256, the decoder only from 265: for
  p1t below 265 the decoder stops after four of the twelve octets the encoder wrote and
  leaves the four sizes unset.
\<close>

theorem v44_small_dictionary:
  assumes "nsapis_ok (v44_nsapi p)" "v44_c0 p = 0x80 \<or> v44_c0 p = 0xC0" "0 \<le> v44_p0 p" "v44_p0 p \<le> 3"
    "256 \<le> v44_p1t p" "v44_p1t p < 265" "256 \<le> v44_p1r p" "v44_p1r p \<le> 32767"
    "2 * v44_p1t p \<le> v44_p3t p" "v44_p3t p \<le> 65535" "2 * v44_p1r p \<le> v44_p3r p" "v44_p3r p \<le> 65535"
  shows "\<exists>bs. encode_dcomp_v44_params 256 p = Inr bs \<and> length bs = 12 \<and>
    decode_dcomp_v44_params bs 12 =
      Inr (4, p\<lparr>v44_p1t := - 1, v44_p1r := - 1, v44_p3t := - 1, v44_p3r := - 1\<rparr>)"
proof -
  obtain a b where s: "encode_pcomp_applicable_sapis (v44_nsapi p) = Inr [a, b]"
    "\<And>rest n. 2 \<le> n \<Longrightarrow> decode_pcomp_applicable_sapis (a # b # rest) n = Inr (2, v44_nsapi p)"
    using assms(1) sapis_roundtrip by metis
  have c: "v44_c0 p AND 0xC0 = v44_c0 p" "0 \<le> v44_c0 p" "v44_c0 p \<le> 255" using assms(2) by auto
  have d: "decode_pcomp_16_bit_field (hi8 (v44_p1t p) # lo8 (v44_p1t p) # rest) 8 265 65535 = Inr (- EINVAL, - 1)" for rest
    using assms(5,6) by (simp add: decode_pcomp_16_bit_field_def be16_hi8_lo8)
  let ?bs = "[a, b, lo8 (v44_c0 p AND 0xC0), lo8 (v44_p0 p AND 0x03), hi8 (v44_p1t p), lo8 (v44_p1t p),
     hi8 (v44_p1r p), lo8 (v44_p1r p), hi8 (v44_p3t p), lo8 (v44_p3t p), hi8 (v44_p3r p), lo8 (v44_p3r p)]"
  have "encode_dcomp_v44_params 256 p = Inr ?bs"
    using assms(2-12) s(1) by (simp add: encode_dcomp_v44_params_def)
  moreover have "decode_dcomp_v44_params ?bs 12 =
      Inr (4, p\<lparr>v44_p1t := - 1, v44_p1r := - 1, v44_p3t := - 1, v44_p3r := - 1\<rparr>)"
    using assms(2-4) s(2) d
    by (cases p) (auto simp: decode_dcomp_v44_params_def field_defs and_3_small c errno_defs)
  ultimately show ?thesis by simp
qed

text \<open>
  A ROHC parameter set with fewer than 16 profiles is encoded with them and decoded
  without: the decoder consumes all octets and returns an empty profile list.
\<close>

theorem rohc_profiles_lost:
  assumes "nsapis_ok (rohc_nsapi p)" "0 \<le> rohc_max_cid p" "rohc_max_cid p \<le> 16383"
    "60 \<le> rohc_max_header p" "rohc_max_header p \<le> 255" "length (rohc_profile p) < 16"
  shows "\<exists>bs. encode_pcomp_rohc_params 256 p = Inr bs \<and>
    decode_pcomp_rohc_params bs (length bs) = Inr (int (length bs), p\<lparr>rohc_profile := []\<rparr>)"
proof -
  obtain a b where s: "encode_pcomp_applicable_sapis (rohc_nsapi p) = Inr [a, b]"
    "\<And>rest n. 2 \<le> n \<Longrightarrow> decode_pcomp_applicable_sapis (a # b # rest) n = Inr (2, rohc_nsapi p)"
    using assms(1) sapis_roundtrip by metis
  let ?ps = "rohc_profile p"
  let ?pre = "[a, b, hi8 (rohc_max_cid p), lo8 (rohc_max_cid p), hi8 (rohc_max_header p), lo8 (rohc_max_header p)]"
  let ?bs = "?pre @ encode_rohc_profiles ?ps"
  have "length ?ps + Suc (15 - length ?ps) = 16" using assms(6) by simp
  then have "decode_rohc_profiles 16 ?bs (length ?bs) (length ?pre) [] = Inr (int (length ?bs), [])"
    using decode_rohc_profiles_short [of "length ?pre" ?pre "length ?bs" ?ps "15 - length ?ps" "[]"]
    by (simp add: rohc_profiles_length)
  then have "decode_pcomp_rohc_params ?bs (length ?bs) = Inr (int (length ?bs), p\<lparr>rohc_profile := []\<rparr>)"
    using s(2) assms(2-5)
    by (cases p) (simp add: decode_pcomp_rohc_params_def field_defs rohc_profiles_length)
  moreover have "encode_pcomp_rohc_params 256 p = Inr ?bs"
    using s(1) assms(2-6) by (simp add: encode_pcomp_rohc_params_def)
  ultimately show ?thesis by blast
qed

theorem v44_small_dictionary_witness:
  "\<exists>bs. encode_dcomp_v44_params 256 \<lparr>v44_nsapi = [5], v44_c0 = 0x80, v44_p0 = 1, v44_p1t = 256, v44_p1r = 256,
       v44_p3t = 512, v44_p3r = 512\<rparr> = Inr bs \<and> length bs = 12 \<and>
     decode_dcomp_v44_params bs 12 = Inr (4, \<lparr>v44_nsapi = [5], v44_c0 = 0x80, v44_p0 = 1, v44_p1t = - 1,
       v44_p1r = - 1, v44_p3t = - 1, v44_p3r = - 1\<rparr>)"
  using v44_small_dictionary [of "\<lparr>v44_nsapi = [5], v44_c0 = 0x80, v44_p0 = 1, v44_p1t = 256, v44_p1r = 256,
       v44_p3t = 512, v44_p3r = 512\<rparr>"] by (simp add: nsapis_ok_def)

theorem rohc_profiles_lost_witness:
  "\<exists>bs. encode_pcomp_rohc_params 256 \<lparr>rohc_nsapi = [6], rohc_max_cid = 15, rohc_max_header = 168,
       rohc_profile = [1, 2]\<rparr> = Inr bs \<and>
     decode_pcomp_rohc_params bs (length bs) = Inr (int (length bs), \<lparr>rohc_nsapi = [6], rohc_max_cid = 15,
       rohc_max_header = 168, rohc_profile = []\<rparr>)"
  using rohc_profiles_lost [of "\<lparr>rohc_nsapi = [6], rohc_max_cid = 15, rohc_max_header = 168,
       rohc_profile = [1, 2]\<rparr>"] by (simp add: nsapis_ok_def)

text \<open>
  Completing a received field from a request: if some field of the request names the same
  entity, every field of the request that does has all its parameters, and the completion
  succeeds, then the completed field has no missing parameter left.
\<close>

theorem complete_comp_field_fills:
  assumes "one_param_set f" and "\<forall>src\<in>set req. cf_entity src = cf_entity f \<longrightarrow> params_complete src"
    and "\<exists>src\<in>set req. cf_entity src = cf_entity f"
    and "gprs_sndcp_complete_comp_field f req = (rc, f')" and "0 \<le> rc"
  shows "params_complete f'"
  using complete_loop [of f req 0 rc f'] assms by (simp add: gprs_sndcp_complete_comp_field_def)

theorem complete_comp_field_fills_witness:
  "params_complete (snd (gprs_sndcp_complete_comp_field
     (zero_comp_field\<lparr>cf_entity := 3, cf_v42bis := Some \<lparr>v42bis_nsapi = [5], v42bis_p0 = 1, v42bis_p1 = - 1, v42bis_p2 = - 1\<rparr>\<rparr>)
     xid_fields_example))"
proof -
  let ?f = "zero_comp_field\<lparr>cf_entity := 3, cf_v42bis := Some \<lparr>v42bis_nsapi = [5], v42bis_p0 = 1, v42bis_p1 = - 1, v42bis_p2 = - 1\<rparr>\<rparr>"
  have c: "gprs_sndcp_complete_comp_field ?f xid_fields_example = (0, snd (gprs_sndcp_complete_comp_field ?f xid_fields_example))"
    by code_simp
  show ?thesis
    by (rule complete_comp_field_fills [OF _ _ _ c])
       (simp_all add: xid_fields_example_def zero_comp_field_def one_param_set_def params_complete_def
         v42bis_set_def rfc1144_set_def)
qed

end
