(* ===== verification/Sndcp_Props.thy ===== *)
theory Sndcp_Props
  imports Sndcp_Inv Llc_Ui Sndcp_Xid_Props
begin

unbundle bit_operations_syntax

section \<open>SNDCP: abnormal input\<close>

text \<open>
  Three ways in which what a mobile sends makes SNDCP abort or use memory it has freed.
\<close>

subsection \<open>What a mobile can do to the reassembly\<close>

text \<open>
  C36. With compression configured, a mobile stops the SGSN with one SN-PDU: a segment 0 with
  neither F nor M sent to an entity that has received nothing yet is a complete packet, and
  its decompression asserts the compression lists that only a first segment sets.
\<close>

theorem lone_segment_aborts:
  assumes "any_pcomp_or_dcomp_active cfg" and "nsapi \<le> 15" and "mm_by_tlli tlli cell_id" and "length data < 65280"
  shows "sndcp_ll_unitdata_ind cfg cd rc mm_by_tlli tlli cell_id lle
     ([common_hdr nsapi False False] @ udata_hdr nr 0 @ data @ trail) (3 + length data) (gprs_sndcp_entity_alloc lle nsapi st) = Inl Assert_fail"
proof -
  let ?sne = "\<lparr>sne_lle = lle, sne_nsapi = nsapi, sne_rai = Some cell_id, sne_tx_npdu_nr = 0, sne_defrag = empty_defrag\<rparr>"
  let ?st = "gprs_sndcp_entity_alloc lle nsapi st"
  let ?st1 = "sne_store ?sne (sn_emit (Gb_recv_pdu tlli) (sne_store ?sne ?st))"
  have find: "gprs_sndcp_entity_by_lle ?st lle nsapi = Some (?sne\<lparr>sne_rai := None\<rparr>)"
    by (simp add: gprs_sndcp_entity_by_lle_def gprs_sndcp_entity_alloc_def)
  have len: "unat (word_of_nat (length data) :: u32) = length data" "\<not> MAX_TALLOC_SIZE \<le> word_of_nat (length data)"
    using assms(4) by (simp_all add: unsigned_of_nat take_bit_nat_eq_self word_le_nat_alt MAX_TALLOC_SIZE_def)
  have seg: "suh_seg_nr (udata_hdr nr 0 ! 0) = 0" by simp
  have room: "defrag_room (word_of_nat (length data)) = length data + 128"
    by (rule defrag_room_eq [OF assms(4)])
  have "sndcp_ll_unitdata_ind cfg cd rc mm_by_tlli tlli cell_id lle
      ([common_hdr nsapi False False] @ udata_hdr nr 0 @ data @ trail) (3 + length data) ?st =
    defrag_input cfg cd rc ?sne ([common_hdr nsapi False False] @ udata_hdr nr 0 @ data @ trail) (3 + length data) ?st1"
    using assms(2,3) by (simp add: sndcp_ll_unitdata_ind_def take_comp_hdr_def ll_unitdata_sne_def find Let_def)
  also have "\<dots> = Inl Assert_fail"
    using len seg room assms(1)
    by (simp add: defrag_input_def defrag_check_def hdr_len_def udata_hdr_def numeral_2_eq_2
      defrag_enqueue_def empty_defrag_def defrag_have_all_segments_def seg_needed_def defrag_segments_def deliver_npdu_def
      decompress_segment_def comp_list_def numeral_3_eq_3)
  finally show ?thesis .
qed

theorem lone_segment_aborts_witness:
  "sndcp_ll_unitdata_ind (cfg_plain\<lparr>cfg_rfc1144_passive := True\<rparr>) no_codec 0 (\<lambda>_ _. True) 1 [] (0, 3)
     ([common_hdr 5 False False] @ udata_hdr 0 0 @ [1, 2, 3] @ []) 6 (gprs_sndcp_entity_alloc (0, 3) 5 sndcp_empty) = Inl Assert_fail"
  using lone_segment_aborts [of "cfg_plain\<lparr>cfg_rfc1144_passive := True\<rparr>" 5 "\<lambda>_ _. True" 1 "[]" "[1, 2, 3]" no_codec 0 "(0, 3)" 0 "[]" sndcp_empty]
  by (simp add: any_pcomp_or_dcomp_active_def)





text \<open>The encoder stops at a field without S0-1, whatever its NSAPIs are.\<close>

lemma encode_missing_s01:
  assumes "rfc1144_s01 p < 0"
  shows "encode_pcomp_rfc1144_params 256 p = Inl Assert_fail"
proof -
  have "sapis_blob x ns = Inl f \<Longrightarrow> f = Assert_fail" for x ns f
    by (induction ns arbitrary: x) (auto simp: osmo_assert_def split: if_split_asm)
  then have "f = Assert_fail" if "encode_pcomp_applicable_sapis (rfc1144_nsapi p) = Inl f" for f
    using that by (auto simp: encode_pcomp_applicable_sapis_def osmo_assert_def ebind_def split: sum.split_asm if_split_asm)
  then show ?thesis using assms
    by (cases "encode_pcomp_applicable_sapis (rfc1144_nsapi p)") (auto simp: encode_pcomp_rfc1144_params_def osmo_assert_def)
qed

lemma compile_missing_s01:
  assumes "cf_rfc1144 cf = Some p" and "rfc1144_s01 p < 0" and "3 \<le> n"
  shows "gprs_sndcp_compile_xid tlv_put n [cf] v = Inl Assert_fail"
  using assms encode_missing_s01 [OF assms(2)]
  by (simp add: gprs_sndcp_compile_xid_def compile_block_def gprs_sndcp_pack_fields_def gprs_sndcp_get_compression_class_def
      encode_comp_field_def encode_comp_payload_def Let_def split_beta)

text \<open>The handler of a field accepts or refuses it and leaves S0-1 as it is.\<close>

lemma handle_rfc1144:
  assumes "sndcp_inv st" and "sn_llme_comp st llme = Some (a, d)" and "sn_comp st a = Some cl"
    and "cf_algo cf = RFC_1144" and "cf_rfc1144 cf = Some p"
  obtains cf' p' st' where "handle_pcomp_entities cfg cd cf llme st = Inr (cf', st')" "cf_rfc1144 cf' = Some p'" "rfc1144_s01 p' = rfc1144_s01 p"
proof -
  have "even a" using assms(1,2) by (auto simp: sndcp_inv_def comp_store_ok_def pair_ok_def split: option.split_asm)
  then have "addr_class a = SNDCP_XID_PROTOCOL_COMPRESSION" by (simp add: addr_class_def)
  moreover have "comp_list_ok (addr_class a) cl" using assms(1,3) unfolding sndcp_inv_def comp_store_ok_def by blast
  ultimately have ok: "comp_list_ok SNDCP_XID_PROTOCOL_COMPRESSION cl" by simp
  have del: "\<exists>cl'. gprs_sndcp_comp_delete cl e = Inr cl'" for e
    using ok by (auto simp: gprs_sndcp_comp_delete_def gprs_sndcp_pcomp_term_def comp_list_ok_def find_Some_iff split: option.split)
  have "\<exists>cf' p' st'. handle_pcomp_entities cfg cd cf llme st = Inr (cf', st') \<and> cf_rfc1144 cf' = Some p' \<and> rfc1144_s01 p' = rfc1144_s01 p"
  proof (cases "cfg_rfc1144_passive cfg \<and> rfc1144_nsapi p \<noteq> []")
    case True
    obtain cl' where "gprs_sndcp_comp_delete cl (cf_entity cf) = Inr cl'" using del by blast
    then show ?thesis using True assms(2-5)
      by (simp add: handle_pcomp_entities_def Let_def on_comp_def comp_list_def gprs_sndcp_comp_add_def gprs_sndcp_comp_create_def
          comp_field_nsapi_def gprs_sndcp_get_compression_class_def gprs_sndcp_pcomp_init_def)
  next
    case False
    obtain cl' where "gprs_sndcp_comp_delete cl (cf_entity cf) = Inr cl'" using del by blast
    then show ?thesis using False assms(2-5)
      by (auto simp: handle_pcomp_entities_def Let_def on_comp_def comp_list_def)
  qed
  then show ?thesis using that by blast
qed

lemma params_missing_s01:
  assumes "ps = [] \<or> length ps = 2"
  shows "\<exists>ns. decode_pcomp_rfc1144_params ps (length ps) = Inr (int (length ps), \<lparr>rfc1144_nsapi = ns, rfc1144_s01 = - 1\<rparr>)"
proof (cases "ps = []")
  case True
  then show ?thesis
    by (simp add: decode_pcomp_rfc1144_params_def decode_next_def decode_pcomp_applicable_sapis_def errno_defs)
next
  case False
  then obtain n1 n2 where ps: "ps = [n1, n2]" using assms by (auto simp: numeral_2_eq_2 length_Suc_conv)
  then have "\<exists>ns. decode_pcomp_applicable_sapis ps (length ps) = Inr (2, ns)" by (simp add: decode_pcomp_applicable_sapis_def Let_def del: upt.simps)
  then obtain ns where "decode_pcomp_applicable_sapis ps (length ps) = Inr (2, ns)" ..
  moreover have "length ps = 2" using ps by simp
  ultimately show ?thesis by (simp add: decode_pcomp_rfc1144_params_def decode_next_def decode_pcomp_8_bit_field_def errno_defs)
qed

lemma decode_missing_s01:
  assumes "b AND 0x80 \<noteq> 0" and "a AND 0x1F = 0" and "ps = [] \<or> length ps = 2"
  shows "\<exists>cs ns. decode_xid_block [] 2 (4 + length ps) ([b, a, word_of_nat (1 + length ps), c] @ ps) None =
    Inr (int (4 + length ps), [zero_comp_field\<lparr>cf_p := True, cf_entity := unat (b AND 0x1F), cf_comp := cs,
      cf_rfc1144 := Some \<lparr>rfc1144_nsapi = ns, rfc1144_s01 = - 1\<rparr>\<rparr>])"
proof -
  obtain ns where ns: "decode_pcomp_rfc1144_params ps (length ps) = Inr (int (length ps), \<lparr>rfc1144_nsapi = ns, rfc1144_s01 = - 1\<rparr>)"
    using params_missing_s01 [OF assms(3)] by blast
  let ?cf = "zero_comp_field\<lparr>cf_p := True, cf_entity := unat (b AND 0x1F)\<rparr>"
  have len: "unat (word_of_nat (length ps) :: u32) = length ps" using assms(3) by auto
  have v: "\<exists>cs. decode_comp_values ?cf (c # ps) SNDCP_XID_PROTOCOL_COMPRESSION = Inr (1, ?cf\<lparr>cf_comp := cs\<rparr>)"
    by (simp add: decode_comp_values_def expected_comp_len_def zero_comp_field_def numeral_2_eq_2)
  then obtain cs where v: "decode_comp_values ?cf (c # ps) SNDCP_XID_PROTOCOL_COMPRESSION = Inr (1, ?cf\<lparr>cf_comp := cs\<rparr>)" ..
  have pp: "decode_pcomp_params (?cf\<lparr>cf_comp := cs\<rparr>) ps (word_of_nat (length ps)) =
      Inr (int (length ps), ?cf\<lparr>cf_comp := cs, cf_rfc1144 := Some \<lparr>rfc1144_nsapi = ns, rfc1144_s01 = - 1\<rparr>\<rparr>)"
    using ns len by (simp add: decode_pcomp_params_def zero_comp_field_def)
  have l: "ucast (word_of_nat (1 + length ps) :: u8) - 1 = (word_of_nat (length ps) :: u32)" using assms(3) by auto
  have body: "decode_comp_body ?cf (word_of_nat (1 + length ps) # c # ps) 2 SNDCP_XID_PROTOCOL_COMPRESSION =
      Inr (int (4 + length ps), ?cf\<lparr>cf_comp := cs, cf_rfc1144 := Some \<lparr>rfc1144_nsapi = ns, rfc1144_s01 = - 1\<rparr>\<rparr>)"
    using v pp l unfolding decode_comp_body_def by (simp add: Let_def)
  have "decode_comp_field ([b, a, word_of_nat (1 + length ps), c] @ ps) (4 + length ps) None SNDCP_XID_PROTOCOL_COMPRESSION =
      Inr (int (4 + length ps), ?cf\<lparr>cf_comp := cs, cf_rfc1144 := Some \<lparr>rfc1144_nsapi = ns, rfc1144_s01 = - 1\<rparr>\<rparr>)"
    using body assms(1,2) unfolding decode_comp_field_def by (simp add: Let_def zero_comp_field_def)
  then have "xid_block_loop None SNDCP_XID_PROTOCOL_COMPRESSION ([b, a, word_of_nat (1 + length ps), c] @ ps) (4 + length ps) 0 (Suc n) [] =
      Inr (int (4 + length ps), [?cf\<lparr>cf_comp := cs, cf_rfc1144 := Some \<lparr>rfc1144_nsapi = ns, rfc1144_s01 = - 1\<rparr>\<rparr>])" for n
    by (simp add: nat_add_distrib del: append_Cons append_Nil)
  then show ?thesis
    unfolding decode_xid_block_def Suc_eq_plus1 [symmetric] by (auto simp: xid_class_of_tag_def simp del: xid_block_loop.simps)
qed

text \<open>
  C37. An XID indication whose only field proposes RFC 1144 compression without the parameter S0-1 stops the SGSN, for every entity
  number, all PCOMP values and every set of applicable NSAPIs, or none, if the LLC entity has compression lists and
  in every state of SNDCP that satisfies its invariant: the field is decoded with the value -1 for the missing parameter and the encoder of the answer asserts that it is not
  negative, whether the proposal is accepted or not.
\<close>

theorem xid_ind_missing_params:
  assumes "tlv_parse_spec tlv_parse_one" and "sndcp_inv st" and "sn_llme_comp st llme = Some (pa, d)" and "sn_comp st pa = Some cl"
    and "b AND 0x80 \<noteq> 0" and "a AND 0x1F = 0" and "ps = [] \<or> length ps = 2"
    and "msg = [2, word_of_nat (4 + length ps), b, a, word_of_nat (1 + length ps), c] @ ps"
  shows "sndcp_sn_xid_ind tlv_put tlv_parse_one cfg cd
     \<lparr>xid_type = XID_T_L3_PAR, xid_data = Some msg, xid_data_len = length msg\<rparr> llme st = Inl Assert_fail"
proof -
  have "ps = [] \<or> (\<exists>n1 n2. ps = [n1, n2])" using assms(7) by (auto simp: numeral_2_eq_2 length_Suc_conv)
  then have t: "tlv_parse_one msg (int (6 + length ps)) = (int (6 + length ps), 2, 4 + length ps, 2)"
    using assms(1) [unfolded tlv_parse_spec_def, rule_format, of 2 "[b, a, word_of_nat (1 + length ps), c] @ ps" "word_of_nat (4 + length ps)"
        "int (6 + length ps)" "[]"] assms(8) by auto
  obtain cs ns where blk: "decode_xid_block [] 2 (4 + length ps) ([b, a, word_of_nat (1 + length ps), c] @ ps) None =
    Inr (int (4 + length ps), [zero_comp_field\<lparr>cf_p := True, cf_entity := unat (b AND 0x1F), cf_comp := cs,
      cf_rfc1144 := Some \<lparr>rfc1144_nsapi = ns, rfc1144_s01 = - 1\<rparr>\<rparr>])"
    using decode_missing_s01 [OF assms(5-7)] by blast
  define cf where "cf = zero_comp_field\<lparr>cf_p := True, cf_entity := unat (b AND 0x1F), cf_comp := cs,
      cf_rfc1144 := Some \<lparr>rfc1144_nsapi = ns, rfc1144_s01 = - 1\<rparr>\<rparr>"
  have parse: "gprs_sndcp_parse_xid tlv_parse_one (Some 0) msg (word_of_nat (length msg)) None = Inr (Some (- 1), Some [cf])"
    using \<open>ps = [] \<or> (\<exists>n1 n2. ps = [n1, n2])\<close> t blk [folded cf_def] assms(8)
    by (auto simp: gprs_sndcp_parse_xid_def gprs_sndcp_decode_xid_def numeral_3_eq_3 xid_class_of_tag_def)
  have c: "cf_algo cf = RFC_1144" "cf_rfc1144 cf = Some \<lparr>rfc1144_nsapi = ns, rfc1144_s01 = - 1\<rparr>" by (simp_all add: cf_def zero_comp_field_def)
  obtain cf' p' st' where h: "handle_pcomp_entities cfg cd cf llme st = Inr (cf', st')" "cf_rfc1144 cf' = Some p'"
    "rfc1144_s01 p' = rfc1144_s01 \<lparr>rfc1144_nsapi = ns, rfc1144_s01 = - 1\<rparr>"
    by (rule handle_rfc1144 [OF assms(2-4) c, of cfg cd])
  have "handle_comp_fields cfg cd [cf] llme st = Inr ([cf'], st')"
    using h(1) by (simp add: cf_def gprs_sndcp_get_compression_class_def)
  moreover have "gprs_sndcp_compile_xid tlv_put (length msg) [cf'] 0 = Inl Assert_fail"
    using h(2,3) assms(8) by (intro compile_missing_s01 [where p = p']) simp_all
  ultimately show ?thesis using parse assms(8) by (simp add: sndcp_sn_xid_ind_def xid_octets_def)
qed

theorem xid_ind_missing_params_witness:
  "sndcp_sn_xid_ind tlv_put_ref tlv_parse_ref cfg_plain no_codec
     \<lparr>xid_type = XID_T_L3_PAR, xid_data = Some [2, 6, 0x80, 0, 3, 0x12, 0, 0x20], xid_data_len = 8\<rparr> 0
     (llme_comp_alloc 0 sndcp_empty) = Inl Assert_fail"
proof -
  let ?st = "llme_comp_alloc 0 sndcp_empty :: unit sndcp"
  have inv: "sndcp_inv ?st"
    by (auto simp: sndcp_inv_def comp_store_ok_def pair_ok_def comp_list_ok_def llme_comp_alloc_def sndcp_empty_def gprs_sndcp_comp_alloc_def
        Let_def split: if_split_asm)
  have c: "sn_llme_comp ?st 0 = Some (0, 1)" "sn_comp ?st 0 = Some []"
    by (simp_all add: llme_comp_alloc_def sndcp_empty_def gprs_sndcp_comp_alloc_def Let_def)
  let ?m = "[2, 6, 0x80, 0, 3, 0x12, 0, 0x20] :: octets"
  have "sndcp_sn_xid_ind tlv_put_ref tlv_parse_ref cfg_plain no_codec
     \<lparr>xid_type = XID_T_L3_PAR, xid_data = Some ?m, xid_data_len = length ?m\<rparr> 0 ?st = Inl Assert_fail"
    by (rule xid_ind_missing_params [OF tlv_ref_spec(2) inv c, where b = "0x80" and a = 0 and ps = "[0, 0x20]" and c = "0x12"]) simp_all
  moreover have l: "length ?m = 8" by simp
  ultimately show ?thesis unfolding l by blast
qed

end
