(* ===== verification/Gtphub_Base.thy ===== *)
theory Gtphub_Base
  imports Osmo_Prelude
begin

section \<open>gtphub: expiry queues and number pools (src/src/gtphub/gtphub.c)\<close>

text \<open>
  The two utilities gtphub is built on.  An expiry queue lists items with the time at which
  they expire; an item is added or moved to the tail, and a tick deletes items from the head
  until it meets one that is not due.  A number pool hands out the numbers of an interval in
  turn.
\<close>

subsection \<open>Expiry queues\<close>

text \<open>
  \<open>struct expiry\<close> and the \<open>struct expiring_item\<close>s linked into it, head first, each
  with its time.
\<close>

record 'i expiry =
  ex_secs :: int
  ex_items :: "('i \<times> int) list"

definition expiry_init :: "int \<Rightarrow> 'i expiry" where
  "expiry_init secs = \<lparr>ex_secs = secs, ex_items = []\<rparr>"

text \<open>
  The time is written into the item before the assertion looks at the last one, which may be
  this item.
\<close>

definition expiry_add :: "'i \<Rightarrow> int \<Rightarrow> 'i expiry \<Rightarrow> 'i expiry exec" where
  "expiry_add i now exq =
     (let t = now + ex_secs exq; items = ex_items exq in
      ebind (osmo_assert (items = [] \<or> (if fst (last items) = i then t else snd (last items)) \<le> t)) (\<lambda>_.
        Inr (exq\<lparr>ex_items := filter (\<lambda>x. fst x \<noteq> i) items @ [(i, t)]\<rparr>)))"

definition expiry_unlink :: "'i \<Rightarrow> 'i expiry \<Rightarrow> 'i expiry" where
  "expiry_unlink i exq = exq\<lparr>ex_items := filter (\<lambda>x. fst x \<noteq> i) (ex_items exq)\<rparr>"

text \<open>
  The loop of \<open>expiry_tick\<close> over the items as they were at its start; \<open>del\<close> is
  \<open>expiring_item_del\<close> with the callback of the item.
\<close>

fun expiry_tick_loop :: "('i \<Rightarrow> 's \<Rightarrow> 's exec) \<Rightarrow> int \<Rightarrow> ('i \<times> int) list \<Rightarrow> 's \<Rightarrow> (nat \<times> 's) exec" where
  "expiry_tick_loop del now [] s = Inr (0, s)"
| "expiry_tick_loop del now ((i, t) # items) s =
     (if t \<le> now
      then ebind (del i s) (\<lambda>s. ebind (expiry_tick_loop del now items s) (\<lambda>(n, s). Inr (Suc n, s)))
      else Inr (0, s))"

fun expiry_clear_loop :: "('i \<Rightarrow> 's \<Rightarrow> 's exec) \<Rightarrow> ('i \<times> int) list \<Rightarrow> 's \<Rightarrow> 's exec" where
  "expiry_clear_loop del [] s = Inr s"
| "expiry_clear_loop del ((i, t) # items) s = ebind (del i s) (expiry_clear_loop del items)"

text \<open>
  What holds of a queue at the time \<open>now\<close> of the last operation on it: no item is linked
  twice, the times ascend, and none is later than an item added now would get.
\<close>

definition expiry_ok :: "int \<Rightarrow> 'i expiry \<Rightarrow> bool" where
  "expiry_ok now exq \<longleftrightarrow> distinct (map fst (ex_items exq)) \<and> sorted (map snd (ex_items exq)) \<and>
     (\<forall>x\<in>set (ex_items exq). snd x \<le> now + ex_secs exq)"

lemma expiry_ok_init [simp]: "expiry_ok now (expiry_init secs)"
  by (simp add: expiry_ok_def expiry_init_def)

lemma expiry_ok_unlink [simp]: "expiry_ok now exq \<Longrightarrow> expiry_ok now (expiry_unlink i exq)"
  by (simp add: expiry_ok_def expiry_unlink_def distinct_map_filter sorted_filter)

lemma expiry_ok_later: "expiry_ok now exq \<Longrightarrow> now \<le> now' \<Longrightarrow> expiry_ok now' exq"
  by (force simp: expiry_ok_def)

text \<open>As long as the clock does not run backwards, the assertion of \<open>expiry_add\<close> holds.\<close>

lemma expiry_add_ok:
  assumes "expiry_ok now exq" and "now \<le> now'"
  shows "expiry_add i now' exq = Inr (exq\<lparr>ex_items := filter (\<lambda>x. fst x \<noteq> i) (ex_items exq) @ [(i, now' + ex_secs exq)]\<rparr>)"
    and "expiry_ok now' (exq\<lparr>ex_items := filter (\<lambda>x. fst x \<noteq> i) (ex_items exq) @ [(i, now' + ex_secs exq)]\<rparr>)"
proof -
  have le: "snd x \<le> now' + ex_secs exq" if "x \<in> set (ex_items exq)" for x
    using assms that by (force simp: expiry_ok_def)
  have "ex_items exq = [] \<or> snd (last (ex_items exq)) \<le> now' + ex_secs exq" using le last_in_set by blast
  then show "expiry_add i now' exq = Inr (exq\<lparr>ex_items := filter (\<lambda>x. fst x \<noteq> i) (ex_items exq) @ [(i, now' + ex_secs exq)]\<rparr>)"
    by (auto simp: expiry_add_def Let_def)
  show "expiry_ok now' (exq\<lparr>ex_items := filter (\<lambda>x. fst x \<noteq> i) (ex_items exq) @ [(i, now' + ex_secs exq)]\<rparr>)"
    using assms(1) le by (auto simp: expiry_ok_def sorted_append distinct_map_filter sorted_filter)
qed

text \<open>
  What a tick relies on: deleting an item that is linked succeeds, unlinks this item and no
  other, and keeps the invariant of the state the queue is part of.
\<close>

locale expiring =
  fixes items :: "'s \<Rightarrow> ('i \<times> int) list"
    and del :: "'i \<Rightarrow> 's \<Rightarrow> 's exec"
    and inv :: "'s \<Rightarrow> bool"
  assumes inv_items: "inv s \<Longrightarrow> distinct (map fst (items s)) \<and> sorted (map snd (items s))"
    and del_item: "inv s \<Longrightarrow> i \<in> fst ` set (items s) \<Longrightarrow>
      \<exists>s'. del i s = Inr s' \<and> inv s' \<and> items s' = filter (\<lambda>x. fst x \<noteq> i) (items s)"
begin

lemma tick_items:
  assumes "inv s" and "items s = xs"
  shows "\<exists>n s'. expiry_tick_loop del now xs s = Inr (n, s') \<and> inv s' \<and>
    items s' = filter (\<lambda>x. now < snd x) xs \<and> n = length (filter (\<lambda>x. snd x \<le> now) xs)"
  using assms
proof (induction xs arbitrary: s)
  case (Cons x xs)
  obtain i t where x: "x = (i, t)" by (cases x)
  have d: "distinct (map fst (x # xs))" "sorted (map snd (x # xs))" using inv_items [OF Cons.prems(1)] Cons.prems(2) by auto
  show ?case
  proof (cases "t \<le> now")
    case True
    obtain s1 where s1: "del i s = Inr s1" "inv s1" "items s1 = filter (\<lambda>x. fst x \<noteq> i) (items s)"
      using del_item [OF Cons.prems(1), of i] Cons.prems(2) x by auto
    have "items s1 = xs" using s1(3) d(1) Cons.prems(2) by (auto simp: x intro!: filter_True)
    from Cons.IH [OF s1(2) this] show ?thesis using s1(1) True by (auto simp: x)
  next
    case False
    then have "\<forall>y\<in>set xs. now < snd y" using d(2) by (force simp: x)
    then show ?thesis using False Cons.prems by (auto simp: x filter_empty_conv not_le filter_id_conv)
  qed
qed simp

lemma clear_items:
  assumes "inv s" and "items s = xs"
  shows "\<exists>s'. expiry_clear_loop del xs s = Inr s' \<and> inv s' \<and> items s' = []"
  using assms
proof (induction xs arbitrary: s)
  case (Cons x xs)
  obtain i t where x: "x = (i, t)" by (cases x)
  have d: "distinct (map fst (x # xs))" using inv_items [OF Cons.prems(1)] Cons.prems(2) by auto
  obtain s1 where s1: "del i s = Inr s1" "inv s1" "items s1 = filter (\<lambda>x. fst x \<noteq> i) (items s)"
    using del_item [OF Cons.prems(1), of i] Cons.prems(2) x by auto
  have "items s1 = xs" using s1(3) d Cons.prems(2) by (auto simp: x intro!: filter_True)
  from Cons.IH [OF s1(2) this] show ?case using s1(1) by (auto simp: x)
qed simp

end

subsection \<open>Number pools\<close>

record nr_pool =
  np_last :: u32
  np_min :: u32
  np_max :: u32

definition nr_pool_init :: "u32 \<Rightarrow> u32 \<Rightarrow> nr_pool" where
  "nr_pool_init nr_min nr_max = \<lparr>np_last = nr_max, np_min = nr_min, np_max = nr_max\<rparr>"

definition nr_pool_next :: "nr_pool \<Rightarrow> u32 \<times> nr_pool" where
  "nr_pool_next pool =
     (let nr = (if np_last pool \<ge> np_max pool then np_min pool else np_last pool + 1) in
      (nr, pool\<lparr>np_last := nr\<rparr>))"

text \<open>The numbers of \<open>n\<close> calls in a row.\<close>

fun nr_pool_take :: "nat \<Rightarrow> nr_pool \<Rightarrow> u32 list" where
  "nr_pool_take 0 pool = []"
| "nr_pool_take (Suc n) pool = (let (nr, pool) = nr_pool_next pool in nr # nr_pool_take n pool)"

definition pool_ok :: "nr_pool \<Rightarrow> bool" where
  "pool_ok pool \<longleftrightarrow> np_min pool \<le> np_last pool \<and> np_last pool \<le> np_max pool"

definition pool_size :: "nr_pool \<Rightarrow> nat" where
  "pool_size pool = unat (np_max pool) - unat (np_min pool) + 1"

text \<open>How far a number is into the interval of the pool.\<close>

definition pool_pos :: "nr_pool \<Rightarrow> nat" where
  "pool_pos pool = unat (np_last pool) - unat (np_min pool)"

lemma pool_next_pos:
  assumes "pool_ok pool"
  shows "pool_ok (snd (nr_pool_next pool))" "fst (nr_pool_next pool) = np_last (snd (nr_pool_next pool))"
    "pool_size (snd (nr_pool_next pool)) = pool_size pool" "np_min (snd (nr_pool_next pool)) = np_min pool"
    "np_max (snd (nr_pool_next pool)) = np_max pool"
    "pool_pos (snd (nr_pool_next pool)) = (pool_pos pool + 1) mod pool_size pool"
proof -
  let ?l = "unat (np_last pool)" and ?a = "unat (np_min pool)" and ?b = "unat (np_max pool)"
  have ab: "?a \<le> ?l" "?l \<le> ?b" using assms by (auto simp: pool_ok_def word_le_nat_alt)
  have *: "pool_ok (snd (nr_pool_next pool)) \<and> pool_pos (snd (nr_pool_next pool)) = (pool_pos pool + 1) mod pool_size pool"
  proof (cases "np_last pool \<ge> np_max pool")
    case True
    then have "?l = ?b" using ab by (simp add: word_le_nat_alt)
    then show ?thesis using True ab
      by (simp add: nr_pool_next_def Let_def pool_ok_def pool_pos_def pool_size_def word_le_nat_alt)
  next
    case False
    then have lt: "?l < ?b" by (simp add: word_le_nat_alt)
    have "?b < 2 ^ LENGTH(32)" by (rule unsigned_less)
    then have s: "unat (np_last pool + 1) = ?l + 1" using lt by (simp add: unat_word_ariths)
    have "np_min pool \<le> np_last pool + 1" "np_last pool + 1 \<le> np_max pool"
      using s ab lt by (simp_all add: word_le_nat_alt)
    then have "pool_ok (snd (nr_pool_next pool))" using False by (simp add: nr_pool_next_def Let_def pool_ok_def)
    moreover have "pool_pos (snd (nr_pool_next pool)) = pool_pos pool + 1" "pool_pos pool + 1 < pool_size pool"
      using False s ab lt by (simp_all add: nr_pool_next_def Let_def pool_pos_def pool_size_def)
    ultimately show ?thesis by simp
  qed
  then show "pool_ok (snd (nr_pool_next pool))" "pool_pos (snd (nr_pool_next pool)) = (pool_pos pool + 1) mod pool_size pool" by auto
qed (simp_all add: nr_pool_next_def Let_def pool_size_def)

lemma pool_take_length [simp]: "length (nr_pool_take n pool) = n"
  by (induction n arbitrary: pool) (simp_all add: Let_def split: prod.split)

lemma pool_take_nth:
  "pool_ok pool \<Longrightarrow> i < n \<Longrightarrow>
   unat (nr_pool_take n pool ! i) = unat (np_min pool) + (pool_pos pool + Suc i) mod pool_size pool"
proof (induction n arbitrary: pool i)
  case (Suc n)
  obtain nr pool' where p: "nr_pool_next pool = (nr, pool')" by (cases "nr_pool_next pool")
  note n = pool_next_pos [OF Suc.prems(1), unfolded p, simplified]
  show ?case
  proof (cases i)
    case 0
    have "unat (np_min pool') \<le> unat (np_last pool')" using n(1) by (simp add: pool_ok_def word_le_nat_alt)
    then have "unat nr = unat (np_min pool') + pool_pos pool'" using n(2) by (simp add: pool_pos_def)
    then show ?thesis using n by (simp add: 0 p)
  next
    case (Suc j)
    then have "unat (nr_pool_take n pool' ! j) = unat (np_min pool') + (pool_pos pool' + Suc j) mod pool_size pool'"
      using Suc.IH [OF n(1)] \<open>i < Suc n\<close> by simp
    also have "\<dots> = unat (np_min pool) + (pool_pos pool + Suc i) mod pool_size pool"
      using n Suc mod_add_left_eq [of "Suc (pool_pos pool)" "pool_size pool" "Suc j"] by simp
    finally show ?thesis using Suc by (simp add: p)
  qed
qed simp

lemma pool_take_distinct:
  assumes "pool_ok pool" and "n \<le> pool_size pool"
  shows "distinct (nr_pool_take n pool)"
proof (unfold distinct_conv_nth pool_take_length, clarify)
  fix i j assume ij: "i < n" "j < n" "i \<noteq> j" "nr_pool_take n pool ! i = nr_pool_take n pool ! j"
  let ?m = "pool_size pool" and ?p = "Suc (pool_pos pool)"
  have "(i + ?p) mod ?m = (j + ?p) mod ?m"
    using pool_take_nth [OF assms(1) ij(1)] pool_take_nth [OF assms(1) ij(2)] ij(4) by (simp add: add.commute)
  then have "int ?m dvd int (i + ?p) - int (j + ?p)" by (metis mod_eq_dvd_iff of_nat_mod)
  then have "int ?m dvd int i - int j" by simp
  moreover have "\<bar>int i - int j\<bar> < int ?m" using ij(1,2) assms(2) by linarith
  ultimately have "int i - int j = 0" by (metis zdvd_not_zless dvd_abs_iff zero_less_abs_iff)
  then show False using ij(3) by simp
qed

end
