(* ===== verification/Gtphub.thy ===== *)
theory Gtphub
  imports Gtphub_Base
begin

unbundle bit_operations_syntax

section \<open>gtphub: state and objects (src/src/gtphub/gtphub.c)\<close>

text \<open>
  gtphub forwards GTP between SGSNs and GGSNs and replaces sequence numbers, tunnel
  endpoint identifiers and addresses on the way.  Its objects are linked lists of
  structs that point at each other.  Here an object is a record with an identity (its
  address; identities are never used again), and a list of the program is the list of the
  records with a tag that says whose list they are in: the sequence number map of a peer
  are the mappings with \<open>mp_map\<close> this peer, the ports of an address the ports with
  \<open>pp_addr\<close> this address.  Following a pointer to an object that has been freed is
  \<open>Oob_access\<close>.
\<close>

subsection \<open>Data\<close>

datatype side = SGSN | GGSN
datatype plane = CTRL | USER

definition other_side :: "side \<Rightarrow> side" where
  "other_side s = (case s of SGSN \<Rightarrow> GGSN | GGSN \<Rightarrow> SGSN)"

definition default_port :: "plane \<Rightarrow> u16" where
  "default_port pl = (case pl of CTRL \<Rightarrow> 2123 | USER \<Rightarrow> 2152)"

definition side_planes :: "(side \<times> plane) list" where
  "side_planes = [(SGSN, CTRL), (SGSN, USER), (GGSN, CTRL), (GGSN, USER)]"

text \<open>
  \<open>struct gsn_addr\<close> is the list of its \<open>len\<close> octets.  A socket address is a value of the type
  \<open>'sa\<close>.
\<close>

record 'sa peer_port =
  pp_id :: nat
  pp_addr :: nat
  pp_port :: u16
  pp_ref_count :: u32
  pp_sa :: 'sa
  pp_last_restart_count :: int

record peer_addr =
  pa_id :: nat
  pa_peer :: nat
  pa_addr :: octets

record gtphub_peer =
  pr_id :: nat
  pr_bind :: "side \<times> plane"
  pr_seq_pool :: nr_pool

record nr_mapping =
  mp_id :: nat
  mp_map :: nat
  mp_origin :: nat
  mp_orig :: u32
  mp_repl :: u32

record tunnel_endpoint =
  te_peer :: "nat option"
  te_tei_orig :: u32

record tunnel =
  tn_id :: nat
  tn_tei_repl :: u32
  tn_endpoint :: "side \<times> plane \<Rightarrow> tunnel_endpoint"

record pending_delete =
  pd_id :: nat
  pd_tun :: nat
  pd_teardown_ind :: u8
  pd_nsapi :: u8

record resolved_ggsn =
  rg_id :: nat
  rg_apn_oi_str :: string
  rg_peer :: nat

record ggsn_lookup =
  lk_id :: nat
  lk_imsi_str :: string
  lk_apn_ni_str :: string
  lk_apn_oi_str :: string
  lk_have_3dig_mnc :: bool

text \<open>What can be linked into an expiry queue, by the object that contains the item.\<close>

datatype exp_item = It_tunnel nat | It_mapping nat | It_pending nat | It_ggsn nat | It_lookup nat

text \<open>Counter groups and counters, and what gtphub does to the outside.\<close>

datatype ctr_group = Ctr_bind "side \<times> plane" | Ctr_port nat | Ctr_endpoint nat "side \<times> plane"
datatype ctr = PKTS_IN | PKTS_OUT | BYTES_IN | BYTES_OUT

datatype 'sa hub_event = Hub_write "side \<times> plane" 'sa octets | Ares_query string nat

record 'sa hub =
  hb_local_addr :: "side \<times> plane \<Rightarrow> octets"
  hb_peers :: "gtphub_peer list"
  hb_addrs :: "peer_addr list"
  hb_ports :: "'sa peer_port list"
  hb_mappings :: "nr_mapping list"
  hb_proxy :: "side \<times> plane \<Rightarrow> nat option"
  hb_tei_pool :: nr_pool
  hb_tunnels :: "tunnel list"
  hb_pending_deletes :: "pending_delete list"
  hb_ggsn_lookups :: "ggsn_lookup list"
  hb_resolved_ggsns :: "resolved_ggsn list"
  hb_expire_quickly :: "exp_item expiry"
  hb_expire_slowly :: "exp_item expiry"
  hb_restart_counter :: u8
  hb_sgsn_use_sender :: bool
  hb_next :: nat
  hb_counters :: "(ctr_group \<times> ctr \<times> nat) list"
  hb_out :: "'sa hub_event list"

text \<open>
  What gtphub calls in libgtp, libosmocore and the C library: splitting a message into
  information elements (an index into the message, or failure), finding an element (the
  offset of the n-th one of a type) and copying its value out, decoding an APN, completing it
  to the name to query, starting a query, and converting between socket addresses and
  addresses with a port.
\<close>

record ('i, 'sa) hub_env =
  gtpie_decaps :: "nat \<Rightarrow> octets \<Rightarrow> nat \<Rightarrow> nat \<Rightarrow> 'i option"
  gtpie_getie :: "'i \<Rightarrow> u8 \<Rightarrow> nat \<Rightarrow> nat option"
  gtpie_gettv0 :: "'i \<Rightarrow> octets \<Rightarrow> u8 \<Rightarrow> nat \<Rightarrow> nat \<Rightarrow> octets option"
  gtpie_gettv1 :: "'i \<Rightarrow> octets \<Rightarrow> u8 \<Rightarrow> nat \<Rightarrow> u8 option"
  gtpie_gettlv :: "'i \<Rightarrow> octets \<Rightarrow> u8 \<Rightarrow> nat \<Rightarrow> nat \<Rightarrow> octets option"
  osmo_apn_to_str :: "octets \<Rightarrow> string option"
  osmo_apn_qualify_from_imsi :: "string \<Rightarrow> string \<Rightarrow> bool \<Rightarrow> string"
  sgsn_ares_query_rc :: "string \<Rightarrow> int"
  gsn_addr_from_sockaddr :: "'sa \<Rightarrow> (octets \<times> u16) option"
  gsn_addr_to_sockaddr :: "octets \<Rightarrow> u16 \<Rightarrow> 'sa option"

definition rate_ctr_add :: "ctr_group \<Rightarrow> ctr \<Rightarrow> nat \<Rightarrow> 'sa hub \<Rightarrow> 'sa hub" where
  "rate_ctr_add g c n h = h\<lparr>hb_counters := hb_counters h @ [(g, c, n)]\<rparr>"

definition hub_emit :: "'sa hub_event \<Rightarrow> 'sa hub \<Rightarrow> 'sa hub" where
  "hub_emit ev h = h\<lparr>hb_out := hb_out h @ [ev]\<rparr>"

subsection \<open>Following pointers\<close>

definition port_at :: "'sa hub \<Rightarrow> nat \<Rightarrow> 'sa peer_port exec" where
  "port_at h k = deref (find (\<lambda>pp. pp_id pp = k) (hb_ports h))"

definition port_upd :: "nat \<Rightarrow> ('sa peer_port \<Rightarrow> 'sa peer_port) \<Rightarrow> 'sa hub \<Rightarrow> 'sa hub" where
  "port_upd k f h = h\<lparr>hb_ports := map (\<lambda>pp. if pp_id pp = k then f pp else pp) (hb_ports h)\<rparr>"

definition addr_at :: "'sa hub \<Rightarrow> nat \<Rightarrow> peer_addr exec" where
  "addr_at h k = deref (find (\<lambda>pa. pa_id pa = k) (hb_addrs h))"

definition peer_at :: "'sa hub \<Rightarrow> nat \<Rightarrow> gtphub_peer exec" where
  "peer_at h k = deref (find (\<lambda>pr. pr_id pr = k) (hb_peers h))"

definition peer_upd :: "nat \<Rightarrow> (gtphub_peer \<Rightarrow> gtphub_peer) \<Rightarrow> 'sa hub \<Rightarrow> 'sa hub" where
  "peer_upd k f h = h\<lparr>hb_peers := map (\<lambda>pr. if pr_id pr = k then f pr else pr) (hb_peers h)\<rparr>"

definition tunnel_at :: "'sa hub \<Rightarrow> nat \<Rightarrow> tunnel exec" where
  "tunnel_at h k = deref (find (\<lambda>t. tn_id t = k) (hb_tunnels h))"

definition tunnel_upd :: "nat \<Rightarrow> (tunnel \<Rightarrow> tunnel) \<Rightarrow> 'sa hub \<Rightarrow> 'sa hub" where
  "tunnel_upd k f h = h\<lparr>hb_tunnels := map (\<lambda>t. if tn_id t = k then f t else t) (hb_tunnels h)\<rparr>"

definition endpoint_upd :: "side \<times> plane \<Rightarrow> (tunnel_endpoint \<Rightarrow> tunnel_endpoint) \<Rightarrow> tunnel \<Rightarrow> tunnel" where
  "endpoint_upd b f t = t\<lparr>tn_endpoint := (tn_endpoint t)(b := f (tn_endpoint t b))\<rparr>"

text \<open>\<open>pp->peer_addr->addr\<close> and \<open>pp->peer_addr->peer\<close>.\<close>

definition port_addr :: "'sa hub \<Rightarrow> nat \<Rightarrow> octets exec" where
  "port_addr h k = ebind (port_at h k) (\<lambda>pp. ebind (addr_at h (pp_addr pp)) (\<lambda>pa. Inr (pa_addr pa)))"

definition port_peer :: "'sa hub \<Rightarrow> nat \<Rightarrow> gtphub_peer exec" where
  "port_peer h k = ebind (port_at h k) (\<lambda>pp. ebind (addr_at h (pp_addr pp)) (\<lambda>pa. peer_at h (pa_peer pa)))"

subsection \<open>Reference counts and deletion\<close>

definition gtphub_port_ref_count_inc :: "nat \<Rightarrow> 'sa hub \<Rightarrow> 'sa hub exec" where
  "gtphub_port_ref_count_inc k h =
     ebind (port_at h k) (\<lambda>pp. ebind (osmo_assert (pp_ref_count pp < 0xffffffff)) (\<lambda>_.
       Inr (port_upd k (\<lambda>pp. pp\<lparr>pp_ref_count := pp_ref_count pp + 1\<rparr>) h)))"

definition gtphub_port_ref_count_dec :: "nat \<Rightarrow> 'sa hub \<Rightarrow> 'sa hub exec" where
  "gtphub_port_ref_count_dec k h =
     ebind (port_at h k) (\<lambda>pp. ebind (osmo_assert (pp_ref_count pp > 0)) (\<lambda>_.
       Inr (port_upd k (\<lambda>pp. pp\<lparr>pp_ref_count := pp_ref_count pp - 1\<rparr>) h)))"

definition ref_dec_opt :: "nat option \<Rightarrow> 'sa hub \<Rightarrow> 'sa hub exec" where
  "ref_dec_opt k h = (case k of None \<Rightarrow> Inr h | Some k \<Rightarrow> gtphub_port_ref_count_dec k h)"

definition ref_inc_opt :: "nat option \<Rightarrow> 'sa hub \<Rightarrow> 'sa hub exec" where
  "ref_inc_opt k h = (case k of None \<Rightarrow> Inr h | Some k \<Rightarrow> gtphub_port_ref_count_inc k h)"

definition gtphub_tunnel_endpoint_set_peer :: "nat \<Rightarrow> side \<times> plane \<Rightarrow> nat option \<Rightarrow> 'sa hub \<Rightarrow> 'sa hub exec" where
  "gtphub_tunnel_endpoint_set_peer k b pp h =
     ebind (tunnel_at h k) (\<lambda>t.
     ebind (ref_dec_opt (te_peer (tn_endpoint t b)) h) (\<lambda>h.
       ref_inc_opt pp (tunnel_upd k (endpoint_upd b (\<lambda>te. te\<lparr>te_peer := pp\<rparr>)) h)))"

text \<open>The queue an item is linked into: tunnels and resolved GGSNs expire slowly, the rest quickly.\<close>

definition expires_slowly :: "exp_item \<Rightarrow> bool" where
  "expires_slowly i = (case i of It_tunnel _ \<Rightarrow> True | It_ggsn _ \<Rightarrow> True | _ \<Rightarrow> False)"

definition hub_expiry_add :: "exp_item \<Rightarrow> int \<Rightarrow> 'sa hub \<Rightarrow> 'sa hub exec" where
  "hub_expiry_add i now h =
     (if expires_slowly i
      then ebind (expiry_add i now (hb_expire_slowly h)) (\<lambda>q. Inr (h\<lparr>hb_expire_slowly := q\<rparr>))
      else ebind (expiry_add i now (hb_expire_quickly h)) (\<lambda>q. Inr (h\<lparr>hb_expire_quickly := q\<rparr>)))"

definition hub_unlink :: "exp_item \<Rightarrow> 'sa hub \<Rightarrow> 'sa hub" where
  "hub_unlink i h =
     (if expires_slowly i then h\<lparr>hb_expire_slowly := expiry_unlink i (hb_expire_slowly h)\<rparr>
      else h\<lparr>hb_expire_quickly := expiry_unlink i (hb_expire_quickly h)\<rparr>)"

text \<open>
  The deletion callbacks, without the unlinking from the expiry queue that each of them
  repeats.
\<close>

fun release_endpoints :: "(side \<times> plane) list \<Rightarrow> tunnel \<Rightarrow> 'sa hub \<Rightarrow> 'sa hub exec" where
  "release_endpoints [] t h = Inr h"
| "release_endpoints (b # bs) t h = ebind (ref_dec_opt (te_peer (tn_endpoint t b)) h) (release_endpoints bs t)"

definition gtphub_tunnel_del_cb :: "nat \<Rightarrow> 'sa hub \<Rightarrow> 'sa hub exec" where
  "gtphub_tunnel_del_cb k h =
     ebind (tunnel_at h k) (\<lambda>t.
       release_endpoints side_planes t (h\<lparr>hb_tunnels := filter (\<lambda>t. tn_id t \<noteq> k) (hb_tunnels h)\<rparr>))"

definition gtphub_mapping_del_cb :: "nat \<Rightarrow> 'sa hub \<Rightarrow> 'sa hub exec" where
  "gtphub_mapping_del_cb k h =
     ebind (deref (find (\<lambda>m. mp_id m = k) (hb_mappings h))) (\<lambda>m.
       gtphub_port_ref_count_dec (mp_origin m) (h\<lparr>hb_mappings := filter (\<lambda>m. mp_id m \<noteq> k) (hb_mappings h)\<rparr>))"

definition pending_delete_del_cb :: "nat \<Rightarrow> 'sa hub \<Rightarrow> 'sa hub exec" where
  "pending_delete_del_cb k h =
     ebind (deref (find (\<lambda>pd. pd_id pd = k) (hb_pending_deletes h))) (\<lambda>_.
       Inr (h\<lparr>hb_pending_deletes := filter (\<lambda>pd. pd_id pd \<noteq> k) (hb_pending_deletes h)\<rparr>))"

definition resolved_gssn_del_cb :: "nat \<Rightarrow> 'sa hub \<Rightarrow> 'sa hub exec" where
  "resolved_gssn_del_cb k h =
     ebind (deref (find (\<lambda>g. rg_id g = k) (hb_resolved_ggsns h))) (\<lambda>g.
     ebind (gtphub_port_ref_count_dec (rg_peer g) h) (\<lambda>h.
       Inr (h\<lparr>hb_resolved_ggsns := filter (\<lambda>g. rg_id g \<noteq> k) (hb_resolved_ggsns h)\<rparr>)))"

definition ggsn_lookup_del_cb :: "nat \<Rightarrow> 'sa hub \<Rightarrow> 'sa hub exec" where
  "ggsn_lookup_del_cb k h =
     ebind (deref (find (\<lambda>lk. lk_id lk = k) (hb_ggsn_lookups h))) (\<lambda>_.
       Inr (h\<lparr>hb_ggsn_lookups := filter (\<lambda>lk. lk_id lk \<noteq> k) (hb_ggsn_lookups h)\<rparr>))"

definition expiring_item_del :: "exp_item \<Rightarrow> 'sa hub \<Rightarrow> 'sa hub exec" where
  "expiring_item_del i h =
     (let h = hub_unlink i h in
      case i of
        It_tunnel k \<Rightarrow> gtphub_tunnel_del_cb k h
      | It_mapping k \<Rightarrow> gtphub_mapping_del_cb k h
      | It_pending k \<Rightarrow> pending_delete_del_cb k h
      | It_ggsn k \<Rightarrow> resolved_gssn_del_cb k h
      | It_lookup k \<Rightarrow> ggsn_lookup_del_cb k h)"

definition expiry_tick_quickly :: "int \<Rightarrow> 'sa hub \<Rightarrow> (nat \<times> 'sa hub) exec" where
  "expiry_tick_quickly now h = expiry_tick_loop expiring_item_del now (ex_items (hb_expire_quickly h)) h"

definition expiry_tick_slowly :: "int \<Rightarrow> 'sa hub \<Rightarrow> (nat \<times> 'sa hub) exec" where
  "expiry_tick_slowly now h = expiry_tick_loop expiring_item_del now (ex_items (hb_expire_slowly h)) h"

subsection \<open>Garbage collection\<close>

definition gtphub_gc_peer_addr :: "nat \<Rightarrow> 'sa hub \<Rightarrow> bool \<times> 'sa hub" where
  "gtphub_gc_peer_addr a h =
     (let ports = filter (\<lambda>pp. \<not> (pp_addr pp = a \<and> pp_ref_count pp = 0)) (hb_ports h) in
      (\<forall>pp\<in>set ports. pp_addr pp \<noteq> a, h\<lparr>hb_ports := ports\<rparr>))"

fun gc_addrs :: "nat list \<Rightarrow> 'sa hub \<Rightarrow> 'sa hub" where
  "gc_addrs [] h = h"
| "gc_addrs (a # as) h =
     (let (unused, h) = gtphub_gc_peer_addr a h in
      gc_addrs as (if unused then h\<lparr>hb_addrs := filter (\<lambda>pa. pa_id pa \<noteq> a) (hb_addrs h)\<rparr> else h))"

definition gtphub_gc_peer :: "nat \<Rightarrow> 'sa hub \<Rightarrow> bool \<times> 'sa hub" where
  "gtphub_gc_peer k h =
     (let h = gc_addrs (map pa_id (filter (\<lambda>pa. pa_peer pa = k) (hb_addrs h))) h in
      ((\<forall>pa\<in>set (hb_addrs h). pa_peer pa \<noteq> k) \<and> (\<forall>m\<in>set (hb_mappings h). mp_map m \<noteq> k), h))"

text \<open>The map of a peer that is deleted here is empty, so that \<open>nr_map_clear\<close> has nothing to do.\<close>

fun gc_peers :: "nat list \<Rightarrow> 'sa hub \<Rightarrow> 'sa hub" where
  "gc_peers [] h = h"
| "gc_peers (k # ks) h =
     (let (unused, h) = gtphub_gc_peer k h in
      gc_peers ks (if unused then h\<lparr>hb_peers := filter (\<lambda>pr. pr_id pr \<noteq> k) (hb_peers h)\<rparr> else h))"

definition gtphub_gc_bind :: "side \<times> plane \<Rightarrow> 'sa hub \<Rightarrow> 'sa hub" where
  "gtphub_gc_bind b h = gc_peers (map pr_id (filter (\<lambda>pr. pr_bind pr = b) (hb_peers h))) h"

definition gtphub_gc :: "int \<Rightarrow> 'sa hub \<Rightarrow> 'sa hub exec" where
  "gtphub_gc now h =
     ebind (expiry_tick_quickly now h) (\<lambda>(n, h).
     ebind (expiry_tick_slowly now h) (\<lambda>(m, h).
       Inr (if n + m > 0 then fold gtphub_gc_bind side_planes h else h)))"

subsection \<open>Peers\<close>

definition gtphub_addr_find :: "'sa hub \<Rightarrow> side \<times> plane \<Rightarrow> octets \<Rightarrow> peer_addr option" where
  "gtphub_addr_find h b addr =
     find (\<lambda>pa. pa_addr pa = addr)
       (concat (map (\<lambda>pr. filter (\<lambda>pa. pa_peer pa = pr_id pr) (hb_addrs h))
          (filter (\<lambda>pr. pr_bind pr = b) (hb_peers h))))"

definition gtphub_addr_find_port :: "'sa hub \<Rightarrow> nat \<Rightarrow> u16 \<Rightarrow> 'sa peer_port option exec" where
  "gtphub_addr_find_port h a port =
     ebind (osmo_assert (port \<noteq> 0)) (\<lambda>_.
       Inr (find (\<lambda>pp. pp_addr pp = a \<and> pp_port pp = port) (hb_ports h)))"

definition gtphub_port_find :: "'sa hub \<Rightarrow> side \<times> plane \<Rightarrow> octets \<Rightarrow> u16 \<Rightarrow> 'sa peer_port option exec" where
  "gtphub_port_find h b addr port =
     (case gtphub_addr_find h b addr of None \<Rightarrow> Inr None | Some pa \<Rightarrow> gtphub_addr_find_port h (pa_id pa) port)"

definition gtphub_port_find_sa :: "('i, 'sa) hub_env \<Rightarrow> 'sa hub \<Rightarrow> side \<times> plane \<Rightarrow> 'sa \<Rightarrow> 'sa peer_port option exec" where
  "gtphub_port_find_sa e h b sa =
     (case gsn_addr_from_sockaddr e sa of None \<Rightarrow> Inr None | Some (addr, port) \<Rightarrow> gtphub_port_find h b addr port)"

definition gtphub_peer_new :: "side \<times> plane \<Rightarrow> 'sa hub \<Rightarrow> nat \<times> 'sa hub" where
  "gtphub_peer_new b h =
     (let k = hb_next h in
      (k, h\<lparr>hb_peers := \<lparr>pr_id = k, pr_bind = b, pr_seq_pool = (nr_pool_init 0 0xffff)\<lparr>np_last := 0x6d31 - 1\<rparr>\<rparr> # hb_peers h,
            hb_next := Suc k\<rparr>))"

definition gtphub_peer_add_addr :: "nat \<Rightarrow> octets \<Rightarrow> 'sa hub \<Rightarrow> nat \<times> 'sa hub" where
  "gtphub_peer_add_addr peer addr h =
     (let k = hb_next h in
      (k, h\<lparr>hb_addrs := \<lparr>pa_id = k, pa_peer = peer, pa_addr = addr\<rparr> # hb_addrs h, hb_next := Suc k\<rparr>))"

definition gtphub_addr_have :: "side \<times> plane \<Rightarrow> octets \<Rightarrow> 'sa hub \<Rightarrow> nat \<times> 'sa hub" where
  "gtphub_addr_have b addr h =
     (case gtphub_addr_find h b addr of
        Some pa \<Rightarrow> (pa_id pa, h)
      | None \<Rightarrow> (let (peer, h) = gtphub_peer_new b h in gtphub_peer_add_addr peer addr h))"

definition gtphub_addr_add_port :: "('i, 'sa) hub_env \<Rightarrow> nat \<Rightarrow> u16 \<Rightarrow> 'sa hub \<Rightarrow> (nat option \<times> 'sa hub) exec" where
  "gtphub_addr_add_port e a port h =
     ebind (addr_at h a) (\<lambda>pa.
     Inr (case gsn_addr_to_sockaddr e (pa_addr pa) port of
            None \<Rightarrow> (None, h)
          | Some sa \<Rightarrow>
              (let k = hb_next h in
               (Some k, h\<lparr>hb_ports := \<lparr>pp_id = k, pp_addr = a, pp_port = port, pp_ref_count = 0, pp_sa = sa,
                            pp_last_restart_count = -1\<rparr> # hb_ports h, hb_next := Suc k\<rparr>))))"

definition addr_have_port :: "('i, 'sa) hub_env \<Rightarrow> nat \<Rightarrow> u16 \<Rightarrow> 'sa hub \<Rightarrow> (nat option \<times> 'sa hub) exec" where
  "addr_have_port e a port h =
     ebind (gtphub_addr_find_port h a port) (\<lambda>r.
       case r of Some pp \<Rightarrow> Inr (Some (pp_id pp), h) | None \<Rightarrow> gtphub_addr_add_port e a port h)"

definition gtphub_port_have ::
  "('i, 'sa) hub_env \<Rightarrow> side \<times> plane \<Rightarrow> octets \<Rightarrow> u16 \<Rightarrow> 'sa hub \<Rightarrow> (nat option \<times> 'sa hub) exec" where
  "gtphub_port_have e b addr port h =
     (let (a, h) = gtphub_addr_have b addr h in addr_have_port e a port h)"

text \<open>A socket address that cannot be converted leaves the address and the port unset.\<close>

definition gtphub_known_addr_have_port ::
  "('i, 'sa) hub_env \<Rightarrow> side \<times> plane \<Rightarrow> 'sa \<Rightarrow> 'sa hub \<Rightarrow> (nat option \<times> 'sa hub) exec" where
  "gtphub_known_addr_have_port e b sa h =
     (case gsn_addr_from_sockaddr e sa of
        None \<Rightarrow> Inl Uninit_read
      | Some (addr, port) \<Rightarrow>
          (case gtphub_addr_find h b addr of
             None \<Rightarrow> Inr (None, h)
           | Some pa \<Rightarrow> addr_have_port e (pa_id pa) port h))"

subsection \<open>Sequence number maps\<close>

definition nr_map_get :: "'sa hub \<Rightarrow> nat \<Rightarrow> nat \<Rightarrow> u32 \<Rightarrow> nr_mapping option" where
  "nr_map_get h peer origin nr_orig =
     find (\<lambda>m. mp_map m = peer \<and> mp_origin m = origin \<and> mp_orig m = nr_orig) (hb_mappings h)"

definition nr_map_get_inv :: "'sa hub \<Rightarrow> nat \<Rightarrow> u32 \<Rightarrow> nr_mapping option" where
  "nr_map_get_inv h peer nr_repl = find (\<lambda>m. mp_map m = peer \<and> mp_repl m = nr_repl) (hb_mappings h)"

definition nr_map_add :: "nat \<Rightarrow> nat \<Rightarrow> u32 \<Rightarrow> int \<Rightarrow> 'sa hub \<Rightarrow> (nr_mapping \<times> 'sa hub) exec" where
  "nr_map_add peer origin nr_orig now h =
     ebind (peer_at h peer) (\<lambda>pr.
     let (repl, pool) = nr_pool_next (pr_seq_pool pr); k = hb_next h;
         m = \<lparr>mp_id = k, mp_map = peer, mp_origin = origin, mp_orig = nr_orig, mp_repl = repl\<rparr> in
     ebind (hub_expiry_add (It_mapping k) now
       ((peer_upd peer (\<lambda>pr. pr\<lparr>pr_seq_pool := pool\<rparr>) h)\<lparr>hb_mappings := hb_mappings h @ [m], hb_next := Suc k\<rparr>)) (\<lambda>h.
       Inr (m, h)))"

definition gtphub_mapping_have :: "nat \<Rightarrow> nat \<Rightarrow> u32 \<Rightarrow> int \<Rightarrow> 'sa hub \<Rightarrow> (nr_mapping \<times> 'sa hub) exec" where
  "gtphub_mapping_have peer from orig_nr now h =
     (case nr_map_get h peer from orig_nr of
        None \<Rightarrow>
          ebind (nr_map_add peer from orig_nr now h) (\<lambda>(m, h).
          ebind (gtphub_port_ref_count_inc from h) (\<lambda>h. Inr (m, h)))
      | Some m \<Rightarrow> ebind (hub_expiry_add (It_mapping (mp_id m)) now h) (\<lambda>h. Inr (m, h)))"

end
