(* ===== verification/Gtphub_Handle.thy ===== *)
theory Gtphub_Handle
  imports Gtphub
begin

unbundle bit_operations_syntax

section \<open>gtphub: packets and their forwarding (src/src/gtphub/gtphub.c)\<close>

text \<open>
  Decoding a GTP packet, replacing the numbers in it and choosing where it goes.  The packet lives
  in a receive buffer that is larger than the packet; \<open>p_data\<close> is that memory from the start
  of the packet on, and the offsets into it are those of the GTP headers of 3GPP TS 29.060.
\<close>

subsection \<open>Memory\<close>

definition rdn :: "octets \<Rightarrow> nat \<Rightarrow> nat \<Rightarrow> octets exec" where
  "rdn mem i n = (if i + n \<le> length mem then Inr (take n (drop i mem)) else Inl Oob_access)"

definition wrn :: "octets \<Rightarrow> nat \<Rightarrow> octets \<Rightarrow> octets exec" where
  "wrn mem i bs = (if i + length bs \<le> length mem then Inr (take i mem @ bs @ drop (i + length bs) mem) else Inl Oob_access)"

definition ntoh16 :: "octets \<Rightarrow> u16" where
  "ntoh16 bs = foldl (\<lambda>w b. push_bit 8 w OR ucast b) 0 bs"

definition ntoh32 :: "octets \<Rightarrow> u32" where
  "ntoh32 bs = foldl (\<lambda>w b. push_bit 8 w OR ucast b) 0 bs"

definition hton16 :: "u16 \<Rightarrow> octets" where
  "hton16 w = [ucast (drop_bit 8 w), ucast w]"

definition hton32 :: "u32 \<Rightarrow> octets" where
  "hton32 w = [ucast (drop_bit 24 w), ucast (drop_bit 16 w), ucast (drop_bit 8 w), ucast w]"

subsection \<open>Message types and information elements\<close>

definition GTP_ECHO_REQ :: u8 where "GTP_ECHO_REQ = 1"
definition GTP_ECHO_RSP :: u8 where "GTP_ECHO_RSP = 2"
definition GTP_CREATE_PDP_REQ :: u8 where "GTP_CREATE_PDP_REQ = 16"
definition GTP_CREATE_PDP_RSP :: u8 where "GTP_CREATE_PDP_RSP = 17"
definition GTP_UPDATE_PDP_REQ :: u8 where "GTP_UPDATE_PDP_REQ = 18"
definition GTP_UPDATE_PDP_RSP :: u8 where "GTP_UPDATE_PDP_RSP = 19"
definition GTP_DELETE_PDP_REQ :: u8 where "GTP_DELETE_PDP_REQ = 20"
definition GTP_DELETE_PDP_RSP :: u8 where "GTP_DELETE_PDP_RSP = 21"

definition GTPIE_CAUSE :: u8 where "GTPIE_CAUSE = 1"
definition GTPIE_IMSI :: u8 where "GTPIE_IMSI = 2"
definition GTPIE_RECOVERY :: u8 where "GTPIE_RECOVERY = 14"
definition GTPIE_TEI_DI :: u8 where "GTPIE_TEI_DI = 16"
definition GTPIE_TEI_C :: u8 where "GTPIE_TEI_C = 17"
definition GTPIE_TEARDOWN :: u8 where "GTPIE_TEARDOWN = 19"
definition GTPIE_NSAPI :: u8 where "GTPIE_NSAPI = 20"
definition GTPIE_APN :: u8 where "GTPIE_APN = 131"
definition GTPIE_GSN_ADDR :: u8 where "GTPIE_GSN_ADDR = 133"
definition GTPCAUSE_ACC_REQ :: u8 where "GTPCAUSE_ACC_REQ = 128"

definition GTP0_HEADER_SIZE :: nat where "GTP0_HEADER_SIZE = 20"
definition GTP1_HEADER_SIZE_SHORT :: nat where "GTP1_HEADER_SIZE_SHORT = 8"
definition GTP1_HEADER_SIZE_LONG :: nat where "GTP1_HEADER_SIZE_LONG = 12"

lemmas gtp_consts = GTP_ECHO_REQ_def GTP_ECHO_RSP_def GTP_CREATE_PDP_REQ_def GTP_CREATE_PDP_RSP_def
  GTP_UPDATE_PDP_REQ_def GTP_UPDATE_PDP_RSP_def GTP_DELETE_PDP_REQ_def GTP_DELETE_PDP_RSP_def
  GTP0_HEADER_SIZE_def GTP1_HEADER_SIZE_SHORT_def GTP1_HEADER_SIZE_LONG_def

subsection \<open>Packets\<close>

datatype gtp_rc = RC_UNKNOWN | RC_TINY | RC_PDU_C | RC_PDU_U | RC_TOOSHORT | RC_UNSUPPORTED_VERSION | RC_INVALID_IE

definition gtp_rc_val :: "gtp_rc \<Rightarrow> int" where
  "gtp_rc_val rc =
     (case rc of RC_UNKNOWN \<Rightarrow> 0 | RC_TINY \<Rightarrow> 1 | RC_PDU_C \<Rightarrow> 2 | RC_PDU_U \<Rightarrow> 3
      | RC_TOOSHORT \<Rightarrow> -1 | RC_UNSUPPORTED_VERSION \<Rightarrow> -2 | RC_INVALID_IE \<Rightarrow> -3)"

record 'i gtp_packet =
  p_data :: octets
  p_data_len :: nat
  p_header_len :: nat
  p_version :: nat
  p_type :: u8
  p_seq :: u16
  p_header_tei_rx :: u32
  p_header_tei :: u32
  p_rc :: gtp_rc
  p_plane :: plane
  p_side :: side
  p_tun :: "nat option"
  p_timestamp :: int
  p_ie :: "'i option"

definition validate_gtp0_header :: "'i gtp_packet \<Rightarrow> 'i gtp_packet exec" where
  "validate_gtp0_header p =
     (let p = p\<lparr>p_rc := RC_UNKNOWN, p_header_len := 0\<rparr> in
      ebind (osmo_assert (p_data_len p \<ge> 1)) (\<lambda>_.
      ebind (osmo_assert (p_version p = 0)) (\<lambda>_.
      if p_data_len p < GTP0_HEADER_SIZE then Inr (p\<lparr>p_rc := RC_TOOSHORT\<rparr>)
      else
        ebind (rd (p_data p) 1) (\<lambda>ty. ebind (rdn (p_data p) 4 2) (\<lambda>seq.
        let p = p\<lparr>p_type := ty, p_seq := ntoh16 seq, p_header_tei_rx := 0, p_header_tei := 0\<rparr> in
        if p_data_len p = GTP0_HEADER_SIZE then Inr (p\<lparr>p_rc := RC_TINY, p_header_len := GTP0_HEADER_SIZE\<rparr>)
        else
          ebind (rdn (p_data p) 2 2) (\<lambda>len.
          if p_data_len p \<noteq> unat (ntoh16 len) + GTP0_HEADER_SIZE then Inr (p\<lparr>p_rc := RC_TOOSHORT\<rparr>)
          else Inr (p\<lparr>p_header_len := GTP0_HEADER_SIZE, p_rc := RC_PDU_C\<rparr>)))))))"

definition validate_gtp1_header :: "'i gtp_packet \<Rightarrow> 'i gtp_packet exec" where
  "validate_gtp1_header p =
     (let p = p\<lparr>p_rc := RC_UNKNOWN, p_header_len := 0\<rparr> in
      ebind (osmo_assert (p_data_len p \<ge> 1)) (\<lambda>_.
      ebind (osmo_assert (p_version p = 1)) (\<lambda>_.
      if p_data_len p < GTP1_HEADER_SIZE_LONG \<and> p_data_len p \<noteq> GTP1_HEADER_SIZE_SHORT
      then Inr (p\<lparr>p_rc := RC_TOOSHORT\<rparr>)
      else
        ebind (rd (p_data p) 1) (\<lambda>ty. ebind (rdn (p_data p) 4 4) (\<lambda>tei. ebind (rdn (p_data p) 8 2) (\<lambda>seq.
        let p = p\<lparr>p_type := ty, p_header_tei_rx := ntoh32 tei, p_header_tei := ntoh32 tei, p_seq := ntoh16 seq\<rparr> in
        if p_data_len p \<le> GTP1_HEADER_SIZE_LONG
        then Inr (p\<lparr>p_rc := RC_TINY, p_header_len := GTP1_HEADER_SIZE_SHORT\<rparr>)
        else
          ebind (rdn (p_data p) 2 2) (\<lambda>len.
          if p_data_len p \<noteq> unat (ntoh16 len) + GTP1_HEADER_SIZE_SHORT then Inr (p\<lparr>p_rc := RC_TOOSHORT\<rparr>)
          else Inr (p\<lparr>p_rc := RC_PDU_C, p_header_len := GTP1_HEADER_SIZE_LONG\<rparr>))))))))"

definition validate_gtp_header :: "'i gtp_packet \<Rightarrow> 'i gtp_packet exec" where
  "validate_gtp_header p =
     (let p = p\<lparr>p_rc := RC_UNKNOWN\<rparr> in
      if p_data_len p < 1 then Inr (p\<lparr>p_rc := RC_TOOSHORT\<rparr>)
      else
        ebind (rd (p_data p) 0) (\<lambda>flags.
        let p = p\<lparr>p_version := unat (drop_bit 5 flags)\<rparr> in
        if p_version p = 0 then validate_gtp0_header p
        else if p_version p = 1 then validate_gtp1_header p
        else Inr (p\<lparr>p_rc := RC_UNSUPPORTED_VERSION\<rparr>)))"

definition zero_packet :: "octets \<Rightarrow> nat \<Rightarrow> side \<Rightarrow> plane \<Rightarrow> int \<Rightarrow> 'i gtp_packet" where
  "zero_packet data data_len s pl now =
     \<lparr>p_data = data, p_data_len = data_len, p_header_len = 0, p_version = 0, p_type = 0, p_seq = 0,
      p_header_tei_rx = 0, p_header_tei = 0, p_rc = RC_UNKNOWN, p_plane = pl, p_side = s, p_tun = None,
      p_timestamp = now, p_ie = None\<rparr>"

text \<open>The loops that only log the elements are left out.\<close>

definition gtp_decode ::
  "('i, 'sa) hub_env \<Rightarrow> octets \<Rightarrow> nat \<Rightarrow> side \<Rightarrow> plane \<Rightarrow> int \<Rightarrow> 'i gtp_packet exec" where
  "gtp_decode e data data_len s pl now =
     ebind (validate_gtp_header (zero_packet data data_len s pl now)) (\<lambda>p.
     Inr (if gtp_rc_val (p_rc p) \<le> 0 then p
          else if pl = USER then p\<lparr>p_rc := RC_PDU_U\<rparr>
          else if p_rc p \<noteq> RC_PDU_C then p
          else case gtpie_decaps e (p_version p) data (p_header_len p) (p_data_len p - p_header_len p) of
                 None \<Rightarrow> p\<lparr>p_rc := RC_INVALID_IE\<rparr>
               | Some ie \<Rightarrow> p\<lparr>p_ie := Some ie\<rparr>))"

definition set_seq :: "u16 \<Rightarrow> 'i gtp_packet \<Rightarrow> 'i gtp_packet exec" where
  "set_seq seq p =
     ebind (osmo_assert (p_version p = 1)) (\<lambda>_.
     ebind (wrn (p_data p) 8 (hton16 seq)) (\<lambda>d. Inr (p\<lparr>p_data := d, p_seq := seq\<rparr>)))"

definition set_tei :: "u32 \<Rightarrow> 'i gtp_packet \<Rightarrow> 'i gtp_packet exec" where
  "set_tei tei p =
     ebind (osmo_assert (p_version p = 1)) (\<lambda>_.
     ebind (wrn (p_data p) 4 (hton32 tei)) (\<lambda>d. Inr (p\<lparr>p_data := d, p_header_tei := tei\<rparr>)))"

subsection \<open>Information elements\<close>

definition getie :: "('i, 'sa) hub_env \<Rightarrow> 'i gtp_packet \<Rightarrow> u8 \<Rightarrow> nat \<Rightarrow> nat option" where
  "getie e p ty i = Option.bind (p_ie p) (\<lambda>ie. gtpie_getie e ie ty i)"

definition gettv1 :: "('i, 'sa) hub_env \<Rightarrow> 'i gtp_packet \<Rightarrow> u8 \<Rightarrow> nat \<Rightarrow> u8 option" where
  "gettv1 e p ty i = Option.bind (p_ie p) (\<lambda>ie. gtpie_gettv1 e ie (p_data p) ty i)"

definition gsn_addr_get :: "('i, 'sa) hub_env \<Rightarrow> 'i gtp_packet \<Rightarrow> nat \<Rightarrow> octets option" where
  "gsn_addr_get e p i =
     (if p_rc p \<noteq> RC_PDU_C then None
      else Option.bind (p_ie p) (\<lambda>ie. gtpie_gettlv e ie (p_data p) GTPIE_GSN_ADDR i 16))"

definition gsn_addr_put :: "('i, 'sa) hub_env \<Rightarrow> octets \<Rightarrow> nat \<Rightarrow> 'i gtp_packet \<Rightarrow> (int \<times> 'i gtp_packet) exec" where
  "gsn_addr_put e addr i p =
     (if p_rc p \<noteq> RC_PDU_C then Inr (-1, p)
      else case getie e p GTPIE_GSN_ADDR i of
        None \<Rightarrow> Inr (-1, p)
      | Some off \<Rightarrow>
          ebind (rdn (p_data p) (off + 1) 2) (\<lambda>l.
          if unat (ntoh16 l) \<noteq> length addr then Inr (-1, p)
          else ebind (wrn (p_data p) (off + 3) addr) (\<lambda>d. Inr (0, p\<lparr>p_data := d\<rparr>))))"

definition imsi_digit_to_char :: "u8 \<Rightarrow> char" where
  "imsi_digit_to_char nibble =
     (let n = nibble AND 0x0f in
      if n > 9 then (if n = 0x0f then CHR 0x00 else CHR ''?'') else char_of (48 + unat n))"

definition imsi_to_str :: "octets \<Rightarrow> string option" where
  "imsi_to_str imsi =
     (let cs = concat (map (\<lambda>b. [imsi_digit_to_char b, imsi_digit_to_char (drop_bit 4 b)]) imsi) in
      if CHR ''?'' \<in> set cs then None else Some (takeWhile (\<lambda>c. c \<noteq> CHR 0x00) cs))"

definition get_ie_imsi_str :: "('i, 'sa) hub_env \<Rightarrow> 'i gtp_packet \<Rightarrow> nat \<Rightarrow> int \<times> string" where
  "get_ie_imsi_str e p i =
     (case Option.bind (p_ie p) (\<lambda>ie. gtpie_gettv0 e ie (p_data p) GTPIE_IMSI i 8) of
        None \<Rightarrow> (0, [])
      | Some imsi \<Rightarrow> (case imsi_to_str imsi of None \<Rightarrow> (-1, []) | Some s \<Rightarrow> (1, s)))"

definition APN_MAXLEN :: nat where "APN_MAXLEN = 100"

definition get_ie_apn_str :: "('i, 'sa) hub_env \<Rightarrow> 'i gtp_packet \<Rightarrow> int \<times> string" where
  "get_ie_apn_str e p =
     (case Option.bind (p_ie p) (\<lambda>ie. gtpie_gettlv e ie (p_data p) GTPIE_APN 0 (APN_MAXLEN + 1)) of
        None \<Rightarrow> (0, [])
      | Some apn \<Rightarrow>
          if length apn < 2 then (-1, [])
          else (case osmo_apn_to_str e (take APN_MAXLEN apn) of None \<Rightarrow> (-1, []) | Some s \<Rightarrow> (1, s)))"

subsection \<open>Looking up GGSNs (src/src/gtphub/gtphub\_ares.c)\<close>

definition osmo_strlcpy :: "string \<Rightarrow> nat \<Rightarrow> string" where
  "osmo_strlcpy s siz = take (siz - 1) s"

definition gtphub_resolved_ggsn ::
  "('i, 'sa) hub_env \<Rightarrow> string \<Rightarrow> octets \<Rightarrow> int \<Rightarrow> 'sa hub \<Rightarrow> 'sa hub exec" where
  "gtphub_resolved_ggsn e apn_oi_str addr now h =
     ebind (gtphub_port_have e (GGSN, CTRL) addr 2123 h) (\<lambda>(pp, h).
     case pp of
       None \<Rightarrow> Inr h
     | Some pp \<Rightarrow>
         let k = hb_next h; h = h\<lparr>hb_next := Suc k\<rparr> in
         ebind (gtphub_port_ref_count_inc pp h) (\<lambda>h.
         ebind (hub_expiry_add (It_ggsn k) now h) (\<lambda>h.
           Inr (h\<lparr>hb_resolved_ggsns :=
                \<lparr>rg_id = k, rg_apn_oi_str = osmo_strlcpy apn_oi_str (APN_MAXLEN + 1), rg_peer = pp\<rparr> # hb_resolved_ggsns h\<rparr>))))"

definition start_ares_query :: "('i, 'sa) hub_env \<Rightarrow> string \<Rightarrow> nat \<Rightarrow> 'sa hub \<Rightarrow> int \<times> 'sa hub" where
  "start_ares_query e name k h = (sgsn_ares_query_rc e name, hub_emit (Ares_query name k) h)"

definition gtphub_resolve_ggsn_addr ::
  "('i, 'sa) hub_env \<Rightarrow> string \<Rightarrow> string \<Rightarrow> int \<Rightarrow> 'sa hub \<Rightarrow> (nat option \<times> 'sa hub) exec" where
  "gtphub_resolve_ggsn_addr e imsi_str apn_ni_str now h =
     (let imsi = osmo_strlcpy imsi_str 16; apn_ni = osmo_strlcpy apn_ni_str (APN_MAXLEN + 1);
          apn_oi = osmo_strlcpy (osmo_apn_qualify_from_imsi e imsi apn_ni False) (APN_MAXLEN + 1) in
      if \<exists>lk\<in>set (hb_ggsn_lookups h). lk_apn_oi_str lk = apn_oi then Inr (None, h)
      else case find (\<lambda>g. rg_apn_oi_str g = apn_oi) (hb_resolved_ggsns h) of
        Some g \<Rightarrow> Inr (Some (rg_peer g), h)
      | None \<Rightarrow>
          let k = hb_next h;
              lk = \<lparr>lk_id = k, lk_imsi_str = imsi, lk_apn_ni_str = apn_ni, lk_apn_oi_str = apn_oi, lk_have_3dig_mnc = False\<rparr>;
              h = h\<lparr>hb_ggsn_lookups := lk # hb_ggsn_lookups h, hb_next := Suc k\<rparr> in
          ebind (hub_expiry_add (It_lookup k) now h) (\<lambda>h. Inr (None, snd (start_ares_query e apn_oi k h))))"

text \<open>
  The answer to a query: \<open>None\<close> when it failed, or the addresses of the host.  The name is not
  composed again for the second attempt.
\<close>

definition ggsn_lookup_cb ::
  "('i, 'sa) hub_env \<Rightarrow> nat \<Rightarrow> octets list option \<Rightarrow> int \<Rightarrow> 'sa hub \<Rightarrow> 'sa hub exec" where
  "ggsn_lookup_cb e k answer now h =
     ebind (deref (find (\<lambda>lk. lk_id lk = k) (hb_ggsn_lookups h))) (\<lambda>lk.
     case answer of
       None \<Rightarrow>
         if \<not> lk_have_3dig_mnc lk then
           let h = h\<lparr>hb_ggsn_lookups := map (\<lambda>lk. if lk_id lk = k then lk\<lparr>lk_have_3dig_mnc := True\<rparr> else lk) (hb_ggsn_lookups h)\<rparr>;
               (rc, h) = start_ares_query e (lk_apn_oi_str lk) k h in
           if rc = 0 then Inr h else expiring_item_del (It_lookup k) h
         else expiring_item_del (It_lookup k) h
     | Some addrs \<Rightarrow>
         (case addrs of
            [] \<Rightarrow> expiring_item_del (It_lookup k) h
          | addr # _ \<Rightarrow>
              if length addr > 16 then expiring_item_del (It_lookup k) h
              else ebind (gtphub_resolved_ggsn e (lk_apn_oi_str lk) addr now h) (expiring_item_del (It_lookup k))))"

definition gtphub_resolve_ggsn ::
  "('i, 'sa) hub_env \<Rightarrow> 'i gtp_packet \<Rightarrow> int \<Rightarrow> 'sa hub \<Rightarrow> (int \<times> nat option \<times> 'sa hub) exec" where
  "gtphub_resolve_ggsn e p now h =
     (let (rc, imsi_str) = get_ie_imsi_str e p 0 in
      if rc < 1 then Inr (rc, None, h)
      else
        let (rc, apn_str) = get_ie_apn_str e p in
        if rc < 1 then Inr (rc, None, h)
        else ebind (gtphub_resolve_ggsn_addr e imsi_str apn_str now h) (\<lambda>(pp, h).
          Inr (if pp = None then -1 else 1, pp, h)))"

subsection \<open>Restarted peers\<close>

definition gtphub_map_restart_counter :: "('i, 'sa) hub_env \<Rightarrow> 'sa hub \<Rightarrow> 'i gtp_packet \<Rightarrow> 'i gtp_packet exec" where
  "gtphub_map_restart_counter e h p =
     (if p_rc p \<noteq> RC_PDU_C then Inr p
      else case getie e p GTPIE_RECOVERY 0 of
        None \<Rightarrow> Inr p
      | Some off \<Rightarrow> ebind (wrn (p_data p) (off + 1) [hb_restart_counter h]) (\<lambda>d. Inr (p\<lparr>p_data := d\<rparr>)))"

definition get_restart_count :: "('i, 'sa) hub_env \<Rightarrow> 'i gtp_packet \<Rightarrow> int exec" where
  "get_restart_count e p =
     (case getie e p GTPIE_RECOVERY 0 of
        None \<Rightarrow> Inr (-1)
      | Some off \<Rightarrow> ebind (rd (p_data p) (off + 1)) (\<lambda>b. Inr (uint b)))"

definition del_ctx_msg :: "u32 \<Rightarrow> u16 \<Rightarrow> octets" where
  "del_ctx_msg tei seq =
     [0x32, GTP_DELETE_PDP_REQ, 0, 8] @ hton32 tei @ hton16 seq @ [0, 0, 0x13, 0xff, 0x14, 0]"

definition gtphub_send_del_pdp_ctx :: "nat \<Rightarrow> side \<Rightarrow> 'sa hub \<Rightarrow> 'sa hub exec" where
  "gtphub_send_del_pdp_ctx k to_side h =
     ebind (tunnel_at h k) (\<lambda>t.
     let te = tn_endpoint t (to_side, CTRL) in
     case te_peer te of
       None \<Rightarrow> Inr h
     | Some pp \<Rightarrow>
         ebind (port_peer h pp) (\<lambda>pr.
         ebind (port_at h pp) (\<lambda>port.
         let (seq, pool) = nr_pool_next (pr_seq_pool pr);
             h = peer_upd (pr_id pr) (\<lambda>pr. pr\<lparr>pr_seq_pool := pool\<rparr>) h in
         Inr (hub_emit (Hub_write (to_side, CTRL) (pp_sa port) (del_ctx_msg (te_tei_orig te) (ucast seq))) h))))"

definition restarted_side :: "nat \<Rightarrow> nat \<Rightarrow> side \<Rightarrow> 'sa hub \<Rightarrow> 'sa hub exec" where
  "restarted_side pp k s h =
     ebind (tunnel_at h k) (\<lambda>t.
     case te_peer (tn_endpoint t (s, CTRL)) of
       None \<Rightarrow> Inr h
     | Some q \<Rightarrow>
         if te_tei_orig (tn_endpoint t (other_side s, CTRL)) = 0 then Inr h
         else ebind (port_peer h pp) (\<lambda>pr. ebind (port_peer h q) (\<lambda>pr'.
           if pr_id pr \<noteq> pr_id pr' then Inr h
           else
             ebind (gtphub_send_del_pdp_ctx k (other_side s) h) (\<lambda>h.
             ebind (gtphub_tunnel_endpoint_set_peer k (s, CTRL) None h) (\<lambda>h.
               gtphub_tunnel_endpoint_set_peer k (s, USER) None h)))))"

fun gtphub_restarted_loop :: "nat \<Rightarrow> nat list \<Rightarrow> 'sa hub \<Rightarrow> 'sa hub exec" where
  "gtphub_restarted_loop pp [] h = Inr h"
| "gtphub_restarted_loop pp (k # ks) h =
     ebind (restarted_side pp k SGSN h) (\<lambda>h. ebind (restarted_side pp k GGSN h) (gtphub_restarted_loop pp ks))"

definition gtphub_restarted :: "nat \<Rightarrow> 'sa hub \<Rightarrow> 'sa hub exec" where
  "gtphub_restarted pp h = gtphub_restarted_loop pp (map tn_id (hb_tunnels h)) h"

definition gtphub_check_restart_counter ::
  "('i, 'sa) hub_env \<Rightarrow> 'i gtp_packet \<Rightarrow> nat \<Rightarrow> 'sa hub \<Rightarrow> 'sa hub exec" where
  "gtphub_check_restart_counter e p from h =
     ebind (get_restart_count e p) (\<lambda>restart.
     if restart < 0 \<or> restart > 255 then Inr h
     else
       ebind (port_at h from) (\<lambda>pp.
       let l = pp_last_restart_count pp in
       ebind (if l \<ge> 0 \<and> l \<le> 255 \<and> l \<noteq> restart then gtphub_restarted from h else Inr h) (\<lambda>h.
         Inr (port_upd from (\<lambda>pp. pp\<lparr>pp_last_restart_count := restart\<rparr>) h))))"

subsection \<open>Mapping and unmapping of numbers\<close>

definition gtphub_map_seq :: "nat \<Rightarrow> nat \<Rightarrow> 'i gtp_packet \<Rightarrow> 'sa hub \<Rightarrow> ('i gtp_packet \<times> 'sa hub) exec" where
  "gtphub_map_seq from_port to_port p h =
     ebind (port_peer h to_port) (\<lambda>pr.
     ebind (gtphub_mapping_have (pr_id pr) from_port (ucast (p_seq p)) (p_timestamp p) h) (\<lambda>(m, h).
     ebind (set_seq (ucast (mp_repl m)) p) (\<lambda>p. Inr (p, h))))"

definition gtphub_unmap_seq :: "nat \<Rightarrow> 'sa hub \<Rightarrow> 'i gtp_packet \<Rightarrow> (nat option \<times> 'i gtp_packet) exec" where
  "gtphub_unmap_seq responding_port h p =
     ebind (osmo_assert (p_version p = 1)) (\<lambda>_.
     ebind (port_peer h responding_port) (\<lambda>pr.
     case nr_map_get_inv h (pr_id pr) (ucast (p_seq p)) of
       None \<Rightarrow> Inr (None, p)
     | Some m \<Rightarrow> ebind (set_seq (ucast (mp_orig m)) p) (\<lambda>p. Inr (Some (mp_origin m), p))))"

text \<open>The loop of \<open>gtphub_unmap_tei\<close> over the tunnels.\<close>

fun find_tei :: "tunnel list \<Rightarrow> side \<times> plane \<Rightarrow> u32 \<Rightarrow> octets \<Rightarrow> 'sa hub \<Rightarrow> tunnel option exec" where
  "find_tei [] b tei addr h = Inr None"
| "find_tei (t # ts) b tei addr h =
     (if tn_tei_repl t = tei then
        case te_peer (tn_endpoint t b) of
          None \<Rightarrow> find_tei ts b tei addr h
        | Some q \<Rightarrow> ebind (port_addr h q) (\<lambda>a. if a = addr then Inr (Some t) else find_tei ts b tei addr h)
      else find_tei ts b tei addr h)"

definition gtphub_unmap_tei ::
  "'i gtp_packet \<Rightarrow> nat \<Rightarrow> 'sa hub \<Rightarrow> ((tunnel_endpoint \<times> nat) option \<times> 'sa hub) exec" where
  "gtphub_unmap_tei p from h =
     ebind (port_addr h from) (\<lambda>addr.
     ebind (find_tei (hb_tunnels h) (p_side p, p_plane p) (p_header_tei_rx p) addr h) (\<lambda>r.
     case r of
       None \<Rightarrow> Inr (None, h)
     | Some t \<Rightarrow>
         ebind (hub_expiry_add (It_tunnel (tn_id t)) (p_timestamp p) h) (\<lambda>h.
           Inr (Some (tn_endpoint t (other_side (p_side p), p_plane p), tn_id t), h))))"

definition gtphub_unmap_header_tei ::
  "'i gtp_packet \<Rightarrow> nat \<Rightarrow> 'sa hub \<Rightarrow> (int \<times> nat option \<times> 'i gtp_packet \<times> 'sa hub) exec" where
  "gtphub_unmap_header_tei p from_port h =
     ebind (osmo_assert (p_version p = 1)) (\<lambda>_.
     let p = p\<lparr>p_tun := None\<rparr> in
     if p_header_tei_rx p = 0 then Inr (0, None, p, h)
     else
       ebind (gtphub_unmap_tei p from_port h) (\<lambda>(r, h).
       case r of
         None \<Rightarrow> Inr (-1, None, p, h)
       | Some (te, k) \<Rightarrow>
           ebind (set_tei (te_tei_orig te) (p\<lparr>p_tun := Some k\<rparr>)) (\<lambda>p. Inr (0, te_peer te, p, h))))"

definition gtphub_unmap ::
  "'i gtp_packet \<Rightarrow> nat \<Rightarrow> nat option \<Rightarrow> 'sa hub \<Rightarrow> (int \<times> nat option \<times> nat option \<times> 'i gtp_packet \<times> 'sa hub) exec" where
  "gtphub_unmap p from to_proxy h =
     ebind (gtphub_unmap_seq from h (p\<lparr>p_tun := None\<rparr>)) (\<lambda>(from_seq, p).
     ebind (gtphub_unmap_header_tei p from h) (\<lambda>(rc, from_tei, p, h).
     if rc < 0 then Inr (-1, None, None, p, h)
     else
       let unmapped = (if from_seq \<noteq> None then from_seq else from_tei);
           unmapped = (if to_proxy \<noteq> None then to_proxy else unmapped) in
       if unmapped = None then Inr (0, None, None, p, h)
       else Inr (0, unmapped, from_seq, p, h)))"

end
