(* ===== verification/Gtphub_Pdp.thy ===== *)
theory Gtphub_Pdp
  imports Gtphub_Handle
begin

unbundle bit_operations_syntax

section \<open>gtphub: PDP contexts and forwarding (src/src/gtphub/gtphub.c)\<close>

text \<open>
  The handlers of PDP context messages, which set up, check and remove tunnels, and
  \<open>gtphub_handle_buf\<close>, which takes a packet from its arrival to its departure.
\<close>

subsection \<open>Reused identifiers\<close>

text \<open>
  \<open>gtphub_check_mapped_tei\<close> with the replacement TEI of the new tunnel, that of the other
  one, and the range seen so far.
\<close>

definition gtphub_check_mapped_tei :: "u32 \<Rightarrow> u32 \<Rightarrow> u32 \<Rightarrow> u32 \<Rightarrow> (u32 \<times> u32 \<times> u32) option" where
  "gtphub_check_mapped_tei new_tei tei tei_min tei_max =
     (if new_tei = 0 \<or> tei = 0 then Some (new_tei, tei_min, tei_max)
      else
        let tei_min = (if tei_min < tei then tei_min else tei);
            tei_max = (if tei_max > tei then tei_max else tei) in
        if new_tei \<noteq> tei then Some (new_tei, tei_min, tei_max)
        else if tei_max < 0xffffffff then Some (tei_max + 1, tei_min, tei_max + 1)
        else if tei_min > 1 then Some (tei_min - 1, tei_min - 1, tei_max)
        else None)"

definition endpoint_reused :: "tunnel_endpoint \<Rightarrow> tunnel_endpoint \<Rightarrow> 'sa hub \<Rightarrow> bool exec" where
  "endpoint_reused te te2 h =
     (if te_tei_orig te = 0 \<or> te_tei_orig te \<noteq> te_tei_orig te2 then Inr False
      else case (te_peer te, te_peer te2) of
        (Some q, Some q2) \<Rightarrow> ebind (port_addr h q) (\<lambda>a. ebind (port_addr h q2) (\<lambda>a2. Inr (a = a2)))
      | _ \<Rightarrow> Inr False)"

fun tunnel_reused :: "(side \<times> plane) list \<Rightarrow> tunnel \<Rightarrow> tunnel \<Rightarrow> 'sa hub \<Rightarrow> bool exec" where
  "tunnel_reused [] t t2 h = Inr False"
| "tunnel_reused (b # bs) t t2 h =
     ebind (endpoint_reused (tn_endpoint t b) (tn_endpoint t2 b) h) (\<lambda>r.
       if r then Inr True else tunnel_reused bs t t2 h)"

fun check_reused_loop :: "nat list \<Rightarrow> nat \<Rightarrow> u32 \<Rightarrow> u32 \<Rightarrow> 'sa hub \<Rightarrow> (bool \<times> 'sa hub) exec" where
  "check_reused_loop [] new tei_min tei_max h = Inr (True, h)"
| "check_reused_loop (k # ks) new tei_min tei_max h =
     (if k = new then check_reused_loop ks new tei_min tei_max h
      else
        ebind (tunnel_at h k) (\<lambda>t.
        ebind (tunnel_at h new) (\<lambda>t2.
        ebind (tunnel_reused side_planes t t2 h) (\<lambda>r.
        if r then ebind (expiring_item_del (It_tunnel k) h) (check_reused_loop ks new tei_min tei_max)
        else
          case gtphub_check_mapped_tei (tn_tei_repl t2) (tn_tei_repl t) tei_min tei_max of
            None \<Rightarrow> Inr (False, h)
          | Some (tei, tei_min, tei_max) \<Rightarrow>
              check_reused_loop ks new tei_min tei_max (tunnel_upd new (\<lambda>t. t\<lparr>tn_tei_repl := tei\<rparr>) h)))))"

definition gtphub_check_reused_teis :: "nat \<Rightarrow> 'sa hub \<Rightarrow> (bool \<times> 'sa hub) exec" where
  "gtphub_check_reused_teis new h = check_reused_loop (map tn_id (hb_tunnels h)) new 0xffffffff 0 h"

subsection \<open>Creation of PDP contexts\<close>

definition gtphub_tunnel_new :: "u32 \<Rightarrow> 'sa hub \<Rightarrow> nat \<times> 'sa hub" where
  "gtphub_tunnel_new tei_repl h =
     (let k = hb_next h in
      (k, h\<lparr>hb_tunnels := \<lparr>tn_id = k, tn_tei_repl = tei_repl,
                           tn_endpoint = (\<lambda>_. \<lparr>te_peer = None, te_tei_orig = 0\<rparr>)\<rparr> # hb_tunnels h, hb_next := Suc k\<rparr>))"

definition plane_idx :: "plane \<Rightarrow> nat" where
  "plane_idx pl = (case pl of CTRL \<Rightarrow> 0 | USER \<Rightarrow> 1)"

definition tei_ie_type :: "plane \<Rightarrow> u8" where
  "tei_ie_type pl = (case pl of CTRL \<Rightarrow> GTPIE_TEI_C | USER \<Rightarrow> GTPIE_TEI_DI)"

text \<open>The TEI of an information element at offset \<open>off\<close>; \<open>0\<close> when there is none.\<close>

definition read_tei :: "'i gtp_packet \<Rightarrow> nat option \<Rightarrow> u32 exec" where
  "read_tei p off = (case off of None \<Rightarrow> Inr 0 | Some off \<Rightarrow> ebind (rdn (p_data p) (off + 1) 4) (\<lambda>v. Inr (ntoh32 v)))"

definition create_use_addr ::
  "('i, 'sa) hub_env \<Rightarrow> side \<times> plane \<Rightarrow> octets \<Rightarrow> nat \<Rightarrow> 'sa hub \<Rightarrow> (octets \<times> u16) exec" where
  "create_use_addr e b addr from_ctrl h =
     (if hb_sgsn_use_sender h \<and> fst b = SGSN then
        ebind (port_at h from_ctrl) (\<lambda>pp.
          case gsn_addr_from_sockaddr e (pp_sa pp) of None \<Rightarrow> Inl Uninit_read | Some r \<Rightarrow> Inr r)
      else Inr (addr, default_port (snd b)))"

text \<open>
  The announced TEI is taken over and replaced in the packet before the replacement TEI is
  compared with those of the other tunnels.
\<close>

definition create_map_tei ::
  "nat \<Rightarrow> side \<times> plane \<Rightarrow> nat option \<Rightarrow> u32 \<Rightarrow> 'i gtp_packet \<Rightarrow> 'sa hub \<Rightarrow> ('i gtp_packet \<times> 'sa hub) exec" where
  "create_map_tei k b ie tei p h =
     (if tei = 0 then Inr (p, h)
      else
        let h = tunnel_upd k (endpoint_upd b (\<lambda>te. te\<lparr>te_tei_orig := tei\<rparr>)) h in
        ebind (tunnel_at h k) (\<lambda>t.
        ebind (deref ie) (\<lambda>off.
        ebind (wrn (p_data p) (off + 1) (hton32 (tn_tei_repl t))) (\<lambda>d.
        ebind (gtphub_check_reused_teis k h) (\<lambda>(ok, h).
          if \<not> ok then Inl Assert_fail else Inr (p\<lparr>p_data := d\<rparr>, h))))))"

definition create_rewrite ::
  "('i, 'sa) hub_env \<Rightarrow> nat \<Rightarrow> side \<times> plane \<Rightarrow> nat option \<Rightarrow> u32 \<Rightarrow> 'i gtp_packet \<Rightarrow> 'sa hub \<Rightarrow>
   (int \<times> 'i gtp_packet \<times> 'sa hub) exec" where
  "create_rewrite e k b ie tei p h =
     ebind (tunnel_at h k) (\<lambda>t.
     if tei = 0 \<and> te_tei_orig (tn_endpoint t b) = 0 then Inr (-1, p, h)
     else
       ebind (create_map_tei k b ie tei p h) (\<lambda>(p, h).
       ebind (gsn_addr_put e (hb_local_addr h (other_side (fst b), snd b)) (plane_idx (snd b)) p) (\<lambda>(rc, p).
         Inr (rc, p, h))))"

definition create_endpoint ::
  "('i, 'sa) hub_env \<Rightarrow> nat \<Rightarrow> side \<times> plane \<Rightarrow> octets \<Rightarrow> nat option \<Rightarrow> nat \<Rightarrow> 'i gtp_packet \<Rightarrow> 'sa hub \<Rightarrow>
   (int \<times> 'i gtp_packet \<times> 'sa hub) exec" where
  "create_endpoint e k b addr ie from_ctrl p h =
     ebind (read_tei p ie) (\<lambda>tei.
     ebind (create_use_addr e b addr from_ctrl h) (\<lambda>(addr, port).
     ebind (gtphub_port_have e b addr port h) (\<lambda>(pp, h).
     ebind (gtphub_tunnel_endpoint_set_peer k b pp h) (create_rewrite e k b ie tei p))))"

fun create_planes ::
  "('i, 'sa) hub_env \<Rightarrow> nat \<Rightarrow> plane list \<Rightarrow> nat \<Rightarrow> 'i gtp_packet \<Rightarrow> 'sa hub \<Rightarrow> (int \<times> 'i gtp_packet \<times> 'sa hub) exec" where
  "create_planes e k [] from_ctrl p h = Inr (0, p, h)"
| "create_planes e k (pl # pls) from_ctrl p h =
     (case gsn_addr_get e p (plane_idx pl) of
        None \<Rightarrow> Inr (-1, p, h)
      | Some addr \<Rightarrow>
          let ie = getie e p (tei_ie_type pl) 0 in
          if ie = None \<and> p_type p = GTP_CREATE_PDP_REQ then Inr (-1, p, h)
          else ebind (create_endpoint e k (p_side p, pl) addr ie from_ctrl p h) (\<lambda>(rc, p, h).
            if rc \<noteq> 0 then Inr (-1, p, h) else create_planes e k pls from_ctrl p h))"

definition gtphub_handle_create_pdp_ctx ::
  "('i, 'sa) hub_env \<Rightarrow> nat \<Rightarrow> nat \<Rightarrow> 'i gtp_packet \<Rightarrow> 'sa hub \<Rightarrow> (int \<times> 'i gtp_packet \<times> 'sa hub) exec" where
  "gtphub_handle_create_pdp_ctx e from_ctrl to_ctrl p h =
     (if p_type p = GTP_CREATE_PDP_REQ then
        if p_side p \<noteq> SGSN then Inr (-1, p, h)
        else if p_tun p \<noteq> None then Inr (-1, p, h)
        else
          let (tei, pool) = nr_pool_next (hb_tei_pool h);
              (k, h) = gtphub_tunnel_new tei (h\<lparr>hb_tei_pool := pool\<rparr>);
              p = p\<lparr>p_tun := Some k\<rparr> in
          ebind (hub_expiry_add (It_tunnel k) (p_timestamp p) h) (\<lambda>h.
          ebind (gtphub_tunnel_endpoint_set_peer k (GGSN, CTRL) (Some to_ctrl) h) (\<lambda>h.
            create_planes e k [CTRL, USER] from_ctrl p h))
      else
        if p_side p \<noteq> GGSN then Inr (-1, p, h)
        else case p_tun p of
          None \<Rightarrow> Inl Assert_fail
        | Some k \<Rightarrow>
            ebind (tunnel_at h k) (\<lambda>t.
            ebind (osmo_assert (tn_tei_repl t = p_header_tei_rx p)) (\<lambda>_.
              create_planes e k [CTRL, USER] from_ctrl p h)))"

subsection \<open>Deletion of PDP contexts\<close>

definition delete_request ::
  "nat \<Rightarrow> u8 \<Rightarrow> u8 \<Rightarrow> int \<Rightarrow> 'sa hub \<Rightarrow> 'sa hub exec" where
  "delete_request k teardown_ind nsapi now h =
     (case find (\<lambda>pd. pd_tun pd = k \<and> pd_teardown_ind pd = teardown_ind \<and> pd_nsapi pd = nsapi) (hb_pending_deletes h) of
        Some pd \<Rightarrow> hub_expiry_add (It_pending (pd_id pd)) now h
      | None \<Rightarrow>
          let i = hb_next h;
              pd = \<lparr>pd_id = i, pd_tun = k, pd_teardown_ind = teardown_ind, pd_nsapi = nsapi\<rparr> in
          hub_expiry_add (It_pending i) now (h\<lparr>hb_pending_deletes := pd # hb_pending_deletes h, hb_next := Suc i\<rparr>))"

definition gtphub_handle_delete_pdp_ctx ::
  "('i, 'sa) hub_env \<Rightarrow> 'i gtp_packet \<Rightarrow> 'sa hub \<Rightarrow> (int \<times> 'i gtp_packet \<times> 'sa hub) exec" where
  "gtphub_handle_delete_pdp_ctx e p h =
     (if p_type p = GTP_DELETE_PDP_REQ then
        (case p_tun p of
           None \<Rightarrow> Inr (-1, p, h)
         | Some k \<Rightarrow>
             (case (gettv1 e p GTPIE_TEARDOWN 0, gettv1 e p GTPIE_NSAPI 0) of
                (Some teardown_ind, Some nsapi) \<Rightarrow>
                  ebind (delete_request k teardown_ind nsapi (p_timestamp p) h) (\<lambda>h. Inr (0, p, h))
              | _ \<Rightarrow> Inr (-1, p, h)))
      else
        (case p_tun p of
           None \<Rightarrow> Inr (-1, p, h)
         | Some k \<Rightarrow>
             (case find (\<lambda>pd. pd_tun pd = k) (hb_pending_deletes h) of
                None \<Rightarrow> Inr (-1, p, h)
              | Some pd \<Rightarrow>
                  ebind (expiring_item_del (It_pending (pd_id pd)) h) (\<lambda>h.
                  if gettv1 e p GTPIE_CAUSE 0 \<noteq> Some GTPCAUSE_ACC_REQ then Inr (-1, p, h)
                  else ebind (expiring_item_del (It_tunnel k) h) (\<lambda>h. Inr (0, p\<lparr>p_tun := None\<rparr>, h))))))"

definition gtphub_handle_pdp_ctx ::
  "('i, 'sa) hub_env \<Rightarrow> nat \<Rightarrow> nat \<Rightarrow> 'i gtp_packet \<Rightarrow> 'sa hub \<Rightarrow> (int \<times> 'i gtp_packet \<times> 'sa hub) exec" where
  "gtphub_handle_pdp_ctx e from_ctrl to_ctrl p h =
     ebind (osmo_assert (p_plane p = CTRL)) (\<lambda>_.
     if p_type p = GTP_CREATE_PDP_REQ \<or> p_type p = GTP_CREATE_PDP_RSP
     then gtphub_handle_create_pdp_ctx e from_ctrl to_ctrl p h
     else if p_type p = GTP_DELETE_PDP_REQ \<or> p_type p = GTP_DELETE_PDP_RSP
     then gtphub_handle_delete_pdp_ctx e p h
     else Inr (0, p, h))"

subsection \<open>Handling a packet\<close>

definition echo_response :: "u16 \<Rightarrow> u8 \<Rightarrow> octets" where
  "echo_response seq restart_counter =
     [0x32, GTP_ECHO_RSP, 0, 6, 0, 0, 0, 0] @ hton16 seq @ [0, 0, 0x0e, restart_counter]"

text \<open>
  Who the sender is: the proxy, a peer whose address is known, or a new SGSN on the control
  plane.  \<open>None\<close> when the packet is dropped.
\<close>

definition sender_peer ::
  "('i, 'sa) hub_env \<Rightarrow> side \<times> plane \<Rightarrow> 'sa \<Rightarrow> 'sa hub \<Rightarrow> (nat option \<times> 'sa hub) exec" where
  "sender_peer e b from_addr h =
     (case hb_proxy h b of
        Some k \<Rightarrow> ebind (port_at h k) (\<lambda>pp. Inr (if pp_sa pp \<noteq> from_addr then None else Some k, h))
      | None \<Rightarrow>
          ebind (gtphub_known_addr_have_port e b from_addr h) (\<lambda>(pp, h).
          if pp \<noteq> None then Inr (pp, h)
          else if fst b = GGSN \<or> snd b \<noteq> CTRL then Inr (None, h)
          else case gsn_addr_from_sockaddr e from_addr of
            None \<Rightarrow> Inr (None, h)
          | Some (addr, port) \<Rightarrow> gtphub_port_have e b addr port h))"

type_synonym ('sa) forward = "octets \<times> (side \<times> plane) \<times> 'sa"

text \<open>From the point on where the receiver is known.\<close>

definition hub_forward ::
  "('i, 'sa) hub_env \<Rightarrow> nat \<Rightarrow> nat \<Rightarrow> nat option \<Rightarrow> nat \<Rightarrow> 'i gtp_packet \<Rightarrow> 'sa hub \<Rightarrow>
   ((int \<times> 'sa forward option) \<times> 'sa hub) exec" where
  "hub_forward e from_peer to_peer to_peer_from_seq received p h =
     (let to_bind = (other_side (p_side p), p_plane p) in
      ebind (if p_plane p = CTRL then gtphub_handle_pdp_ctx e from_peer to_peer p h else Inr (0, p, h)) (\<lambda>(rc, p, h).
      if rc \<noteq> 0 then Inr ((-1, None), h)
      else
        ebind (osmo_assert (p_tun p \<noteq> None \<or> p_type p = GTP_DELETE_PDP_RSP)) (\<lambda>_.
        ebind (if to_peer_from_seq = None then gtphub_map_seq from_peer to_peer p h else Inr (p, h)) (\<lambda>(p, h).
        ebind (port_at h to_peer) (\<lambda>pp.
        let h = (if received > 0
                 then rate_ctr_add (Ctr_port to_peer) BYTES_OUT received (rate_ctr_add (Ctr_port to_peer) PKTS_OUT 1
                   (rate_ctr_add (Ctr_bind to_bind) BYTES_OUT received (rate_ctr_add (Ctr_bind to_bind) PKTS_OUT 1 h)))
                 else h);
            h = (case p_tun p of
                   None \<Rightarrow> h
                 | Some k \<Rightarrow> rate_ctr_add (Ctr_endpoint k to_bind) BYTES_OUT received
                     (rate_ctr_add (Ctr_endpoint k to_bind) PKTS_OUT 1 h))
        in Inr ((int received, Some (take received (p_data p), to_bind, pp_sa pp)), h))))))"

text \<open>
  Without a receiver the packet is dropped; the confirmation that a tunnel with a restarted
  peer has been deleted still removes the tunnel.
\<close>

definition hub_dispatch ::
  "('i, 'sa) hub_env \<Rightarrow> nat \<Rightarrow> nat option \<Rightarrow> nat \<Rightarrow> 'i gtp_packet \<Rightarrow> nat option \<Rightarrow> 'sa hub \<Rightarrow>
   ((int \<times> 'sa forward option) \<times> 'sa hub) exec" where
  "hub_dispatch e from_peer from_seq received p to_peer h =
     (case to_peer of
        Some k \<Rightarrow> hub_forward e from_peer k from_seq received p h
      | None \<Rightarrow>
          (case p_tun p of
             Some t \<Rightarrow>
               if p_type p = GTP_DELETE_PDP_RSP
               then ebind (expiring_item_del (It_tunnel t) h) (\<lambda>h. Inr ((0, None), h))
               else Inr ((-1, None), h)
           | None \<Rightarrow> Inr ((-1, None), h)))"

text \<open>From the point on where the sender is known.\<close>

definition hub_route ::
  "('i, 'sa) hub_env \<Rightarrow> nat \<Rightarrow> nat \<Rightarrow> int \<Rightarrow> 'i gtp_packet \<Rightarrow> 'sa hub \<Rightarrow> ((int \<times> 'sa forward option) \<times> 'sa hub) exec" where
  "hub_route e from_peer received clk p h =
     (let b = (p_side p, p_plane p);
          h = rate_ctr_add (Ctr_port from_peer) PKTS_IN 1 (rate_ctr_add (Ctr_port from_peer) BYTES_IN received h) in
      ebind (gtphub_check_restart_counter e p from_peer h) (\<lambda>h.
      ebind (gtphub_map_restart_counter e h p) (\<lambda>p.
      ebind (gtphub_unmap p from_peer (hb_proxy h (other_side (p_side p), p_plane p)) h) (\<lambda>(rc, to_peer, from_seq, p, h).
      if rc \<noteq> 0 then Inr ((-1, None), h)
      else
        let h = (case p_tun p of
                   None \<Rightarrow> h
                 | Some k \<Rightarrow> rate_ctr_add (Ctr_endpoint k b) PKTS_IN 1 (rate_ctr_add (Ctr_endpoint k b) BYTES_IN received h))
        in
        ebind (if to_peer = None \<and> p_side p = SGSN then gtphub_resolve_ggsn e p clk h else Inr (0, to_peer, h)) (\<lambda>(rc, to_peer, h).
        if rc < 0 then Inr ((-1, None), h) else hub_dispatch e from_peer from_seq received p to_peer h)))))"

text \<open>
  \<open>now\<close> is the time the packet was received at and \<open>clk\<close> the time a lookup started for it
  reads from the clock.
\<close>

definition gtphub_handle_buf ::
  "('i, 'sa) hub_env \<Rightarrow> side \<Rightarrow> plane \<Rightarrow> 'sa \<Rightarrow> octets \<Rightarrow> nat \<Rightarrow> int \<Rightarrow> int \<Rightarrow> 'sa hub \<Rightarrow>
   ((int \<times> 'sa forward option) \<times> 'sa hub) exec" where
  "gtphub_handle_buf e s pl from_addr buf received now clk h =
     (let b = (s, pl); h = rate_ctr_add (Ctr_bind b) BYTES_IN received h in
      ebind (gtp_decode e buf received s pl now) (\<lambda>p.
      if gtp_rc_val (p_rc p) \<le> 0 then Inr ((-1, None), h)
      else
        let h = rate_ctr_add (Ctr_bind b) PKTS_IN 1 h in
        if p_type p = GTP_ECHO_REQ then
          let reply = echo_response (p_seq p) (hb_restart_counter h) in
          Inr ((int (length reply), Some (reply, b, from_addr)),
            rate_ctr_add (Ctr_bind b) BYTES_OUT (length reply) (rate_ctr_add (Ctr_bind b) PKTS_OUT 1 h))
        else
          ebind (sender_peer e b from_addr h) (\<lambda>(from_peer, h).
          case from_peer of
            None \<Rightarrow> Inr ((-1, None), h)
          | Some k \<Rightarrow> hub_route e k received clk p h)))"

text \<open>\<open>from_sgsns_read_cb\<close> and \<open>from_ggsns_read_cb\<close> with a datagram that has been read.\<close>

definition gtphub_read_cb ::
  "('i, 'sa) hub_env \<Rightarrow> side \<Rightarrow> plane \<Rightarrow> 'sa \<Rightarrow> octets \<Rightarrow> nat \<Rightarrow> int \<Rightarrow> int \<Rightarrow> 'sa hub \<Rightarrow> 'sa hub exec" where
  "gtphub_read_cb e s pl from_addr buf len now clk h =
     (if len < 1 then Inr h
      else
        ebind (gtphub_handle_buf e s pl from_addr buf len now clk h) (\<lambda>((len, fwd), h).
        case fwd of
          None \<Rightarrow> Inr h
        | Some (bs, to_bind, to_addr) \<Rightarrow> Inr (if len < 1 then h else hub_emit (Hub_write to_bind to_addr bs) h)))"

subsection \<open>Start\<close>

definition GTPH_EXPIRE_QUICKLY_SECS :: int where "GTPH_EXPIRE_QUICKLY_SECS = 30"
definition GTPH_EXPIRE_SLOWLY_MINUTES :: int where "GTPH_EXPIRE_SLOWLY_MINUTES = 6 * 60"

definition gtphub_init :: "'sa hub" where
  "gtphub_init =
     \<lparr>hb_local_addr = (\<lambda>_. []), hb_peers = [], hb_addrs = [], hb_ports = [], hb_mappings = [], hb_proxy = (\<lambda>_. None),
      hb_tei_pool = nr_pool_init 1 0xffffffff, hb_tunnels = [], hb_pending_deletes = [], hb_ggsn_lookups = [],
      hb_resolved_ggsns = [], hb_expire_quickly = expiry_init GTPH_EXPIRE_QUICKLY_SECS,
      hb_expire_slowly = expiry_init (GTPH_EXPIRE_SLOWLY_MINUTES * 60), hb_restart_counter = 0,
      hb_sgsn_use_sender = False, hb_next = 0, hb_counters = [], hb_out = []\<rparr>"

text \<open>A proxy as configured: its address, already parsed, and its port.\<close>

definition gtphub_make_proxy ::
  "('i, 'sa) hub_env \<Rightarrow> (side \<times> plane \<Rightarrow> (octets \<times> u16) option) \<Rightarrow> side \<times> plane \<Rightarrow> 'sa hub \<Rightarrow> 'sa hub exec" where
  "gtphub_make_proxy e cfg b h =
     (case cfg b of
        None \<Rightarrow> Inr h
      | Some (addr, port) \<Rightarrow>
          ebind (gtphub_port_have e b addr port h) (\<lambda>(pp, h).
          case pp of
            None \<Rightarrow> Inl Assert_fail
          | Some k \<Rightarrow> gtphub_port_ref_count_inc k (h\<lparr>hb_proxy := (hb_proxy h)(b := Some k)\<rparr>)))"

fun make_proxies ::
  "('i, 'sa) hub_env \<Rightarrow> (side \<times> plane \<Rightarrow> (octets \<times> u16) option) \<Rightarrow> (side \<times> plane) list \<Rightarrow> 'sa hub \<Rightarrow> 'sa hub exec" where
  "make_proxies e cfg [] h = Inr h"
| "make_proxies e cfg (b # bs) h = ebind (gtphub_make_proxy e cfg b h) (make_proxies e cfg bs)"

definition gtphub_start ::
  "('i, 'sa) hub_env \<Rightarrow> (side \<times> plane \<Rightarrow> octets) \<Rightarrow> (side \<times> plane \<Rightarrow> (octets \<times> u16) option) \<Rightarrow> bool \<Rightarrow> u8 \<Rightarrow> 'sa hub exec" where
  "gtphub_start e local_addr proxy use_sender restart_counter =
     make_proxies e proxy side_planes
       (gtphub_init\<lparr>hb_local_addr := local_addr, hb_restart_counter := restart_counter, hb_sgsn_use_sender := use_sender\<rparr>)"

end
