(* ===== verification/Gtphub_Inv.thy ===== *)
theory Gtphub_Inv
  imports Gtphub_Pdp "HOL-Library.Multiset"
begin

unbundle bit_operations_syntax

section \<open>gtphub: the invariant of its objects\<close>

text \<open>
  What holds of the objects of gtphub before and after every event, and that deletion, garbage collection and the
  operations on peers, tunnels and reference counts keep it.  The two expiry queues of gtphub are
  the two interpretations of the interface \<open>expiring\<close>.
\<close>

subsection \<open>The invariant\<close>

text \<open>Identities of the objects of one list: distinct, and below the next one to be given out.\<close>

definition ids_ok :: "('a \<Rightarrow> nat) \<Rightarrow> 'a list \<Rightarrow> nat \<Rightarrow> bool" where
  "ids_ok f xs n \<longleftrightarrow> distinct (map f xs) \<and> (\<forall>x\<in>set xs. f x < n)"

lemma ids_ok_Nil [simp]: "ids_ok f [] n"
  by (simp add: ids_ok_def)

lemma ids_ok_filter: "ids_ok f xs n \<Longrightarrow> ids_ok f (filter P xs) n"
  by (auto simp: ids_ok_def distinct_map_filter)

lemma ids_ok_Suc: "ids_ok f xs n \<Longrightarrow> ids_ok f xs (Suc n)"
  by (auto simp: ids_ok_def less_Suc_eq)

lemma ids_ok_Cons: "ids_ok f xs n \<Longrightarrow> f x = n \<Longrightarrow> ids_ok f (x # xs) (Suc n)"
  by (auto simp: ids_ok_def less_Suc_eq)

lemma ids_ok_snoc: "ids_ok f xs n \<Longrightarrow> f x = n \<Longrightarrow> ids_ok f (xs @ [x]) (Suc n)"
  by (auto simp: ids_ok_def less_Suc_eq)

lemma ids_ok_map: "(\<And>x. f (g x) = f x) \<Longrightarrow> ids_ok f (map g xs) n = ids_ok f xs n"
  by (simp add: ids_ok_def comp_def)

lemma ids_ok_cong: "map f xs = map f ys \<Longrightarrow> ids_ok f xs n = ids_ok f ys n"
  unfolding ids_ok_def by (metis (no_types, opaque_lifting) in_set_conv_nth length_map nth_map)

lemmas ids_ok_intros = ids_ok_filter ids_ok_Suc ids_ok_Cons ids_ok_snoc

lemma find_key: "distinct (map f xs) \<Longrightarrow> x \<in> set xs \<Longrightarrow> find (\<lambda>y. f y = f x) xs = Some x"
  by (induction xs) (auto simp: image_iff)

lemma find_keyD: "find (\<lambda>y. f y = k) xs = Some x \<Longrightarrow> x \<in> set xs \<and> f x = k"
  by (auto simp: find_Some_iff)

lemma find_map_if:
  "(\<And>x. f (g x) = f x) \<Longrightarrow>
   find (\<lambda>y. f y = j) (map (\<lambda>x. if f x = k then g x else x) xs) = map_option (if j = k then g else id) (find (\<lambda>y. f y = j) xs)"
  by (induction xs) auto

text \<open>The references to ports: from tunnel endpoints, mappings, resolved GGSNs and proxies.\<close>

definition opt_ref :: "nat option \<Rightarrow> nat multiset" where
  "opt_ref k = (case k of None \<Rightarrow> {#} | Some k \<Rightarrow> {#k#})"

lemma opt_ref_simps [simp]: "opt_ref None = {#}" "opt_ref (Some k) = {#k#}"
  by (simp_all add: opt_ref_def)

definition tunnel_refs :: "tunnel \<Rightarrow> nat multiset" where
  "tunnel_refs t = (\<Sum>b\<leftarrow>side_planes. opt_ref (te_peer (tn_endpoint t b)))"

definition hub_refs :: "'sa hub \<Rightarrow> nat multiset" where
  "hub_refs h = (\<Sum>t\<leftarrow>hb_tunnels h. tunnel_refs t) + (\<Sum>m\<leftarrow>hb_mappings h. {#mp_origin m#}) +
     (\<Sum>g\<leftarrow>hb_resolved_ggsns h. {#rg_peer g#}) + (\<Sum>b\<leftarrow>side_planes. opt_ref (hb_proxy h b))"

definition ref_of :: "'sa peer_port list \<Rightarrow> nat \<Rightarrow> nat" where
  "ref_of ports k = (case find (\<lambda>pp. pp_id pp = k) ports of None \<Rightarrow> 0 | Some pp \<Rightarrow> unat (pp_ref_count pp))"

definition refs_eq :: "nat multiset \<Rightarrow> 'sa peer_port list \<Rightarrow> bool" where
  "refs_eq R ports \<longleftrightarrow> (\<forall>k. count R k = ref_of ports k)"

definition hub_links :: "'sa hub \<Rightarrow> bool" where
  "hub_links h \<longleftrightarrow> (\<forall>pp\<in>set (hb_ports h). pp_addr pp \<in> pa_id ` set (hb_addrs h)) \<and>
     (\<forall>pa\<in>set (hb_addrs h). pa_peer pa \<in> pr_id ` set (hb_peers h)) \<and>
     (\<forall>m\<in>set (hb_mappings h). mp_map m \<in> pr_id ` set (hb_peers h))"

definition hub_ids :: "'sa hub \<Rightarrow> bool" where
  "hub_ids h \<longleftrightarrow> (let n = hb_next h in
     ids_ok pp_id (hb_ports h) n \<and> ids_ok pa_id (hb_addrs h) n \<and> ids_ok pr_id (hb_peers h) n \<and>
     ids_ok mp_id (hb_mappings h) n \<and> ids_ok tn_id (hb_tunnels h) n \<and> ids_ok pd_id (hb_pending_deletes h) n \<and>
     ids_ok rg_id (hb_resolved_ggsns h) n \<and> ids_ok lk_id (hb_ggsn_lookups h) n)"

definition hub_pools :: "'sa hub \<Rightarrow> bool" where
  "hub_pools h \<longleftrightarrow> pool_ok (hb_tei_pool h) \<and> np_min (hb_tei_pool h) = 1 \<and>
     (\<forall>pr\<in>set (hb_peers h). pool_ok (pr_seq_pool pr) \<and> np_min (pr_seq_pool pr) = 0 \<and> np_max (pr_seq_pool pr) = 0xffff) \<and>
     (\<forall>m\<in>set (hb_mappings h). mp_repl m \<le> 0xffff)"

text \<open>What is linked into the queues is what there is.\<close>

definition quick_objs :: "'sa hub \<Rightarrow> exp_item set" where
  "quick_objs h = It_mapping ` mp_id ` set (hb_mappings h) \<union> It_pending ` pd_id ` set (hb_pending_deletes h) \<union>
     It_lookup ` lk_id ` set (hb_ggsn_lookups h)"

definition slow_objs :: "'sa hub \<Rightarrow> exp_item set" where
  "slow_objs h = It_tunnel ` tn_id ` set (hb_tunnels h) \<union> It_ggsn ` rg_id ` set (hb_resolved_ggsns h)"

definition hub_queues :: "int \<Rightarrow> 'sa hub \<Rightarrow> bool" where
  "hub_queues now h \<longleftrightarrow> expiry_ok now (hb_expire_quickly h) \<and> expiry_ok now (hb_expire_slowly h) \<and>
     fst ` set (ex_items (hb_expire_quickly h)) = quick_objs h \<and> fst ` set (ex_items (hb_expire_slowly h)) = slow_objs h"

definition hub_inv :: "int \<Rightarrow> 'sa hub \<Rightarrow> bool" where
  "hub_inv now h \<longleftrightarrow> refs_eq (hub_refs h) (hb_ports h) \<and> hub_links h \<and> hub_ids h \<and> hub_pools h \<and> hub_queues now h"

subsection \<open>Reference counts\<close>

text \<open>The list of ports with other counts.\<close>

definition same_ports :: "'sa peer_port list \<Rightarrow> 'sa peer_port list \<Rightarrow> bool" where
  "same_ports ps qs \<longleftrightarrow> map (\<lambda>pp. pp\<lparr>pp_ref_count := 0, pp_last_restart_count := 0\<rparr>) ps =
     map (\<lambda>pp. pp\<lparr>pp_ref_count := 0, pp_last_restart_count := 0\<rparr>) qs"

lemma same_ports_refl [simp]: "same_ports ps ps" by (simp add: same_ports_def)

lemma same_ports_sym: "same_ports ps qs \<Longrightarrow> same_ports qs ps" by (simp add: same_ports_def)

lemma same_ports_trans: "same_ports ps qs \<Longrightarrow> same_ports qs rs \<Longrightarrow> same_ports ps rs" by (simp add: same_ports_def)

lemma same_ports_map:
  assumes "same_ports ps qs" and "\<And>pp x y. f (pp\<lparr>pp_ref_count := x, pp_last_restart_count := y\<rparr>) = f pp"
  shows "map f ps = map f qs"
proof -
  have "map f rs = map f (map (\<lambda>pp. pp\<lparr>pp_ref_count := 0, pp_last_restart_count := 0\<rparr>) rs)" for rs
    by (simp add: assms(2))
  with assms(1) show ?thesis unfolding same_ports_def by metis
qed

lemma same_ports_key: "same_ports ps qs \<Longrightarrow> map pp_id ps = map pp_id qs \<and> map pp_addr ps = map pp_addr qs"
  using same_ports_map [of ps qs pp_id] same_ports_map [of ps qs pp_addr] by simp

lemma ids_ok_same: "same_ports ps qs \<Longrightarrow> ids_ok pp_id ps n = ids_ok pp_id qs n"
  using same_ports_key by (intro ids_ok_cong) blast

lemma port_upd_same:
  assumes "\<And>pp. (f pp)\<lparr>pp_ref_count := 0, pp_last_restart_count := 0\<rparr> = pp\<lparr>pp_ref_count := 0, pp_last_restart_count := 0\<rparr>"
  shows "same_ports (hb_ports h) (hb_ports (port_upd k f h))"
  using assms by (simp add: same_ports_def port_upd_def)

lemma ref_of_upd:
  "ref_of (hb_ports (port_upd k (\<lambda>pp. pp\<lparr>pp_ref_count := f (pp_ref_count pp)\<rparr>) h)) j =
   (case find (\<lambda>pp. pp_id pp = j) (hb_ports h) of None \<Rightarrow> 0
    | Some pp \<Rightarrow> unat (if j = k then f (pp_ref_count pp) else pp_ref_count pp))"
  by (simp add: ref_of_def port_upd_def find_map_if split: option.splits)

lemma ref_dec:
  assumes "refs_eq (add_mset k R) (hb_ports h)"
  shows "\<exists>ports. gtphub_port_ref_count_dec k h = Inr (h\<lparr>hb_ports := ports\<rparr>) \<and> refs_eq R ports \<and> same_ports (hb_ports h) ports"
proof -
  have "ref_of (hb_ports h) k = Suc (count R k)" using assms [unfolded refs_eq_def, rule_format, of k] by simp
  then obtain pp where pp: "find (\<lambda>pp. pp_id pp = k) (hb_ports h) = Some pp" "unat (pp_ref_count pp) = Suc (count R k)"
    by (auto simp: ref_of_def split: option.splits)
  let ?f = "\<lambda>pp :: 'a peer_port. pp\<lparr>pp_ref_count := pp_ref_count pp - 1\<rparr>"
  have gt: "pp_ref_count pp \<noteq> 0" "0 < pp_ref_count pp" using pp(2) by (auto simp: word_gt_0)
  have d: "gtphub_port_ref_count_dec k h = Inr (port_upd k ?f h)"
    using pp(1) gt by (simp add: gtphub_port_ref_count_dec_def port_at_def)
  have "refs_eq R (hb_ports (port_upd k ?f h))"
    unfolding refs_eq_def
  proof
    fix j
    have "count (add_mset k R) j = ref_of (hb_ports h) j" using assms by (simp add: refs_eq_def)
    then show "count R j = ref_of (hb_ports (port_upd k ?f h)) j"
      using pp gt unfolding ref_of_upd [where f = "\<lambda>r. r - 1"]
      by (auto simp: ref_of_def unat_minus_one split: option.splits if_splits)
  qed
  with d show ?thesis using port_upd_same [of ?f h k] by (auto simp: port_upd_def)
qed

lemma ref_inc:
  assumes "refs_eq R (hb_ports h)" and "gtphub_port_ref_count_inc k h = Inr h'"
  shows "\<exists>ports. h' = h\<lparr>hb_ports := ports\<rparr> \<and> refs_eq (add_mset k R) ports \<and> same_ports (hb_ports h) ports"
proof -
  let ?f = "\<lambda>pp :: 'a peer_port. pp\<lparr>pp_ref_count := pp_ref_count pp + 1\<rparr>"
  from assms(2) obtain pp where pp: "find (\<lambda>pp. pp_id pp = k) (hb_ports h) = Some pp" "pp_ref_count pp < 0xffffffff"
    and h': "h' = port_upd k ?f h"
    by (auto simp: gtphub_port_ref_count_inc_def port_at_def deref_def split: option.splits if_splits)
  have s: "unat (pp_ref_count pp + 1) = unat (pp_ref_count pp) + 1"
    using pp(2) by (simp add: word_less_nat_alt unat_word_ariths)
  have "refs_eq (add_mset k R) (hb_ports (port_upd k ?f h))"
    unfolding refs_eq_def
  proof
    fix j
    have "count R j = ref_of (hb_ports h) j" using assms(1) by (simp add: refs_eq_def)
    then show "count (add_mset k R) j = ref_of (hb_ports (port_upd k ?f h)) j"
      using pp s unfolding ref_of_upd [where f = "\<lambda>r. r + 1"] by (auto simp: ref_of_def split: option.splits)
  qed
  then show ?thesis unfolding h' using port_upd_same [of ?f h k] by (auto simp: port_upd_def)
qed

lemma ref_dec_opt_ok:
  assumes "refs_eq (opt_ref k + R) (hb_ports h)"
  shows "\<exists>ports. ref_dec_opt k h = Inr (h\<lparr>hb_ports := ports\<rparr>) \<and> refs_eq R ports \<and> same_ports (hb_ports h) ports"
proof (cases k)
  case None
  then show ?thesis using assms by (intro exI [of _ "hb_ports h"]) (simp add: ref_dec_opt_def)
next
  case (Some j)
  then show ?thesis using assms ref_dec [of j R h] by (simp add: ref_dec_opt_def)
qed

lemma ref_inc_opt_ok:
  assumes "refs_eq R (hb_ports h)" and "ref_inc_opt k h = Inr h'"
  shows "\<exists>ports. h' = h\<lparr>hb_ports := ports\<rparr> \<and> refs_eq (opt_ref k + R) ports \<and> same_ports (hb_ports h) ports"
proof (cases k)
  case None
  then show ?thesis using assms by (intro exI [of _ "hb_ports h"]) (simp add: ref_inc_opt_def)
next
  case (Some j)
  then show ?thesis using assms ref_inc [of R h j h'] by (simp add: ref_inc_opt_def)
qed

subsection \<open>Deletion\<close>

lemma sum_filter_key:
  fixes g :: "'a \<Rightarrow> 'b :: comm_monoid_add"
  assumes "distinct (map f xs)" and "x \<in> set xs"
  shows "(\<Sum>y\<leftarrow>xs. g y) = g x + (\<Sum>y\<leftarrow>filter (\<lambda>y. f y \<noteq> f x) xs. g y)"
  using assms
proof (induction xs)
  case (Cons y xs)
  show ?case
  proof (cases "y = x")
    case True
    then have "filter (\<lambda>z. f z \<noteq> f x) xs = xs" using Cons.prems(1) by (intro filter_True) (simp, metis imageI)
    then show ?thesis using True by simp
  next
    case False
    then have "x \<in> set xs" "f y \<noteq> f x" using Cons.prems by (auto simp: image_iff)
    then show ?thesis using Cons by (simp add: add.left_commute)
  qed
qed simp

lemma release_endpoints_ok:
  assumes "refs_eq ((\<Sum>b\<leftarrow>bs. opt_ref (te_peer (tn_endpoint t b))) + R) (hb_ports h)"
  shows "\<exists>ports. release_endpoints bs t h = Inr (h\<lparr>hb_ports := ports\<rparr>) \<and> refs_eq R ports \<and> same_ports (hb_ports h) ports"
  using assms
proof (induction bs arbitrary: h)
  case Nil
  then show ?case by (intro exI [of _ "hb_ports h"]) simp
next
  case (Cons b bs)
  from ref_dec_opt_ok [of "te_peer (tn_endpoint t b)" "(\<Sum>b\<leftarrow>bs. opt_ref (te_peer (tn_endpoint t b))) + R" h] Cons.prems
  obtain ports where p: "ref_dec_opt (te_peer (tn_endpoint t b)) h = Inr (h\<lparr>hb_ports := ports\<rparr>)"
    "refs_eq ((\<Sum>b\<leftarrow>bs. opt_ref (te_peer (tn_endpoint t b))) + R) ports" "same_ports (hb_ports h) ports"
    by (auto simp: add.assoc)
  from Cons.IH [of "h\<lparr>hb_ports := ports\<rparr>"] p show ?case by (auto intro: same_ports_trans)
qed

lemma links_same:
  assumes "same_ports (hb_ports h) ports"
  shows "hub_links (h\<lparr>hb_ports := ports\<rparr>) = hub_links h"
proof -
  have "set (map pp_addr ports) = set (map pp_addr (hb_ports h))" using same_ports_key [OF assms] by metis
  then have "pp_addr ` set ports = pp_addr ` set (hb_ports h)" by simp
  then show ?thesis unfolding hub_links_def by (auto, metis imageE imageI, metis imageE imageI)
qed

lemma inv_same:
  assumes "same_ports (hb_ports h) ports"
  shows "hub_inv now (h\<lparr>hb_ports := ports\<rparr>) \<longleftrightarrow>
    refs_eq (hub_refs h) ports \<and> hub_links h \<and> hub_ids h \<and> hub_pools h \<and> hub_queues now h"
  using links_same [OF assms] ids_ok_same [OF assms]
  by (simp add: hub_inv_def hub_refs_def hub_ids_def hub_pools_def hub_queues_def quick_objs_def slow_objs_def)

lemma unlink_set: "fst ` set (ex_items (expiry_unlink i q)) = fst ` set (ex_items q) - {i}"
  by (auto simp: expiry_unlink_def)

lemma unlink_items: "ex_items (expiry_unlink i q) = filter (\<lambda>x. fst x \<noteq> i) (ex_items q)"
  by (simp add: expiry_unlink_def)

text \<open>A state from which an object and its item have gone, and references with it.\<close>

lemma hub_inv_D:
  assumes "hub_inv now h"
  shows "refs_eq (hub_refs h) (hb_ports h)" "hub_links h" "hub_ids h" "hub_pools h" "hub_queues now h"
  using assms by (simp_all add: hub_inv_def)

lemma del_tunnel:
  assumes inv: "hub_inv now h" and k: "k \<in> tn_id ` set (hb_tunnels h)"
  shows "\<exists>ports. expiring_item_del (It_tunnel k) h =
      Inr ((hub_unlink (It_tunnel k) h)\<lparr>hb_tunnels := filter (\<lambda>t. tn_id t \<noteq> k) (hb_tunnels h), hb_ports := ports\<rparr>) \<and>
    same_ports (hb_ports h) ports \<and>
    hub_inv now ((hub_unlink (It_tunnel k) h)\<lparr>hb_tunnels := filter (\<lambda>t. tn_id t \<noteq> k) (hb_tunnels h), hb_ports := ports\<rparr>)"
proof -
  note i = hub_inv_D [OF inv]
  obtain t where t: "t \<in> set (hb_tunnels h)" "tn_id t = k" using k by auto
  have d: "distinct (map tn_id (hb_tunnels h))" using i(3) by (simp add: hub_ids_def Let_def ids_ok_def)
  have f: "find (\<lambda>t. tn_id t = k) (hb_tunnels h) = Some t" using find_key [OF d t(1)] t(2) by simp
  let ?h = "(hub_unlink (It_tunnel k) h)\<lparr>hb_tunnels := filter (\<lambda>t. tn_id t \<noteq> k) (hb_tunnels h)\<rparr>"
  have refs: "hub_refs h = tunnel_refs t + hub_refs ?h"
    using sum_filter_key [OF d t(1), of tunnel_refs] t(2) by (simp add: hub_refs_def hub_unlink_def expires_slowly_def add.assoc)
  then have "refs_eq ((\<Sum>b\<leftarrow>side_planes. opt_ref (te_peer (tn_endpoint t b))) + hub_refs ?h) (hb_ports ?h)"
    using i(1) by (simp add: tunnel_refs_def hub_unlink_def expires_slowly_def)
  from release_endpoints_ok [OF this] obtain ports where
    p: "release_endpoints side_planes t ?h = Inr (?h\<lparr>hb_ports := ports\<rparr>)" "refs_eq (hub_refs ?h) ports" "same_ports (hb_ports ?h) ports"
    by blast
  have "expiring_item_del (It_tunnel k) h = Inr (?h\<lparr>hb_ports := ports\<rparr>)"
    using p(1) f by (simp add: expiring_item_del_def gtphub_tunnel_del_cb_def tunnel_at_def hub_unlink_def expires_slowly_def)
  moreover have "hub_inv now (?h\<lparr>hb_ports := ports\<rparr>)"
    unfolding inv_same [OF p(3)]
    using i(2-5) p(2)
    by (auto simp: hub_links_def hub_ids_def hub_pools_def hub_queues_def hub_unlink_def expires_slowly_def Let_def unlink_set
        quick_objs_def slow_objs_def intro: ids_ok_filter)
  ultimately show ?thesis using p(3) by (auto simp: hub_unlink_def expires_slowly_def)
qed

lemma del_mapping:
  assumes inv: "hub_inv now h" and k: "k \<in> mp_id ` set (hb_mappings h)"
  shows "\<exists>ports. expiring_item_del (It_mapping k) h =
      Inr ((hub_unlink (It_mapping k) h)\<lparr>hb_mappings := filter (\<lambda>m. mp_id m \<noteq> k) (hb_mappings h), hb_ports := ports\<rparr>) \<and>
    hub_inv now ((hub_unlink (It_mapping k) h)\<lparr>hb_mappings := filter (\<lambda>m. mp_id m \<noteq> k) (hb_mappings h), hb_ports := ports\<rparr>)"
proof -
  note i = hub_inv_D [OF inv]
  obtain m where m: "m \<in> set (hb_mappings h)" "mp_id m = k" using k by auto
  have d: "distinct (map mp_id (hb_mappings h))" using i(3) by (simp add: hub_ids_def Let_def ids_ok_def)
  have f: "find (\<lambda>m. mp_id m = k) (hb_mappings h) = Some m" using find_key [OF d m(1)] m(2) by simp
  let ?h = "(hub_unlink (It_mapping k) h)\<lparr>hb_mappings := filter (\<lambda>m. mp_id m \<noteq> k) (hb_mappings h)\<rparr>"
  have refs: "hub_refs h = add_mset (mp_origin m) (hub_refs ?h)"
    using sum_filter_key [OF d m(1), of "\<lambda>m. {#mp_origin m#}"] m(2) by (simp add: hub_refs_def hub_unlink_def expires_slowly_def)
  then have "refs_eq (add_mset (mp_origin m) (hub_refs ?h)) (hb_ports ?h)"
    using i(1) by (simp add: hub_unlink_def expires_slowly_def)
  from ref_dec [OF this] obtain ports where
    p: "gtphub_port_ref_count_dec (mp_origin m) ?h = Inr (?h\<lparr>hb_ports := ports\<rparr>)" "refs_eq (hub_refs ?h) ports" "same_ports (hb_ports ?h) ports"
    by blast
  have "expiring_item_del (It_mapping k) h = Inr (?h\<lparr>hb_ports := ports\<rparr>)"
    using p(1) f by (simp add: expiring_item_del_def gtphub_mapping_del_cb_def hub_unlink_def expires_slowly_def)
  moreover have "hub_inv now (?h\<lparr>hb_ports := ports\<rparr>)"
    unfolding inv_same [OF p(3)]
    using i(2-5) p(2)
    by (auto simp: hub_links_def hub_ids_def hub_pools_def hub_queues_def hub_unlink_def expires_slowly_def Let_def unlink_set
        quick_objs_def slow_objs_def intro: ids_ok_filter)
  ultimately show ?thesis by blast
qed

lemma del_ggsn:
  assumes inv: "hub_inv now h" and k: "k \<in> rg_id ` set (hb_resolved_ggsns h)"
  shows "\<exists>ports. expiring_item_del (It_ggsn k) h =
      Inr ((hub_unlink (It_ggsn k) h)\<lparr>hb_resolved_ggsns := filter (\<lambda>g. rg_id g \<noteq> k) (hb_resolved_ggsns h), hb_ports := ports\<rparr>) \<and>
    hub_inv now ((hub_unlink (It_ggsn k) h)\<lparr>hb_resolved_ggsns := filter (\<lambda>g. rg_id g \<noteq> k) (hb_resolved_ggsns h), hb_ports := ports\<rparr>)"
proof -
  note i = hub_inv_D [OF inv]
  obtain g where g: "g \<in> set (hb_resolved_ggsns h)" "rg_id g = k" using k by auto
  have d: "distinct (map rg_id (hb_resolved_ggsns h))" using i(3) by (simp add: hub_ids_def Let_def ids_ok_def)
  have f: "find (\<lambda>g. rg_id g = k) (hb_resolved_ggsns h) = Some g" using find_key [OF d g(1)] g(2) by simp
  let ?u = "hub_unlink (It_ggsn k) h"
  let ?h = "?u\<lparr>hb_resolved_ggsns := filter (\<lambda>g. rg_id g \<noteq> k) (hb_resolved_ggsns h)\<rparr>"
  have refs: "hub_refs h = add_mset (rg_peer g) (hub_refs ?h)"
    using sum_filter_key [OF d g(1), of "\<lambda>g. {#rg_peer g#}"] g(2) by (simp add: hub_refs_def hub_unlink_def expires_slowly_def)
  then have "refs_eq (add_mset (rg_peer g) (hub_refs ?h)) (hb_ports ?u)"
    using i(1) by (simp add: hub_unlink_def expires_slowly_def)
  from ref_dec [OF this] obtain ports where
    p: "gtphub_port_ref_count_dec (rg_peer g) ?u = Inr (?u\<lparr>hb_ports := ports\<rparr>)" "refs_eq (hub_refs ?h) ports" "same_ports (hb_ports ?u) ports"
    by blast
  have s: "same_ports (hb_ports ?h) ports" using p(3) by simp
  have "expiring_item_del (It_ggsn k) h = Inr (?h\<lparr>hb_ports := ports\<rparr>)"
    using p(1) f by (simp add: expiring_item_del_def resolved_gssn_del_cb_def hub_unlink_def expires_slowly_def)
  moreover have "hub_inv now (?h\<lparr>hb_ports := ports\<rparr>)"
    unfolding inv_same [OF s]
    using i(2-5) p(2)
    by (auto simp: hub_links_def hub_ids_def hub_pools_def hub_queues_def hub_unlink_def expires_slowly_def Let_def unlink_set
        quick_objs_def slow_objs_def intro: ids_ok_filter)
  ultimately show ?thesis by blast
qed

lemma find_in: "k \<in> f ` set xs \<Longrightarrow> \<exists>x. find (\<lambda>x. f x = k) xs = Some x"
  by (induction xs) auto

lemma del_pending:
  assumes inv: "hub_inv now h" and k: "k \<in> pd_id ` set (hb_pending_deletes h)"
  shows "expiring_item_del (It_pending k) h =
      Inr ((hub_unlink (It_pending k) h)\<lparr>hb_pending_deletes := filter (\<lambda>pd. pd_id pd \<noteq> k) (hb_pending_deletes h)\<rparr>) \<and>
    hub_inv now ((hub_unlink (It_pending k) h)\<lparr>hb_pending_deletes := filter (\<lambda>pd. pd_id pd \<noteq> k) (hb_pending_deletes h)\<rparr>)"
  using find_in [OF k] hub_inv_D [OF inv] unfolding hub_inv_def
  by (auto simp: expiring_item_del_def pending_delete_del_cb_def hub_refs_def hub_links_def hub_ids_def hub_pools_def hub_queues_def
      hub_unlink_def expires_slowly_def Let_def unlink_set quick_objs_def slow_objs_def intro: ids_ok_filter)

lemma del_lookup:
  assumes inv: "hub_inv now h" and k: "k \<in> lk_id ` set (hb_ggsn_lookups h)"
  shows "expiring_item_del (It_lookup k) h =
      Inr ((hub_unlink (It_lookup k) h)\<lparr>hb_ggsn_lookups := filter (\<lambda>lk. lk_id lk \<noteq> k) (hb_ggsn_lookups h)\<rparr>) \<and>
    hub_inv now ((hub_unlink (It_lookup k) h)\<lparr>hb_ggsn_lookups := filter (\<lambda>lk. lk_id lk \<noteq> k) (hb_ggsn_lookups h)\<rparr>)"
  using find_in [OF k] hub_inv_D [OF inv] unfolding hub_inv_def
  by (auto simp: expiring_item_del_def ggsn_lookup_del_cb_def hub_refs_def hub_links_def hub_ids_def hub_pools_def hub_queues_def
      hub_unlink_def expires_slowly_def Let_def unlink_set quick_objs_def slow_objs_def intro: ids_ok_filter)

lemma del_item_quick:
  assumes inv: "hub_inv now h" and i: "i \<in> fst ` set (ex_items (hb_expire_quickly h))"
  shows "\<exists>h'. expiring_item_del i h = Inr h' \<and> hub_inv now h' \<and>
    ex_items (hb_expire_quickly h') = filter (\<lambda>x. fst x \<noteq> i) (ex_items (hb_expire_quickly h)) \<and>
    hb_expire_slowly h' = hb_expire_slowly h"
proof -
  have "i \<in> quick_objs h" using i hub_inv_D(5) [OF inv] by (simp add: hub_queues_def)
  then show ?thesis unfolding quick_objs_def
  proof (elim UnE imageE, goal_cases)
    case (1 k m) then show ?case using del_mapping [OF inv, of k] by (force simp: hub_unlink_def expires_slowly_def unlink_items)
  next
    case (2 k pd) then show ?case using del_pending [OF inv, of k] by (force simp: hub_unlink_def expires_slowly_def unlink_items)
  next
    case (3 k lk) then show ?case using del_lookup [OF inv, of k] by (force simp: hub_unlink_def expires_slowly_def unlink_items)
  qed
qed

lemma del_item_slow:
  assumes inv: "hub_inv now h" and i: "i \<in> fst ` set (ex_items (hb_expire_slowly h))"
  shows "\<exists>h'. expiring_item_del i h = Inr h' \<and> hub_inv now h' \<and>
    ex_items (hb_expire_slowly h') = filter (\<lambda>x. fst x \<noteq> i) (ex_items (hb_expire_slowly h)) \<and>
    hb_expire_quickly h' = hb_expire_quickly h"
proof -
  have "i \<in> slow_objs h" using i hub_inv_D(5) [OF inv] by (simp add: hub_queues_def)
  then show ?thesis unfolding slow_objs_def
  proof (elim UnE imageE, goal_cases)
    case (1 k t) then show ?case using del_tunnel [OF inv, of k] by (force simp: hub_unlink_def expires_slowly_def unlink_items)
  next
    case (2 k g) then show ?case using del_ggsn [OF inv, of k] by (force simp: hub_unlink_def expires_slowly_def unlink_items)
  qed
qed

lemma hub_inv_sorted:
  assumes "hub_inv now h"
  shows "distinct (map fst (ex_items (hb_expire_quickly h))) \<and> sorted (map snd (ex_items (hb_expire_quickly h)))"
    "distinct (map fst (ex_items (hb_expire_slowly h))) \<and> sorted (map snd (ex_items (hb_expire_slowly h)))"
  using hub_inv_D(5) [OF assms] by (simp_all add: hub_queues_def expiry_ok_def)

interpretation quickly: expiring "\<lambda>h. ex_items (hb_expire_quickly h)" expiring_item_del
  "\<lambda>h. hub_inv now h \<and> hb_expire_slowly h = slow" for now slow
proof (unfold_locales, goal_cases)
  case (1 h) then show ?case using hub_inv_sorted(1) by blast
next
  case (2 h i) then show ?case using del_item_quick [of now h i] by auto
qed

interpretation slowly: expiring "\<lambda>h. ex_items (hb_expire_slowly h)" expiring_item_del
  "\<lambda>h. hub_inv now h \<and> hb_expire_quickly h = quick" for now quick
proof (unfold_locales, goal_cases)
  case (1 h) then show ?case using hub_inv_sorted(2) by blast
next
  case (2 h i) then show ?case using del_item_slow [of now h i] by auto
qed

subsection \<open>Garbage collection\<close>

lemma hub_queues_later: "hub_queues now h \<Longrightarrow> now \<le> now' \<Longrightarrow> hub_queues now' h"
  by (auto simp: hub_queues_def intro: expiry_ok_later)

lemma hub_inv_later: "hub_inv now h \<Longrightarrow> now \<le> now' \<Longrightarrow> hub_inv now' h"
  by (auto simp: hub_inv_def intro: hub_queues_later)

lemma ref_of_filter:
  assumes "\<forall>pp\<in>set ports. \<not> P pp \<longrightarrow> pp_ref_count pp = 0" and "distinct (map pp_id ports)"
  shows "ref_of (filter P ports) k = ref_of ports k"
  using assms
proof (induction ports)
  case (Cons pp ports)
  then have IH: "ref_of (filter P ports) k = ref_of ports k" by simp
  show ?case
  proof (cases "pp_id pp = k")
    case True
    then have "find (\<lambda>pp. pp_id pp = k) (filter P ports) = None" using Cons.prems(2) by (auto simp: find_None_iff image_iff)
    then show ?thesis using Cons.prems(1) True by (auto simp: ref_of_def)
  next
    case False
    then show ?thesis using IH by (auto simp: ref_of_def)
  qed
qed simp

lemma inv_gc_ports:
  assumes "hub_inv now h" and "\<forall>pp\<in>set (hb_ports h). \<not> P pp \<longrightarrow> pp_ref_count pp = 0"
  shows "hub_inv now (h\<lparr>hb_ports := filter P (hb_ports h)\<rparr>)"
proof -
  have "distinct (map pp_id (hb_ports h))" using hub_inv_D(3) [OF assms(1)] by (simp add: hub_ids_def Let_def ids_ok_def)
  from ref_of_filter [OF assms(2) this] show ?thesis
    using hub_inv_D [OF assms(1)] unfolding hub_inv_def
    by (auto simp: refs_eq_def hub_refs_def hub_links_def hub_ids_def hub_pools_def hub_queues_def quick_objs_def slow_objs_def Let_def
        intro: ids_ok_filter)
qed

lemma inv_gc_addr:
  assumes "hub_inv now h" and "\<forall>pp\<in>set (hb_ports h). pp_addr pp \<noteq> a"
  shows "hub_inv now (h\<lparr>hb_addrs := filter (\<lambda>pa. pa_id pa \<noteq> a) (hb_addrs h)\<rparr>)"
  using hub_inv_D [OF assms(1)] assms(2) unfolding hub_inv_def
  by (fastforce simp: hub_refs_def hub_links_def hub_ids_def hub_pools_def hub_queues_def quick_objs_def slow_objs_def Let_def
      intro: ids_ok_filter)

lemma inv_gc_peer:
  assumes "hub_inv now h" and "\<forall>pa\<in>set (hb_addrs h). pa_peer pa \<noteq> k" and "\<forall>m\<in>set (hb_mappings h). mp_map m \<noteq> k"
  shows "hub_inv now (h\<lparr>hb_peers := filter (\<lambda>pr. pr_id pr \<noteq> k) (hb_peers h)\<rparr>)"
  using hub_inv_D [OF assms(1)] assms(2,3) unfolding hub_inv_def
  by (fastforce simp: hub_refs_def hub_links_def hub_ids_def hub_pools_def hub_queues_def quick_objs_def slow_objs_def Let_def
      intro: ids_ok_filter)

text \<open>Collection changes neither the queues nor what is in them.\<close>

definition gc_frame :: "'sa hub \<Rightarrow> 'sa hub \<Rightarrow> bool" where
  "gc_frame h h' \<longleftrightarrow> hb_expire_quickly h' = hb_expire_quickly h \<and> hb_expire_slowly h' = hb_expire_slowly h \<and>
     hb_mappings h' = hb_mappings h \<and> hb_tunnels h' = hb_tunnels h"

lemma gc_frame_refl [simp]: "gc_frame h h" by (simp add: gc_frame_def)

lemma gc_frame_trans: "gc_frame h h' \<Longrightarrow> gc_frame h' h'' \<Longrightarrow> gc_frame h h''" by (simp add: gc_frame_def)

lemma gc_addr_ok:
  assumes "hub_inv now h" and "gtphub_gc_peer_addr a h = (unused, h1)"
  shows "hub_inv now (if unused then h1\<lparr>hb_addrs := filter (\<lambda>pa. pa_id pa \<noteq> a) (hb_addrs h1)\<rparr> else h1) \<and>
    gc_frame h (if unused then h1\<lparr>hb_addrs := filter (\<lambda>pa. pa_id pa \<noteq> a) (hb_addrs h1)\<rparr> else h1)"
proof -
  let ?P = "\<lambda>pp. \<not> (pp_addr pp = a \<and> pp_ref_count pp = 0)"
  have e: "unused = fst (gtphub_gc_peer_addr a h)" "h1 = snd (gtphub_gc_peer_addr a h)" using assms(2) by simp_all
  have h1: "h1 = h\<lparr>hb_ports := filter ?P (hb_ports h)\<rparr>" unfolding e(2) by (simp add: gtphub_gc_peer_addr_def Let_def)
  have u: "unused = (\<forall>pp\<in>set (hb_ports h1). pp_addr pp \<noteq> a)" unfolding e by (simp add: gtphub_gc_peer_addr_def Let_def)
  have i: "hub_inv now h1" unfolding h1 using assms(1) by (rule inv_gc_ports) auto
  have f: "gc_frame h h1" by (simp add: gc_frame_def h1)
  show ?thesis
  proof (cases unused)
    case True
    then have "hub_inv now (h1\<lparr>hb_addrs := filter (\<lambda>pa. pa_id pa \<noteq> a) (hb_addrs h1)\<rparr>)" using u by (intro inv_gc_addr [OF i]) blast
    then show ?thesis using True f by (simp add: gc_frame_def)
  qed (use i f in simp)
qed

lemma gc_addrs_ok: "hub_inv now h \<Longrightarrow> hub_inv now (gc_addrs as h) \<and> gc_frame h (gc_addrs as h)"
proof (induction as arbitrary: h)
  case (Cons a as)
  obtain unused h1 where g: "gtphub_gc_peer_addr a h = (unused, h1)" by fastforce
  note i = gc_addr_ok [OF Cons.prems g]
  from Cons.IH [OF conjunct1 [OF i]] i show ?case by (auto simp: g intro: gc_frame_trans)
qed simp

lemma gc_peer_ok:
  assumes "hub_inv now h" and "gtphub_gc_peer k h = (unused, h1)"
  shows "hub_inv now (if unused then h1\<lparr>hb_peers := filter (\<lambda>pr. pr_id pr \<noteq> k) (hb_peers h1)\<rparr> else h1) \<and>
    gc_frame h (if unused then h1\<lparr>hb_peers := filter (\<lambda>pr. pr_id pr \<noteq> k) (hb_peers h1)\<rparr> else h1)"
proof -
  have e: "unused = fst (gtphub_gc_peer k h)" "h1 = snd (gtphub_gc_peer k h)" using assms(2) by simp_all
  have u: "unused = ((\<forall>pa\<in>set (hb_addrs h1). pa_peer pa \<noteq> k) \<and> (\<forall>m\<in>set (hb_mappings h1). mp_map m \<noteq> k))"
    unfolding e by (simp add: gtphub_gc_peer_def Let_def)
  have i: "hub_inv now h1" "gc_frame h h1"
    using gc_addrs_ok [OF assms(1)] unfolding e by (simp_all add: gtphub_gc_peer_def Let_def)
  show ?thesis
  proof (cases unused)
    case True
    then have "hub_inv now (h1\<lparr>hb_peers := filter (\<lambda>pr. pr_id pr \<noteq> k) (hb_peers h1)\<rparr>)" using u by (intro inv_gc_peer [OF i(1)]) blast+
    then show ?thesis using True i(2) by (simp add: gc_frame_def)
  qed (use i in simp)
qed

lemma gc_peers_ok: "hub_inv now h \<Longrightarrow> hub_inv now (gc_peers ks h) \<and> gc_frame h (gc_peers ks h)"
proof (induction ks arbitrary: h)
  case (Cons k ks)
  obtain unused h1 where g: "gtphub_gc_peer k h = (unused, h1)" by fastforce
  note i = gc_peer_ok [OF Cons.prems g]
  from Cons.IH [OF conjunct1 [OF i]] i show ?case by (auto simp: g intro: gc_frame_trans)
qed simp

lemma gc_binds_ok: "hub_inv now h \<Longrightarrow> hub_inv now (fold gtphub_gc_bind bs h) \<and> gc_frame h (fold gtphub_gc_bind bs h)"
proof (induction bs arbitrary: h)
  case (Cons b bs)
  have "hub_inv now (gtphub_gc_bind b h)" "gc_frame h (gtphub_gc_bind b h)"
    using gc_peers_ok [OF Cons.prems] by (simp_all add: gtphub_gc_bind_def)
  with Cons.IH [of "gtphub_gc_bind b h"] show ?case by (auto intro: gc_frame_trans)
qed simp

lemma tick_quickly_ok:
  assumes "hub_inv now h"
  shows "\<exists>n h'. expiry_tick_quickly clk h = Inr (n, h') \<and> hub_inv now h' \<and> hb_expire_slowly h' = hb_expire_slowly h \<and>
    ex_items (hb_expire_quickly h') = filter (\<lambda>x. clk < snd x) (ex_items (hb_expire_quickly h))"
  using quickly.tick_items [of now h "hb_expire_slowly h" _ clk] assms unfolding expiry_tick_quickly_def by blast

lemma tick_slowly_ok:
  assumes "hub_inv now h"
  shows "\<exists>n h'. expiry_tick_slowly clk h = Inr (n, h') \<and> hub_inv now h' \<and> hb_expire_quickly h' = hb_expire_quickly h \<and>
    ex_items (hb_expire_slowly h') = filter (\<lambda>x. clk < snd x) (ex_items (hb_expire_slowly h))"
  using slowly.tick_items [of now h "hb_expire_quickly h" _ clk] assms unfolding expiry_tick_slowly_def by blast

lemma gc_ok:
  assumes "hub_inv now h"
  shows "\<exists>h'. gtphub_gc clk h = Inr h' \<and> hub_inv now h' \<and>
    ex_items (hb_expire_quickly h') = filter (\<lambda>x. clk < snd x) (ex_items (hb_expire_quickly h)) \<and>
    ex_items (hb_expire_slowly h') = filter (\<lambda>x. clk < snd x) (ex_items (hb_expire_slowly h))"
proof -
  obtain n h1 where 1: "expiry_tick_quickly clk h = Inr (n, h1)" "hub_inv now h1" "hb_expire_slowly h1 = hb_expire_slowly h"
    "ex_items (hb_expire_quickly h1) = filter (\<lambda>x. clk < snd x) (ex_items (hb_expire_quickly h))"
    using tick_quickly_ok [OF assms] by blast
  obtain m h2 where 2: "expiry_tick_slowly clk h1 = Inr (m, h2)" "hub_inv now h2" "hb_expire_quickly h2 = hb_expire_quickly h1"
    "ex_items (hb_expire_slowly h2) = filter (\<lambda>x. clk < snd x) (ex_items (hb_expire_slowly h1))"
    using tick_slowly_ok [OF 1(2)] by blast
  show ?thesis using 1 2 gc_binds_ok [OF 2(2), of side_planes] by (auto simp: gtphub_gc_def gc_frame_def)
qed

subsection \<open>Operations on the objects\<close>

lemma ensures_bind: "ensures m P \<Longrightarrow> (\<And>x. P x \<Longrightarrow> ensures (f x) Q) \<Longrightarrow> ensures (ebind m f) Q"
  by (cases m) auto

lemma ensures_case_prod: "(\<And>a b. x = (a, b) \<Longrightarrow> ensures (f a b) Q) \<Longrightarrow> ensures (case x of (a, b) \<Rightarrow> f a b) Q"
  by (cases x) simp

lemma image_map_if:
  assumes "\<And>x. f (u x) = f x"
  shows "f ` set (map (\<lambda>x. if P x then u x else x) xs) = f ` set xs"
  unfolding set_map image_image using assms by (intro image_cong) simp_all

lemma inv_ctr [simp]: "hub_inv now (rate_ctr_add g c n h) = hub_inv now h"
  by (simp add: rate_ctr_add_def hub_inv_def hub_refs_def hub_links_def hub_ids_def hub_pools_def hub_queues_def quick_objs_def slow_objs_def)

lemma hub_inv_emit [simp]: "hub_inv now (hub_emit ev h) = hub_inv now h"
  by (simp add: hub_emit_def hub_inv_def hub_refs_def hub_links_def hub_ids_def hub_pools_def hub_queues_def quick_objs_def slow_objs_def)

lemma ref_of_fresh: "ids_ok pp_id ports n \<Longrightarrow> ref_of ports n = 0"
  by (auto simp: ref_of_def ids_ok_def find_Some_iff split: option.splits)

lemma inv_new_peer:
  assumes "hub_inv now h"
  shows "hub_inv now (h\<lparr>hb_peers := \<lparr>pr_id = hb_next h, pr_bind = b, pr_seq_pool = (nr_pool_init 0 0xffff)\<lparr>np_last := 0x6d31 - 1\<rparr>\<rparr> # hb_peers h,
    hb_next := Suc (hb_next h)\<rparr>)"
  using hub_inv_D [OF assms] unfolding hub_inv_def
  by (auto simp: hub_refs_def hub_links_def hub_ids_def hub_pools_def hub_queues_def quick_objs_def slow_objs_def Let_def
      nr_pool_init_def pool_ok_def intro: ids_ok_intros)

lemma inv_new_addr:
  assumes "hub_inv now h" and "k \<in> pr_id ` set (hb_peers h)"
  shows "hub_inv now (h\<lparr>hb_addrs := \<lparr>pa_id = hb_next h, pa_peer = k, pa_addr = addr\<rparr> # hb_addrs h, hb_next := Suc (hb_next h)\<rparr>)"
  using hub_inv_D [OF assms(1)] assms(2) unfolding hub_inv_def
  by (auto simp: hub_refs_def hub_links_def hub_ids_def hub_pools_def hub_queues_def quick_objs_def slow_objs_def Let_def
      intro: ids_ok_intros)

lemma inv_new_port:
  assumes "hub_inv now h" and "a \<in> pa_id ` set (hb_addrs h)" and "pp_id pp = hb_next h" "pp_addr pp = a" "pp_ref_count pp = 0"
  shows "hub_inv now (h\<lparr>hb_ports := pp # hb_ports h, hb_next := Suc (hb_next h)\<rparr>)"
proof -
  note i = hub_inv_D [OF assms(1)]
  have "ref_of (hb_ports h) (hb_next h) = 0" using i(3) by (intro ref_of_fresh) (simp add: hub_ids_def Let_def)
  then have "ref_of (pp # hb_ports h) k = ref_of (hb_ports h) k" for k
    using assms(3,5) by (cases "k = hb_next h") (auto simp: ref_of_def)
  then have "refs_eq (hub_refs h) (pp # hb_ports h)" using i(1) by (simp add: refs_eq_def)
  then show ?thesis
    using i(2-5) assms(2-5) unfolding hub_inv_def
    by (auto simp: hub_refs_def hub_links_def hub_ids_def hub_pools_def hub_queues_def quick_objs_def slow_objs_def Let_def
        intro: ids_ok_intros)
qed

lemma addr_at_in: "addr_at h a = Inr pa \<Longrightarrow> a \<in> pa_id ` set (hb_addrs h)"
  by (auto simp: addr_at_def deref_def find_Some_iff image_iff split: option.splits)

lemma inv_add_port:
  "hub_inv now h \<Longrightarrow> ensures (gtphub_addr_add_port e a port h) (\<lambda>(pp, h'). hub_inv now h')"
  unfolding gtphub_addr_add_port_def ensures_def
  by (auto simp: ebind_Inr_iff Let_def dest!: addr_at_in split: option.splits intro!: inv_new_port)

lemma inv_addr_have_port:
  "hub_inv now h \<Longrightarrow> ensures (addr_have_port e a port h) (\<lambda>(pp, h'). hub_inv now h')"
  using inv_add_port [of now h e a port]
  by (auto simp: addr_have_port_def gtphub_addr_find_port_def split: option.splits)

lemma inv_addr_have:
  assumes "hub_inv now h"
  shows "hub_inv now (snd (gtphub_addr_have b addr h))"
proof (cases "gtphub_addr_find h b addr")
  case None
  let ?h = "snd (gtphub_peer_new b h)" and ?k = "fst (gtphub_peer_new b h)"
  have "hub_inv now ?h" using inv_new_peer [OF assms] by (simp add: gtphub_peer_new_def Let_def)
  moreover have "?k \<in> pr_id ` set (hb_peers ?h)" by (simp add: gtphub_peer_new_def Let_def)
  ultimately have "hub_inv now (snd (gtphub_peer_add_addr ?k addr ?h))"
    using inv_new_addr [of now ?h ?k addr] by (simp add: gtphub_peer_add_addr_def Let_def)
  then show ?thesis using None by (simp add: gtphub_addr_have_def split_beta)
qed (use assms in \<open>simp add: gtphub_addr_have_def\<close>)

lemma inv_port_have:
  "hub_inv now h \<Longrightarrow> ensures (gtphub_port_have e b addr port h) (\<lambda>(pp, h'). hub_inv now h')"
  using inv_addr_have_port [OF inv_addr_have] by (simp add: gtphub_port_have_def split_beta)

lemma inv_known_addr:
  "hub_inv now h \<Longrightarrow> ensures (gtphub_known_addr_have_port e b sa h) (\<lambda>(pp, h'). hub_inv now h')"
  using inv_addr_have_port [of now h e]
  by (auto simp: gtphub_known_addr_have_port_def split: option.splits)

text \<open>Pools and tunnels.\<close>

lemma inv_peer_pool:
  assumes "hub_inv now h" and "peer_at h k = Inr pr" and "nr_pool_next (pr_seq_pool pr) = (n, pool)"
  shows "hub_inv now (peer_upd k (\<lambda>pr. pr\<lparr>pr_seq_pool := pool\<rparr>) h)"
proof -
  note i = hub_inv_D [OF assms(1)]
  have "pr \<in> set (hb_peers h)" using assms(2) by (auto simp: peer_at_def deref_def find_Some_iff split: option.splits)
  then have p: "pool_ok (pr_seq_pool pr)" "np_min (pr_seq_pool pr) = 0" "np_max (pr_seq_pool pr) = 0xffff"
    using i(4) by (auto simp: hub_pools_def)
  have q: "pool_ok pool" "np_min pool = 0" "np_max pool = 0xffff"
    using pool_next_pos(1,4,5) [OF p(1)] p(2,3) assms(3) by simp_all
  have ids: "pr_id ` set (map (\<lambda>pr. if pr_id pr = k then pr\<lparr>pr_seq_pool := pool\<rparr> else pr) (hb_peers h)) = pr_id ` set (hb_peers h)"
    by (rule image_map_if) simp
  show ?thesis
    using i q unfolding hub_inv_def
    by (auto simp: peer_upd_def hub_refs_def hub_links_def hub_ids_def hub_pools_def hub_queues_def quick_objs_def slow_objs_def Let_def
        ids_ok_map ids [simplified])
qed

lemma sum_upd_key:
  fixes g :: "'a \<Rightarrow> 'b :: comm_monoid_add"
  assumes "distinct (map f xs)" and "x \<in> set xs" and "\<And>y. f (u y) = f y"
  shows "(\<Sum>y\<leftarrow>map (\<lambda>y. if f y = f x then u y else y) xs. g y) = g (u x) + (\<Sum>y\<leftarrow>filter (\<lambda>y. f y \<noteq> f x) xs. g y)"
  using assms(1,2)
proof (induction xs)
  case (Cons y xs)
  show ?case
  proof (cases "f y = f x")
    case True
    then have "y = x" "f x \<notin> f ` set xs" using Cons.prems by (auto simp: image_iff)
    moreover from this(2) have "\<forall>z\<in>set xs. f z \<noteq> f x" by (metis imageI)
    then have "map (\<lambda>y. if f y = f x then u y else y) xs = xs" "filter (\<lambda>y. f y \<noteq> f x) xs = xs"
      by (auto intro!: map_idI filter_True)
    ultimately show ?thesis by simp
  next
    case False
    then have "x \<in> set xs" using Cons.prems by auto
    then show ?thesis using Cons False by (simp add: add.left_commute comp_def)
  qed
qed simp

lemma tunnel_upd_ids [simp]:
  assumes "\<And>t. tn_id (u t) = tn_id t"
  shows "tn_id ` set (hb_tunnels (tunnel_upd k u h)) = tn_id ` set (hb_tunnels h)"
  using image_map_if [of tn_id u "\<lambda>t. tn_id t = k" "hb_tunnels h"] assms by (simp add: tunnel_upd_def del: set_map)

lemma inv_tunnel_upd:
  assumes "hub_inv now h" and "\<And>t. tn_id (u t) = tn_id t" and "\<And>t. tunnel_refs (u t) = tunnel_refs t"
  shows "hub_inv now (tunnel_upd k u h)"
proof -
  have "map (\<lambda>t. tunnel_refs (if tn_id t = k then u t else t)) (hb_tunnels h) = map tunnel_refs (hb_tunnels h)"
    using assms(3) by simp
  then have "(\<Sum>t\<leftarrow>hb_tunnels h. tunnel_refs (if tn_id t = k then u t else t)) = (\<Sum>t\<leftarrow>hb_tunnels h. tunnel_refs t)" by (rule arg_cong)
  then show ?thesis
    using hub_inv_D [OF assms(1)] tunnel_upd_ids [of u k h] assms(2) unfolding hub_inv_def
    by (simp add: tunnel_upd_def hub_refs_def hub_links_def hub_ids_def hub_pools_def hub_queues_def quick_objs_def slow_objs_def Let_def
        ids_ok_map comp_def del: set_map)
qed

lemma tunnel_at_in: "tunnel_at h k = Inr t \<Longrightarrow> t \<in> set (hb_tunnels h) \<and> tn_id t = k"
  by (auto simp: tunnel_at_def deref_def find_Some_iff split: option.splits)

lemma endpoint_refs:
  "\<exists>R. \<forall>pp. tunnel_refs (endpoint_upd b (\<lambda>te. te\<lparr>te_peer := pp\<rparr>) t) = opt_ref pp + R"
proof -
  obtain s pl where b: "b = (s, pl)" by (cases b)
  show ?thesis
    by (intro exI [of _ "tunnel_refs (endpoint_upd b (\<lambda>te. te\<lparr>te_peer := None\<rparr>) t)"])
       (cases s; cases pl; simp add: b tunnel_refs_def side_planes_def endpoint_upd_def ac_simps)
qed

lemma endpoint_upd_same: "endpoint_upd b (\<lambda>te. te\<lparr>te_peer := te_peer (tn_endpoint t b)\<rparr>) t = t"
  by (simp add: endpoint_upd_def)

lemma endpoint_upd_id [simp]: "tn_id (endpoint_upd b f t) = tn_id t"
  by (simp add: endpoint_upd_def)

lemma inv_set_peer:
  assumes "hub_inv now h"
  shows "ensures (gtphub_tunnel_endpoint_set_peer k b pp h) (hub_inv now)"
proof (rule ensuresI)
  fix h' assume "gtphub_tunnel_endpoint_set_peer k b pp h = Inr h'"
  then obtain t h1 where t: "tunnel_at h k = Inr t" and h1: "ref_dec_opt (te_peer (tn_endpoint t b)) h = Inr h1"
    and h': "ref_inc_opt pp (tunnel_upd k (endpoint_upd b (\<lambda>te. te\<lparr>te_peer := pp\<rparr>)) h1) = Inr h'"
    by (auto simp: gtphub_tunnel_endpoint_set_peer_def ebind_Inr_iff)
  note i = hub_inv_D [OF assms]
  let ?u = "endpoint_upd b (\<lambda>te. te\<lparr>te_peer := pp\<rparr>)" and ?old = "te_peer (tn_endpoint t b)"
  have d: "distinct (map tn_id (hb_tunnels h))" using i(3) by (simp add: hub_ids_def Let_def ids_ok_def)
  obtain R where R: "tunnel_refs (endpoint_upd b (\<lambda>te. te\<lparr>te_peer := q\<rparr>) t) = opt_ref q + R" for q using endpoint_refs by blast
  define X where "X = R + (\<Sum>t\<leftarrow>filter (\<lambda>t. tn_id t \<noteq> k) (hb_tunnels h). tunnel_refs t) + (\<Sum>m\<leftarrow>hb_mappings h. {#mp_origin m#}) +
     (\<Sum>g\<leftarrow>hb_resolved_ggsns h. {#rg_peer g#}) + (\<Sum>b\<leftarrow>side_planes. opt_ref (hb_proxy h b))"
  have old: "hub_refs h = opt_ref ?old + X"
    using sum_filter_key [OF d, of t tunnel_refs] tunnel_at_in [OF t] R [of ?old, unfolded endpoint_upd_same]
    by (simp add: hub_refs_def X_def ac_simps)
  have new: "hub_refs (tunnel_upd k ?u h) = opt_ref pp + X"
    using sum_upd_key [OF d, of t ?u tunnel_refs] tunnel_at_in [OF t] R [of pp]
    by (simp add: hub_refs_def X_def ac_simps tunnel_upd_def)
  from ref_dec_opt_ok [of ?old X h] old i(1) h1 obtain ports where
    p: "h1 = h\<lparr>hb_ports := ports\<rparr>" "refs_eq X ports" "same_ports (hb_ports h) ports" by auto
  from ref_inc_opt_ok [OF _ h'] p(1,2) obtain ports' where
    q: "h' = (tunnel_upd k ?u h1)\<lparr>hb_ports := ports'\<rparr>" "refs_eq (opt_ref pp + X) ports'" "same_ports ports ports'"
    by (auto simp: tunnel_upd_def)
  have h'_eq: "h' = (tunnel_upd k ?u h)\<lparr>hb_ports := ports'\<rparr>" using p(1) q(1) by (simp add: tunnel_upd_def)
  have s: "same_ports (hb_ports (tunnel_upd k ?u h)) ports'" using same_ports_trans [OF p(3) q(3)] by (simp add: tunnel_upd_def)
  show "hub_inv now h'"
    unfolding h'_eq inv_same [OF s] new
    using q(2) i(2-5) tunnel_upd_ids [of ?u k h]
    by (simp add: tunnel_upd_def hub_links_def hub_ids_def hub_pools_def hub_queues_def quick_objs_def slow_objs_def Let_def
        ids_ok_map comp_def del: set_map)
qed

end
