(* ===== verification/Gtphub_Ops.thy ===== *)
theory Gtphub_Ops
  imports Gtphub_Inv
begin

unbundle bit_operations_syntax

section \<open>gtphub: the handlers keep the invariant\<close>

text \<open>
  The invariant through mappings, tunnels, name lookups, restarts of a peer and the PDP context
  handlers, up to a whole packet, and the states gtphub can reach.
\<close>

lemma expiry_add_set:
  assumes "expiry_ok now q" and "now \<le> now'" and "expiry_add i now' q = Inr q'"
  shows "expiry_ok now' q'" and "fst ` set (ex_items q') = insert i (fst ` set (ex_items q))"
  using expiry_add_ok [OF assms(1,2), of i] assms(3) by (auto simp: image_iff)

text \<open>Linking an item: the objects listed in the queues grow by the one it belongs to.\<close>

lemma queues_add:
  assumes "hub_queues now h" and "now \<le> now'" and "hub_expiry_add i now' h1 = Inr h'"
    and "hb_expire_quickly h1 = hb_expire_quickly h" and "hb_expire_slowly h1 = hb_expire_slowly h"
    and "quick_objs h1 = (if expires_slowly i then quick_objs h else insert i (quick_objs h))"
    and "slow_objs h1 = (if expires_slowly i then insert i (slow_objs h) else slow_objs h)"
  shows "hub_queues now' h' \<and> (\<exists>q. h' = h1\<lparr>hb_expire_slowly := q\<rparr> \<or> h' = h1\<lparr>hb_expire_quickly := q\<rparr>)"
proof (cases "expires_slowly i")
  case True
  with assms(3) obtain q where q: "expiry_add i now' (hb_expire_slowly h1) = Inr q" "h' = h1\<lparr>hb_expire_slowly := q\<rparr>"
    by (auto simp: hub_expiry_add_def ebind_Inr_iff)
  have "expiry_ok now (hb_expire_slowly h1)" using assms(1,5) by (simp add: hub_queues_def)
  from expiry_add_set [OF this assms(2) q(1)] assms True q(2) show ?thesis
    by (auto simp: hub_queues_def quick_objs_def slow_objs_def intro: expiry_ok_later)
next
  case False
  with assms(3) obtain q where q: "expiry_add i now' (hb_expire_quickly h1) = Inr q" "h' = h1\<lparr>hb_expire_quickly := q\<rparr>"
    by (auto simp: hub_expiry_add_def ebind_Inr_iff)
  have "expiry_ok now (hb_expire_quickly h1)" using assms(1,4) by (simp add: hub_queues_def)
  from expiry_add_set [OF this assms(2) q(1)] assms False q(2) show ?thesis
    by (auto simp: hub_queues_def quick_objs_def slow_objs_def intro: expiry_ok_later)
qed

lemma queue_upd_rest [simp]:
  "hub_refs (h\<lparr>hb_expire_slowly := q\<rparr>) = hub_refs h" "hub_refs (h\<lparr>hb_expire_quickly := q\<rparr>) = hub_refs h"
  "hub_links (h\<lparr>hb_expire_slowly := q\<rparr>) = hub_links h" "hub_links (h\<lparr>hb_expire_quickly := q\<rparr>) = hub_links h"
  "hub_ids (h\<lparr>hb_expire_slowly := q\<rparr>) = hub_ids h" "hub_ids (h\<lparr>hb_expire_quickly := q\<rparr>) = hub_ids h"
  "hub_pools (h\<lparr>hb_expire_slowly := q\<rparr>) = hub_pools h" "hub_pools (h\<lparr>hb_expire_quickly := q\<rparr>) = hub_pools h"
  by (simp_all add: hub_refs_def hub_links_def hub_ids_def hub_pools_def)

lemma inv_refresh:
  assumes "hub_inv now h" and "now \<le> now'"
    and "i \<in> (if expires_slowly i then slow_objs h else quick_objs h)"
  shows "ensures (hub_expiry_add i now' h) (hub_inv now')"
proof (rule ensuresI)
  fix h' assume a: "hub_expiry_add i now' h = Inr h'"
  have "hub_queues now' h' \<and> (\<exists>q. h' = h\<lparr>hb_expire_slowly := q\<rparr> \<or> h' = h\<lparr>hb_expire_quickly := q\<rparr>)"
    by (rule queues_add [OF hub_inv_D(5) [OF assms(1)] assms(2) a]) (use assms(3) in \<open>auto split: if_splits\<close>)
  then show "hub_inv now' h'" using hub_inv_D [OF assms(1)] by (auto simp: hub_inv_def)
qed

lemma inv_refresh_tunnel:
  "hub_inv now h \<Longrightarrow> now \<le> now' \<Longrightarrow> t \<in> set (hb_tunnels h) \<Longrightarrow> ensures (hub_expiry_add (It_tunnel (tn_id t)) now' h) (hub_inv now')"
  by (rule inv_refresh) (auto simp: expires_slowly_def slow_objs_def)

lemma inv_new_tunnel:
  assumes "hub_inv now h" and "now \<le> now'" and "nr_pool_next (hb_tei_pool h) = (tei, pool)"
    and "gtphub_tunnel_new tei (h\<lparr>hb_tei_pool := pool\<rparr>) = (k, h1)"
  shows "ensures (hub_expiry_add (It_tunnel k) now' h1) (hub_inv now')"
proof (rule ensuresI)
  fix h' assume a: "hub_expiry_add (It_tunnel k) now' h1 = Inr h'"
  note i = hub_inv_D [OF assms(1)]
  let ?t = "\<lparr>tn_id = hb_next h, tn_tei_repl = tei, tn_endpoint = (\<lambda>_. \<lparr>te_peer = None, te_tei_orig = 0\<rparr>)\<rparr>"
  have k: "k = hb_next h" "h1 = h\<lparr>hb_tei_pool := pool, hb_tunnels := ?t # hb_tunnels h, hb_next := Suc (hb_next h)\<rparr>"
    using assms(4) by (auto simp: gtphub_tunnel_new_def Let_def)
  have "hub_queues now' h' \<and> (\<exists>q. h' = h1\<lparr>hb_expire_slowly := q\<rparr> \<or> h' = h1\<lparr>hb_expire_quickly := q\<rparr>)"
    by (rule queues_add [OF i(5) assms(2) a]) (auto simp: k expires_slowly_def quick_objs_def slow_objs_def)
  moreover have "hub_refs h1 = hub_refs h" by (simp add: k hub_refs_def tunnel_refs_def side_planes_def)
  moreover have "hub_pools h1"
    using i(4) pool_next_pos(1,4) [of "hb_tei_pool h"] assms(3) by (simp add: k hub_pools_def)
  moreover have "hub_links h1" using i(2) by (simp add: k hub_links_def)
  moreover have "hub_ids h1" using i(3) by (auto simp: k hub_ids_def Let_def intro: ids_ok_intros)
  moreover have "hb_ports h1 = hb_ports h" by (simp add: k)
  ultimately show "hub_inv now' h'" using i(1) by (auto simp: hub_inv_def)
qed

lemma inv_mapping_have:
  assumes "hub_inv now h" and "now \<le> now'"
  shows "ensures (gtphub_mapping_have peer from nr now' h) (\<lambda>(m, h'). hub_inv now' h')"
proof (cases "nr_map_get h peer from nr")
  case (Some m)
  then have "m \<in> set (hb_mappings h)" by (auto simp: nr_map_get_def find_Some_iff)
  then have "ensures (hub_expiry_add (It_mapping (mp_id m)) now' h) (hub_inv now')"
    using assms by (intro inv_refresh) (auto simp: expires_slowly_def quick_objs_def)
  then show ?thesis using Some by (simp add: gtphub_mapping_have_def)
next
  case None
  note i = hub_inv_D [OF assms(1)]
  show ?thesis
  proof (rule ensuresI, clarify)
    fix m h' assume a: "gtphub_mapping_have peer from nr now' h = Inr (m, h')"
    obtain pr repl pool h2 where pr: "peer_at h peer = Inr pr" "nr_pool_next (pr_seq_pool pr) = (repl, pool)"
      and h2: "hub_expiry_add (It_mapping (hb_next h)) now'
        ((peer_upd peer (\<lambda>pr. pr\<lparr>pr_seq_pool := pool\<rparr>) h)\<lparr>hb_mappings := hb_mappings h @ [m], hb_next := Suc (hb_next h)\<rparr>) = Inr h2"
      and h': "gtphub_port_ref_count_inc from h2 = Inr h'"
      and m: "m = \<lparr>mp_id = hb_next h, mp_map = peer, mp_origin = from, mp_orig = nr, mp_repl = repl\<rparr>"
      using a None by (auto simp: gtphub_mapping_have_def nr_map_add_def ebind_Inr_iff Let_def split_beta) (metis prod.collapse)
    let ?h0 = "peer_upd peer (\<lambda>pr. pr\<lparr>pr_seq_pool := pool\<rparr>) h"
    let ?h1 = "?h0\<lparr>hb_mappings := hb_mappings h @ [m], hb_next := Suc (hb_next h)\<rparr>"
    have i0: "hub_inv now ?h0" by (rule inv_peer_pool [OF assms(1) pr])
    have q: "hub_queues now' h2 \<and> (\<exists>q. h2 = ?h1\<lparr>hb_expire_slowly := q\<rparr> \<or> h2 = ?h1\<lparr>hb_expire_quickly := q\<rparr>)"
      by (rule queues_add [OF i(5) assms(2) h2]) (auto simp: m peer_upd_def expires_slowly_def quick_objs_def slow_objs_def)
    have p: "peer \<in> pr_id ` set (hb_peers ?h0)"
      using pr(1) image_map_if [of pr_id "\<lambda>pr. pr\<lparr>pr_seq_pool := pool\<rparr>" "\<lambda>pr. pr_id pr = peer" "hb_peers h"]
      by (auto simp: peer_at_def deref_def find_Some_iff peer_upd_def split: option.splits simp del: set_map)
    have r: "hub_refs ?h1 = add_mset from (hub_refs h)" "hb_ports ?h1 = hb_ports h" by (simp_all add: hub_refs_def m peer_upd_def)
    note j = hub_inv_D [OF i0]
    have l: "hub_links ?h1" using j(2) p by (simp add: hub_links_def m peer_upd_def)
    have d: "hub_ids ?h1" using j(3) by (simp add: hub_ids_def Let_def m peer_upd_def ids_ok_intros)
    have "pr \<in> set (hb_peers h)" using pr(1) by (auto simp: peer_at_def deref_def find_Some_iff split: option.splits)
    then have ok: "pool_ok (pr_seq_pool pr)" "np_max (pr_seq_pool pr) = 0xffff" using i(4) by (auto simp: hub_pools_def)
    have "mp_repl m \<le> 0xffff" using pool_next_pos(1,2,5) [OF ok(1)] pr(2) ok(2) by (simp add: m pool_ok_def)
    then have o: "hub_pools ?h1" using j(4) by (simp add: hub_pools_def peer_upd_def)
    have "refs_eq (hub_refs h) (hb_ports h2)" "hub_refs h2 = add_mset from (hub_refs h)" "hub_links h2" "hub_ids h2" "hub_pools h2"
      using q r l d o i(1) by auto
    from ref_inc [OF this(1) h'] this q show "hub_inv now' h'" by (auto simp: inv_same)
  qed
qed

subsection \<open>Handlers\<close>

lemma inv_resolved_ggsn:
  assumes "hub_inv now h" and "now \<le> now'"
  shows "ensures (gtphub_resolved_ggsn e apn addr now' h) (hub_inv now')"
proof (rule ensuresI)
  fix h' assume a: "gtphub_resolved_ggsn e apn addr now' h = Inr h'"
  obtain pp h1 where h1: "gtphub_port_have e (GGSN, CTRL) addr 2123 h = Inr (pp, h1)"
    using a by (auto simp: gtphub_resolved_ggsn_def ebind_Inr_iff)
  have i1: "hub_inv now h1" using ensuresD [OF inv_port_have [OF assms(1)] h1] by simp
  note i = hub_inv_D [OF i1]
  show "hub_inv now' h'"
  proof (cases pp)
    case None
    then show ?thesis using a h1 hub_inv_later [OF i1 assms(2)] by (simp add: gtphub_resolved_ggsn_def)
  next
    case (Some k)
    let ?g = "\<lparr>rg_id = hb_next h1, rg_apn_oi_str = osmo_strlcpy apn (APN_MAXLEN + 1), rg_peer = k\<rparr>"
    obtain h2 h3 where h2: "gtphub_port_ref_count_inc k (h1\<lparr>hb_next := Suc (hb_next h1)\<rparr>) = Inr h2"
      and h3: "hub_expiry_add (It_ggsn (hb_next h1)) now' h2 = Inr h3"
      and h': "h' = h3\<lparr>hb_resolved_ggsns := ?g # hb_resolved_ggsns h3\<rparr>"
      using a h1 Some by (auto simp: gtphub_resolved_ggsn_def ebind_Inr_iff Let_def)
    obtain ports where p: "h2 = h1\<lparr>hb_next := Suc (hb_next h1), hb_ports := ports\<rparr>" "refs_eq (add_mset k (hub_refs h1)) ports"
      "same_ports (hb_ports h1) ports" using ref_inc [OF _ h2, of "hub_refs h1"] i(1) by auto
    let ?h4 = "h1\<lparr>hb_next := Suc (hb_next h1), hb_resolved_ggsns := ?g # hb_resolved_ggsns h1\<rparr>"
    have h4: "hub_expiry_add (It_ggsn (hb_next h1)) now' (?h4\<lparr>hb_ports := ports\<rparr>) = Inr h'"
      using h3 by (auto simp: h' p(1) hub_expiry_add_def expires_slowly_def ebind_Inr_iff)
    have q: "hub_queues now' h' \<and> (\<exists>q. h' = ?h4\<lparr>hb_ports := ports, hb_expire_slowly := q\<rparr> \<or> h' = ?h4\<lparr>hb_ports := ports, hb_expire_quickly := q\<rparr>)"
      by (rule queues_add [OF i(5) assms(2) h4]) (auto simp: expires_slowly_def quick_objs_def slow_objs_def)
    have "hub_links (?h4\<lparr>hb_ports := ports\<rparr>)" using links_same [of ?h4 ports] p(3) i(2) by (simp add: hub_links_def)
    moreover have "hub_ids (?h4\<lparr>hb_ports := ports\<rparr>)"
      using i(3) ids_ok_same [OF p(3)] by (auto simp: hub_ids_def Let_def intro: ids_ok_intros)
    moreover have "hub_refs (?h4\<lparr>hb_ports := ports\<rparr>) = add_mset k (hub_refs h1)" "hub_pools (?h4\<lparr>hb_ports := ports\<rparr>)"
      using i(4) by (simp_all add: hub_refs_def hub_pools_def)
    ultimately show ?thesis using q p(2) unfolding hub_inv_def by auto
  qed
qed

lemma inv_resolve_addr:
  assumes "hub_inv now h" and "now \<le> clk"
  shows "ensures (gtphub_resolve_ggsn_addr e imsi apn clk h) (\<lambda>(pp, h'). hub_inv clk h' \<and> (pp \<noteq> None \<longrightarrow> h' = h))"
proof (rule ensuresI, clarify)
  fix pp h' assume a: "gtphub_resolve_ggsn_addr e imsi apn clk h = Inr (pp, h')"
  note i = hub_inv_D [OF assms(1)]
  consider "h' = h" | lk h2 where "hub_expiry_add (It_lookup (hb_next h)) clk
      (h\<lparr>hb_ggsn_lookups := lk # hb_ggsn_lookups h, hb_next := Suc (hb_next h)\<rparr>) = Inr h2" "lk_id lk = hb_next h"
      "pp = None" "h' = hub_emit (Ares_query (lk_apn_oi_str lk) (hb_next h)) h2"
    using a by (fastforce simp: gtphub_resolve_ggsn_addr_def Let_def ebind_Inr_iff start_ares_query_def split: if_splits option.splits)
  then show "hub_inv clk h' \<and> (pp \<noteq> None \<longrightarrow> h' = h)"
  proof cases
    case 1
    then show ?thesis using hub_inv_later [OF assms] by simp
  next
    case (2 lk h2)
    let ?h1 = "h\<lparr>hb_ggsn_lookups := lk # hb_ggsn_lookups h, hb_next := Suc (hb_next h)\<rparr>"
    have "hub_queues clk h2 \<and> (\<exists>q. h2 = ?h1\<lparr>hb_expire_slowly := q\<rparr> \<or> h2 = ?h1\<lparr>hb_expire_quickly := q\<rparr>)"
      by (rule queues_add [OF i(5) assms(2) 2(1)]) (auto simp: expires_slowly_def quick_objs_def slow_objs_def 2(2))
    moreover have "hub_refs ?h1 = hub_refs h" "hub_links ?h1" "hub_pools ?h1" "hub_ids ?h1"
      using i 2(2) by (auto simp: hub_refs_def hub_links_def hub_pools_def hub_ids_def Let_def intro: ids_ok_intros)
    ultimately have "hub_inv clk h2" using i(1) by (auto simp: hub_inv_def)
    then show ?thesis using 2 by simp
  qed
qed

lemma inv_resolve:
  assumes "hub_inv now h" and "now \<le> clk"
  shows "ensures (gtphub_resolve_ggsn e p clk h) (\<lambda>(rc, pp, h'). hub_inv clk h' \<and> (pp \<noteq> None \<longrightarrow> h' = h))"
proof (rule ensuresI, clarify)
  fix rc pp h' assume "gtphub_resolve_ggsn e p clk h = Inr (rc, pp, h')"
  then have "h' = h \<or> (\<exists>imsi apn. gtphub_resolve_ggsn_addr e imsi apn clk h = Inr (pp, h'))"
    by (auto simp: gtphub_resolve_ggsn_def Let_def ebind_Inr_iff split_beta split: if_splits)
  then show "hub_inv clk h' \<and> (pp \<noteq> None \<longrightarrow> h' = h)"
    using hub_inv_later [OF assms] ensuresD [OF inv_resolve_addr [OF assms]] by fastforce
qed

lemma inv_del_lookup: "hub_inv now h \<Longrightarrow> ensures (expiring_item_del (It_lookup k) h) (hub_inv now)"
proof (cases "k \<in> lk_id ` set (hb_ggsn_lookups h)")
  case False
  then show ?thesis
    by (auto simp: expiring_item_del_def ggsn_lookup_del_cb_def hub_unlink_def expires_slowly_def deref_def find_Some_iff image_iff ensures_def
        split: option.splits)
qed (use del_lookup in \<open>fastforce simp: ensures_def\<close>)

lemma inv_lookup_upd:
  assumes "\<And>lk. lk_id (u lk) = lk_id lk" and "hub_inv now h"
  shows "hub_inv now (h\<lparr>hb_ggsn_lookups := map (\<lambda>lk. if lk_id lk = k then u lk else lk) (hb_ggsn_lookups h)\<rparr>)"
  using hub_inv_D [OF assms(2)] image_map_if [of lk_id u "\<lambda>lk. lk_id lk = k" "hb_ggsn_lookups h"] assms(1) unfolding hub_inv_def
  by (simp add: hub_refs_def hub_links_def hub_ids_def hub_pools_def hub_queues_def quick_objs_def slow_objs_def Let_def ids_ok_map comp_def
      del: set_map)

lemma inv_lookup_cb:
  assumes "hub_inv now h" and "now \<le> now'"
  shows "ensures (ggsn_lookup_cb e k answer now' h) (hub_inv now')"
proof (rule ensuresI)
  fix h' assume a: "ggsn_lookup_cb e k answer now' h = Inr h'"
  let ?h = "h\<lparr>hb_ggsn_lookups := map (\<lambda>lk. if lk_id lk = k then lk\<lparr>lk_have_3dig_mnc := True\<rparr> else lk) (hb_ggsn_lookups h)\<rparr>"
  have i: "hub_inv now' h" using hub_inv_later [OF assms] .
  have j: "hub_inv now' (hub_emit (Ares_query s k) ?h)" for s using inv_lookup_upd [OF _ i, of "\<lambda>lk. lk\<lparr>lk_have_3dig_mnc := True\<rparr>" k] by simp
  consider s where "h' = hub_emit (Ares_query s k) ?h" | s where "expiring_item_del (It_lookup k) (hub_emit (Ares_query s k) ?h) = Inr h'"
    | "expiring_item_del (It_lookup k) h = Inr h'"
    | s addr h1 where "gtphub_resolved_ggsn e s addr now' h = Inr h1" "expiring_item_del (It_lookup k) h1 = Inr h'"
    using a by (cases answer; cases "the answer") (auto simp: ggsn_lookup_cb_def Let_def ebind_Inr_iff start_ares_query_def split: if_split_asm)
  then show "hub_inv now' h'"
  proof cases
    case 4 then show ?thesis using ensuresD [OF inv_resolved_ggsn [OF assms]] ensuresD [OF inv_del_lookup] by blast
  qed (use j i ensuresD [OF inv_del_lookup] in blast)+
qed

subsubsection \<open>Restarts\<close>

lemma peer_at_id: "peer_at h k = Inr pr \<Longrightarrow> pr_id pr = k"
  by (auto simp: peer_at_def deref_def dest: find_keyD split: option.splits)

lemma inv_send_del: "hub_inv now h \<Longrightarrow> ensures (gtphub_send_del_pdp_ctx k s h) (hub_inv now)"
proof (rule ensuresI)
  fix h' assume i: "hub_inv now h" and a: "gtphub_send_del_pdp_ctx k s h = Inr h'"
  consider "h' = h" | a pr pool ev n where "peer_at h a = Inr pr" "nr_pool_next (pr_seq_pool pr) = (n, pool)"
      "h' = hub_emit ev (peer_upd (pr_id pr) (\<lambda>pr. pr\<lparr>pr_seq_pool := pool\<rparr>) h)"
    using a by (fastforce simp: gtphub_send_del_pdp_ctx_def ebind_Inr_iff Let_def port_peer_def split_beta split: option.splits
        intro: prod.collapse [symmetric])
  then show "hub_inv now h'"
  proof cases
    case (2 a pr pool ev n)
    then have "peer_at h (pr_id pr) = Inr pr" using peer_at_id by metis
    then show ?thesis using inv_peer_pool [OF i _ 2(2)] 2(3) by simp
  qed (use i in simp)
qed

lemma inv_restarted_side: "hub_inv now h \<Longrightarrow> ensures (restarted_side pp k s h) (hub_inv now)"
proof (rule ensuresI)
  fix h' assume i: "hub_inv now h" and a: "restarted_side pp k s h = Inr h'"
  consider "h' = h" | h1 h2 where "gtphub_send_del_pdp_ctx k (other_side s) h = Inr h1"
      "gtphub_tunnel_endpoint_set_peer k (s, CTRL) None h1 = Inr h2" "gtphub_tunnel_endpoint_set_peer k (s, USER) None h2 = Inr h'"
    using a by (auto simp: restarted_side_def ebind_Inr_iff split: option.splits if_splits)
  then show "hub_inv now h'"
  proof cases
    case (2 h1 h2)
    from ensuresD [OF inv_send_del [OF i] 2(1)] have "hub_inv now h1" .
    from ensuresD [OF inv_set_peer [OF this] 2(2)] have "hub_inv now h2" .
    from ensuresD [OF inv_set_peer [OF this] 2(3)] show ?thesis .
  qed (use i in simp)
qed

lemma inv_restarted: "hub_inv now (h :: 'a hub) \<Longrightarrow> ensures (gtphub_restarted pp h) (hub_inv now)"
proof -
  have "hub_inv now h \<Longrightarrow> ensures (gtphub_restarted_loop pp ks h) (hub_inv now)" for ks and h :: "'a hub"
  proof (induction ks arbitrary: h)
    case (Cons k ks)
    then show ?case unfolding gtphub_restarted_loop.simps
      by (intro ensures_bind [OF inv_restarted_side] ensures_bind [OF inv_restarted_side]) auto
  qed simp
  then show "hub_inv now h \<Longrightarrow> ensures (gtphub_restarted pp h) (hub_inv now)" by (simp add: gtphub_restarted_def)
qed

lemma inv_restart_count: "hub_inv now h \<Longrightarrow> hub_inv now (port_upd k (\<lambda>pp. pp\<lparr>pp_last_restart_count := r\<rparr>) h)"
proof -
  assume i: "hub_inv now h"
  let ?f = "\<lambda>pp :: 'a peer_port. pp\<lparr>pp_last_restart_count := r\<rparr>"
  have s: "same_ports (hb_ports h) (hb_ports (port_upd k ?f h))" by (rule port_upd_same) simp
  have "ref_of (hb_ports (port_upd k ?f h)) j = ref_of (hb_ports h) j" for j
    by (simp add: ref_of_def port_upd_def find_map_if split: option.splits)
  then have "refs_eq (hub_refs h) (hb_ports (port_upd k ?f h))" using hub_inv_D(1) [OF i] by (simp add: refs_eq_def)
  with inv_same [OF s, of now] hub_inv_D [OF i] show ?thesis by (simp add: port_upd_def)
qed

lemma inv_check_restart: "hub_inv now h \<Longrightarrow> ensures (gtphub_check_restart_counter e p from h) (hub_inv now)"
proof (rule ensuresI)
  fix h' assume i: "hub_inv now h" and a: "gtphub_check_restart_counter e p from h = Inr h'"
  consider "h' = h" | h1 r where "h1 = h \<or> gtphub_restarted from h = Inr h1" "h' = port_upd from (\<lambda>pp. pp\<lparr>pp_last_restart_count := r\<rparr>) h1"
    using a by (auto simp: gtphub_check_restart_counter_def ebind_Inr_iff Let_def split: if_splits)
  then show "hub_inv now h'"
    by cases (use i ensuresD [OF inv_restarted] inv_restart_count in blast)+
qed

subsubsection \<open>Numbers\<close>

lemma inv_map_seq:
  "hub_inv now h \<Longrightarrow> now \<le> p_timestamp p \<Longrightarrow> ensures (gtphub_map_seq from_port to_port p h) (\<lambda>(p', h'). hub_inv (p_timestamp p) h')"
  using ensuresD [OF inv_mapping_have] by (fastforce simp: gtphub_map_seq_def ensures_def ebind_Inr_iff)

lemma find_tei_in: "find_tei ts b tei addr h = Inr (Some t) \<Longrightarrow> t \<in> set ts"
  by (induction ts) (auto simp: ebind_Inr_iff split: if_splits option.splits)

lemma inv_unmap_tei:
  assumes "hub_inv now h" and "now \<le> p_timestamp p"
  shows "ensures (gtphub_unmap_tei p from h) (\<lambda>(r, h'). hub_inv (p_timestamp p) h')"
  using ensuresD [OF inv_refresh_tunnel [OF assms]] hub_inv_later [OF assms]
  by (fastforce simp: gtphub_unmap_tei_def ensures_def ebind_Inr_iff dest: find_tei_in split: option.split_asm)

lemma set_tei_timestamp [simp]: "set_tei tei p = Inr p' \<Longrightarrow> p_timestamp p' = p_timestamp p"
  by (auto simp: set_tei_def ebind_Inr_iff split: if_split_asm)

lemma set_seq_timestamp [simp]: "set_seq seq p = Inr p' \<Longrightarrow> p_timestamp p' = p_timestamp p"
  by (auto simp: set_seq_def ebind_Inr_iff split: if_split_asm)

lemma inv_unmap_header_tei:
  assumes "hub_inv now h" and "now \<le> p_timestamp p"
  shows "ensures (gtphub_unmap_header_tei p from h) (\<lambda>(rc, to, p', h'). hub_inv (p_timestamp p) h' \<and> p_timestamp p' = p_timestamp p)"
  using ensuresD [OF inv_unmap_tei [of now h "p\<lparr>p_tun := None\<rparr>"]] assms hub_inv_later [OF assms] set_tei_timestamp
  by (fastforce simp: gtphub_unmap_header_tei_def Let_def ensures_def ebind_Inr_iff split: option.split_asm if_split_asm)

lemma unmap_seq_timestamp: "gtphub_unmap_seq from h p = Inr (r, p') \<Longrightarrow> p_timestamp p' = p_timestamp p"
  using set_seq_timestamp by (fastforce simp: gtphub_unmap_seq_def ebind_Inr_iff split: option.split_asm if_split_asm)

lemma inv_unmap:
  assumes "hub_inv now h" and "now \<le> p_timestamp p"
  shows "ensures (gtphub_unmap p from proxy h) (\<lambda>(rc, to, seq, p', h'). hub_inv (p_timestamp p) h' \<and> p_timestamp p' = p_timestamp p)"
proof (rule ensuresI, clarify)
  fix rc to seq p' h' assume a: "gtphub_unmap p from proxy h = Inr (rc, to, seq, p', h')"
  obtain fs p1 rc1 ft where 1: "gtphub_unmap_seq from h (p\<lparr>p_tun := None\<rparr>) = Inr (fs, p1)"
    and 2: "gtphub_unmap_header_tei p1 from h = Inr (rc1, ft, p', h')"
    using a by (auto simp: gtphub_unmap_def Let_def ebind_Inr_iff split: if_split_asm)
  have t: "p_timestamp p1 = p_timestamp p" using unmap_seq_timestamp [OF 1] by simp
  show "hub_inv (p_timestamp p) h' \<and> p_timestamp p' = p_timestamp p"
    using ensuresD [OF inv_unmap_header_tei [OF assms(1)] 2] assms(2) t by simp
qed

subsubsection \<open>PDP contexts\<close>

lemma inv_del_tunnel: "hub_inv now h \<Longrightarrow> ensures (expiring_item_del (It_tunnel k) h) (hub_inv now)"
proof (cases "k \<in> tn_id ` set (hb_tunnels h)")
  case False
  then show ?thesis
    by (auto simp: expiring_item_del_def gtphub_tunnel_del_cb_def tunnel_at_def hub_unlink_def expires_slowly_def deref_def find_Some_iff
        image_iff ensures_def split: option.splits)
qed (use del_tunnel in \<open>fastforce simp: ensures_def\<close>)

lemma inv_del_pending: "hub_inv now h \<Longrightarrow> ensures (expiring_item_del (It_pending k) h) (hub_inv now)"
proof (cases "k \<in> pd_id ` set (hb_pending_deletes h)")
  case False
  then show ?thesis
    by (auto simp: expiring_item_del_def pending_delete_del_cb_def hub_unlink_def expires_slowly_def deref_def find_Some_iff
        image_iff ensures_def split: option.splits)
qed (use del_pending in \<open>fastforce simp: ensures_def\<close>)

lemma inv_check_loop:
  "hub_inv now h \<Longrightarrow> ensures (check_reused_loop ks new lo hi h) (\<lambda>(ok, h'). hub_inv now h')"
proof (induction ks arbitrary: lo hi h)
  case (Cons k ks)
  show ?case
  proof (rule ensuresI, clarify)
    fix ok h' assume a: "check_reused_loop (k # ks) new lo hi h = Inr (ok, h')"
    consider "h' = h" | h1 lo hi where "hub_inv now h1" "check_reused_loop ks new lo hi h1 = Inr (ok, h')"
    proof (cases "k = new")
      case True
      then show ?thesis using a that(2) Cons.prems by auto
    next
      case False
      with a obtain t t2 r where t: "tunnel_at h k = Inr t" "tunnel_at h new = Inr t2" "tunnel_reused side_planes t t2 h = Inr r"
        by (auto simp: ebind_Inr_iff)
      show ?thesis
      proof (cases r)
        case True
        then obtain h1 where h1: "expiring_item_del (It_tunnel k) h = Inr h1" "check_reused_loop ks new lo hi h1 = Inr (ok, h')"
          using a t False by (auto simp: ebind_Inr_iff)
        have "hub_inv now h1" by (rule ensuresD [OF inv_del_tunnel [OF Cons.prems] h1(1)])
        then show ?thesis using that(2) h1(2) by blast
      next
        case F: False
        show ?thesis
        proof (cases "gtphub_check_mapped_tei (tn_tei_repl t2) (tn_tei_repl t) lo hi")
          case None
          then show ?thesis using that(1) a t False F by simp
        next
          case (Some x)
          then obtain tei lo' hi' where "x = (tei, lo', hi')" by (cases x)
          then have "check_reused_loop ks new lo' hi' (tunnel_upd new (\<lambda>t. t\<lparr>tn_tei_repl := tei\<rparr>) h) = Inr (ok, h')"
            using a t False F Some by simp
          moreover have "hub_inv now (tunnel_upd new (\<lambda>t. t\<lparr>tn_tei_repl := tei\<rparr>) h)"
            by (rule inv_tunnel_upd [OF Cons.prems]) (simp_all add: tunnel_refs_def)
          ultimately show ?thesis using that(2) by blast
        qed
      qed
    qed
    then show "hub_inv now h'" using Cons.prems ensuresD [OF Cons.IH] by cases auto
  qed
qed simp

lemma endpoint_tei_refs: "tunnel_refs (endpoint_upd b (\<lambda>te. te\<lparr>te_tei_orig := tei\<rparr>) t) = tunnel_refs t"
  by (simp add: tunnel_refs_def endpoint_upd_def side_planes_def)

lemma inv_create_map:
  assumes "hub_inv now h"
  shows "ensures (create_map_tei k b ie tei p h) (\<lambda>(p', h'). hub_inv now h' \<and> p_timestamp p' = p_timestamp p)"
proof -
  have "hub_inv now (tunnel_upd k (endpoint_upd b (\<lambda>te. te\<lparr>te_tei_orig := tei\<rparr>)) h)"
    by (rule inv_tunnel_upd [OF assms]) (simp_all add: endpoint_tei_refs)
  from ensuresD [OF inv_check_loop [OF this]] assms show ?thesis
    by (fastforce simp: create_map_tei_def gtphub_check_reused_teis_def Let_def ensures_def ebind_Inr_iff split: if_split_asm)
qed

lemma gsn_addr_put_timestamp: "gsn_addr_put e addr i p = Inr (rc, p') \<Longrightarrow> p_timestamp p' = p_timestamp p"
  by (auto simp: gsn_addr_put_def ebind_Inr_iff split: if_split_asm option.split_asm)

lemma inv_create_rewrite:
  assumes "hub_inv now h"
  shows "ensures (create_rewrite e k b ie tei p h) (\<lambda>(rc, p', h'). hub_inv now h' \<and> p_timestamp p' = p_timestamp p)"
proof (rule ensuresI, clarify)
  fix rc p' h' assume "create_rewrite e k b ie tei p h = Inr (rc, p', h')"
  then have "(p' = p \<and> h' = h) \<or> (\<exists>p3 addr i rc. create_map_tei k b ie tei p h = Inr (p3, h') \<and> gsn_addr_put e addr i p3 = Inr (rc, p'))"
    by (auto simp: create_rewrite_def ebind_Inr_iff split: if_split_asm)
  then show "hub_inv now h' \<and> p_timestamp p' = p_timestamp p"
  proof (elim disjE exE conjE)
    fix p3 addr i rc assume c: "create_map_tei k b ie tei p h = Inr (p3, h')" and g: "gsn_addr_put e addr i p3 = Inr (rc, p')"
    show ?thesis using ensuresD [OF inv_create_map [OF assms] c] gsn_addr_put_timestamp [OF g] by simp
  qed (use assms in simp)
qed

lemma ensures_True: "ensures m (\<lambda>_. True)"
  by (simp add: ensures_def)

lemma inv_create_endpoint:
  assumes "hub_inv now h"
  shows "ensures (create_endpoint e k b addr ie from p h) (\<lambda>(rc, p', h'). hub_inv now h' \<and> p_timestamp p' = p_timestamp p)"
  unfolding create_endpoint_def
  by (intro ensures_bind [OF ensures_True] ensures_case_prod ensures_bind [OF inv_port_have [OF assms]]
      ensures_bind [OF inv_set_peer] inv_create_rewrite) auto

lemma inv_create_planes:
  "hub_inv now h \<Longrightarrow> ensures (create_planes e k pls from p h) (\<lambda>(rc, p', h'). hub_inv now h' \<and> p_timestamp p' = p_timestamp p)"
proof (induction pls arbitrary: p h)
  case (Cons pl pls)
  show ?case
  proof (rule ensuresI, clarify)
    fix rc p' h' assume a: "create_planes e k (pl # pls) from p h = Inr (rc, p', h')"
    consider "p' = p" "h' = h" | addr ie rc1 p1 h1 where "create_endpoint e k (p_side p, pl) addr ie from p h = Inr (rc1, p1, h1)"
      "(p' = p1 \<and> h' = h1) \<or> create_planes e k pls from p1 h1 = Inr (rc, p', h')"
      using a by (fastforce simp: Let_def ebind_Inr_iff split: option.split_asm if_split_asm)
    then show "hub_inv now h' \<and> p_timestamp p' = p_timestamp p"
    proof cases
      case (2 addr ie rc1 p1 h1)
      have i: "hub_inv now h1" "p_timestamp p1 = p_timestamp p" using ensuresD [OF inv_create_endpoint [OF Cons.prems] 2(1)] by simp_all
      show ?thesis using 2(2) i ensuresD [OF Cons.IH [OF i(1)]] by fastforce
    qed (use Cons.prems in simp)
  qed
qed simp

lemma inv_create:
  assumes "hub_inv now h" and "now \<le> p_timestamp p"
  shows "ensures (gtphub_handle_create_pdp_ctx e from to p h) (\<lambda>(rc, p', h'). hub_inv (p_timestamp p) h' \<and> p_timestamp p' = p_timestamp p)"
proof (rule ensuresI, clarify)
  fix rc p' h' assume a: "gtphub_handle_create_pdp_ctx e from to p h = Inr (rc, p', h')"
  obtain tei pool where n: "nr_pool_next (hb_tei_pool h) = (tei, pool)" by fastforce
  obtain k h1 where t: "gtphub_tunnel_new tei (h\<lparr>hb_tei_pool := pool\<rparr>) = (k, h1)" by fastforce
  consider "p' = p" "h' = h"
    | h2 h3 where "hub_expiry_add (It_tunnel k) (p_timestamp p) h1 = Inr h2"
      "gtphub_tunnel_endpoint_set_peer k (GGSN, CTRL) (Some to) h2 = Inr h3"
      "create_planes e k [CTRL, USER] from (p\<lparr>p_tun := Some k\<rparr>) h3 = Inr (rc, p', h')"
    | j where "create_planes e j [CTRL, USER] from p h = Inr (rc, p', h')"
    using a n t by (auto simp: gtphub_handle_create_pdp_ctx_def Let_def ebind_Inr_iff simp del: create_planes.simps split: if_split_asm option.split_asm)
  then show "hub_inv (p_timestamp p) h' \<and> p_timestamp p' = p_timestamp p"
  proof cases
    case 1
    then show ?thesis using hub_inv_later [OF assms] by simp
  next
    case (2 h2 h3)
    from ensuresD [OF inv_new_tunnel [OF assms n t] 2(1)] have "hub_inv (p_timestamp p) h2" .
    from ensuresD [OF inv_set_peer [OF this] 2(2)] have "hub_inv (p_timestamp p) h3" .
    from ensuresD [OF inv_create_planes [OF this] 2(3)] show ?thesis by simp
  next
    case (3 j)
    from ensuresD [OF inv_create_planes [OF hub_inv_later [OF assms]] 3] show ?thesis by simp
  qed
qed

lemma inv_delete_request:
  assumes "hub_inv now h" and "now \<le> now'"
  shows "ensures (delete_request k td nsapi now' h) (hub_inv now')"
proof (cases "find (\<lambda>pd. pd_tun pd = k \<and> pd_teardown_ind pd = td \<and> pd_nsapi pd = nsapi) (hb_pending_deletes h)")
  case (Some pd)
  then have "pd \<in> set (hb_pending_deletes h)" by (auto simp: find_Some_iff)
  then show ?thesis using Some assms inv_refresh [OF assms, of "It_pending (pd_id pd)"]
    by (simp add: delete_request_def expires_slowly_def quick_objs_def)
next
  case None
  note i = hub_inv_D [OF assms(1)]
  let ?pd = "\<lparr>pd_id = hb_next h, pd_tun = k, pd_teardown_ind = td, pd_nsapi = nsapi\<rparr>"
  let ?h1 = "h\<lparr>hb_pending_deletes := ?pd # hb_pending_deletes h, hb_next := Suc (hb_next h)\<rparr>"
  have "hub_inv now' h'" if a: "hub_expiry_add (It_pending (hb_next h)) now' ?h1 = Inr h'" for h'
  proof -
    have "hub_queues now' h' \<and> (\<exists>q. h' = ?h1\<lparr>hb_expire_slowly := q\<rparr> \<or> h' = ?h1\<lparr>hb_expire_quickly := q\<rparr>)"
      by (rule queues_add [OF i(5) assms(2) a]) (auto simp: expires_slowly_def quick_objs_def slow_objs_def)
    moreover have "hub_refs ?h1 = hub_refs h" "hub_links ?h1" "hub_pools ?h1" "hub_ids ?h1"
      using i by (auto simp: hub_refs_def hub_links_def hub_pools_def hub_ids_def Let_def intro: ids_ok_intros)
    ultimately show ?thesis using i(1) by (auto simp: hub_inv_def)
  qed
  then show ?thesis using None by (simp add: delete_request_def Let_def ensures_def)
qed

lemma inv_delete:
  assumes "hub_inv now h" and "now \<le> p_timestamp p"
  shows "ensures (gtphub_handle_delete_pdp_ctx e p h) (\<lambda>(rc, p', h'). hub_inv (p_timestamp p) h' \<and> p_timestamp p' = p_timestamp p)"
proof (rule ensuresI, clarify)
  fix rc p' h' assume a: "gtphub_handle_delete_pdp_ctx e p h = Inr (rc, p', h')"
  have t: "p_timestamp p' = p_timestamp p"
    using a by (auto simp: gtphub_handle_delete_pdp_ctx_def ebind_Inr_iff split: if_split_asm option.split_asm)
  consider "h' = h" | k td nsapi where "delete_request k td nsapi (p_timestamp p) h = Inr h'"
    | k j h1 where "expiring_item_del (It_pending j) h = Inr h1" "h' = h1 \<or> expiring_item_del (It_tunnel k) h1 = Inr h'"
  proof (cases "p_type p = GTP_DELETE_PDP_REQ")
    case True
    then have "h' = h \<or> (\<exists>k td nsapi. delete_request k td nsapi (p_timestamp p) h = Inr h')"
      using a by (auto simp: gtphub_handle_delete_pdp_ctx_def ebind_Inr_iff split: option.split_asm)
    then show thesis using that(1,2) by blast
  next
    case False
    then have "h' = h \<or> (\<exists>k j h1. expiring_item_del (It_pending j) h = Inr h1 \<and> (h' = h1 \<or> expiring_item_del (It_tunnel k) h1 = Inr h'))"
      using a by (auto simp: gtphub_handle_delete_pdp_ctx_def ebind_Inr_iff split: option.split_asm if_split_asm)
    then show thesis using that(1,3) by blast
  qed
  then have "hub_inv (p_timestamp p) h'"
  proof cases
    case 1 then show ?thesis using hub_inv_later [OF assms] by simp
  next
    case 2 then show ?thesis using ensuresD [OF inv_delete_request [OF assms]] by blast
  next
    case (3 k j h1)
    from ensuresD [OF inv_del_pending [OF hub_inv_later [OF assms]] 3(1)] have "hub_inv (p_timestamp p) h1" .
    then show ?thesis using 3(2) ensuresD [OF inv_del_tunnel] by blast
  qed
  with t show "hub_inv (p_timestamp p) h' \<and> p_timestamp p' = p_timestamp p" by simp
qed

subsubsection \<open>Packets\<close>

lemma inv_pdp_ctx:
  assumes "hub_inv now h" and "now \<le> p_timestamp p"
  shows "ensures (gtphub_handle_pdp_ctx e fr to p h) (\<lambda>(rc, p', h'). hub_inv (p_timestamp p) h' \<and> p_timestamp p' = p_timestamp p)"
  using inv_create [OF assms, of e fr to] inv_delete [OF assms, of e] hub_inv_later [OF assms]
  by (simp add: gtphub_handle_pdp_ctx_def)

lemma inv_forward:
  assumes "hub_inv now h" and "now \<le> p_timestamp p"
  shows "ensures (hub_forward e fr to seq n p h) (\<lambda>(r, h'). hub_inv (p_timestamp p) h')"
proof (rule ensuresI, clarify)
  fix len fwd h' assume a: "hub_forward e fr to seq n p h = Inr ((len, fwd), h')"
  obtain rc p1 h1 where 1: "(if p_plane p = CTRL then gtphub_handle_pdp_ctx e fr to p h else Inr (0, p, h)) = (Inr (rc, p1, h1) :: _ exec)"
    using a by (auto simp: hub_forward_def Let_def ebind_Inr_iff)
  have i1: "hub_inv (p_timestamp p) h1" "p_timestamp p1 = p_timestamp p"
    using 1 ensuresD [OF inv_pdp_ctx [OF assms], of e fr to] hub_inv_later [OF assms] by (fastforce split: if_split_asm)+
  consider "h' = h1" | p2 h2 where "(if seq = None then gtphub_map_seq fr to p1 h1 else Inr (p1, h1)) = (Inr (p2, h2) :: _ exec)"
      "hub_inv (p_timestamp p) h' = hub_inv (p_timestamp p) h2"
    using a 1 by (cases "rc = 0") (auto simp: hub_forward_def Let_def ebind_Inr_iff split: if_split_asm option.split_asm)
  then show "hub_inv (p_timestamp p) h'"
  proof cases
    case (2 p2 h2)
    then show ?thesis using ensuresD [OF inv_map_seq [OF i1(1)], of p1 fr to] i1 by (fastforce split: if_split_asm)
  qed (use i1 in simp)
qed

lemma inv_route:
  assumes "hub_inv now h" and "now \<le> p_timestamp p" and "p_timestamp p \<le> clk"
  shows "ensures (hub_route e fr n clk p h) (\<lambda>(r, h'). hub_inv clk h')"
proof (rule ensuresI, clarify)
  fix len fwd h' assume a: "hub_route e fr n clk p h = Inr ((len, fwd), h')"
  let ?h = "rate_ctr_add (Ctr_port fr) PKTS_IN 1 (rate_ctr_add (Ctr_port fr) BYTES_IN n h)"
  obtain h1 p1 rc to seq p2 h2 where 1: "gtphub_check_restart_counter e p fr ?h = Inr h1" "gtphub_map_restart_counter e h1 p = Inr p1"
    and 2: "gtphub_unmap p1 fr (hb_proxy h1 (other_side (p_side p1), p_plane p1)) h1 = Inr (rc, to, seq, p2, h2)"
    using a by (auto simp: hub_route_def Let_def ebind_Inr_iff)
  have i1: "hub_inv now h1" using ensuresD [OF inv_check_restart 1(1)] assms(1) by simp
  have t1: "p_timestamp p1 = p_timestamp p"
    using 1(2) by (auto simp: gtphub_map_restart_counter_def ebind_Inr_iff split: if_split_asm option.split_asm)
  have i2: "hub_inv (p_timestamp p) h2" "p_timestamp p2 = p_timestamp p"
    using ensuresD [OF inv_unmap [OF i1] 2] assms(2) t1 by simp_all
  define h3 where "h3 = (case p_tun p2 of None \<Rightarrow> h2 | Some k \<Rightarrow> rate_ctr_add (Ctr_endpoint k (p_side p, p_plane p)) PKTS_IN 1
      (rate_ctr_add (Ctr_endpoint k (p_side p, p_plane p)) BYTES_IN n h2))"
  have i3: "hub_inv (p_timestamp p) h3" using i2(1) by (simp add: h3_def split: option.split)
  show "hub_inv clk h'"
  proof (cases "rc = 0")
    case False
    then show ?thesis using a 1 2 hub_inv_later [OF i2(1) assms(3)] by (simp add: hub_route_def Let_def)
  next
    case True
    have "ebind (if to = None \<and> p_side p2 = SGSN then gtphub_resolve_ggsn e p2 clk h3 else Inr (0, to, h3)) (\<lambda>(rc, to_peer, h).
        if rc < 0 then Inr ((-1, None), h) else hub_dispatch e fr seq n p2 to_peer h) = Inr ((len, fwd), h')"
      using a 1 2 True unfolding hub_route_def Let_def h3_def by (simp split del: if_split)
    then obtain rc4 to4 h4 where
      4: "(if to = None \<and> p_side p2 = SGSN then gtphub_resolve_ggsn e p2 clk h3 else Inr (0, to, h3)) = (Inr (rc4, to4, h4) :: _ exec)"
      and "h' = h4 \<or> hub_dispatch e fr seq n p2 to4 h4 = Inr ((len, fwd), h')"
      unfolding ebind_Inr_iff by (auto split: if_split_asm)
    then have c: "h' = h4 \<or> (\<exists>k. to4 = Some k \<and> hub_forward e fr k seq n p2 h4 = Inr ((len, fwd), h')) \<or>
        (to4 = None \<and> (\<exists>t. expiring_item_del (It_tunnel t) h4 = Inr h'))"
      by (auto simp: hub_dispatch_def ebind_Inr_iff split: if_split_asm option.split_asm)
    have i4: "hub_inv clk h4" "to4 \<noteq> None \<Longrightarrow> hub_inv (p_timestamp p) h4"
      using 4 i3 hub_inv_later [OF i3 assms(3)] ensuresD [OF inv_resolve [OF i3 assms(3)]] by (fastforce split: if_split_asm)+
    from c show ?thesis
    proof (elim disjE exE conjE)
      fix k assume k: "to4 = Some k" "hub_forward e fr k seq n p2 h4 = Inr ((len, fwd), h')"
      have "hub_inv (p_timestamp p) h'" using ensuresD [OF inv_forward [OF i4(2)] k(2)] k(1) i2(2) by simp
      then show ?thesis using assms(3) by (rule hub_inv_later)
    next
      fix t assume "expiring_item_del (It_tunnel t) h4 = Inr h'"
      then show ?thesis using ensuresD [OF inv_del_tunnel [OF i4(1)]] by blast
    qed (use i4 in simp)
  qed
qed

lemma inv_sender:
  assumes "hub_inv now h"
  shows "ensures (sender_peer e b sa h) (\<lambda>(pp, h'). hub_inv now h')"
proof (rule ensuresI, clarify)
  fix pp h' assume a: "sender_peer e b sa h = Inr (pp, h')"
  consider "h' = h" | q h1 where "gtphub_known_addr_have_port e b sa h = Inr (q, h1)"
      "h' = h1 \<or> (\<exists>addr port. gtphub_port_have e b addr port h1 = Inr (pp, h'))"
    using a by (cases "hb_proxy h b"; cases "gsn_addr_from_sockaddr e sa") (auto simp: sender_peer_def ebind_Inr_iff split: if_split_asm)
  then show "hub_inv now h'"
  proof cases
    case (2 q h1)
    have "hub_inv now h1" using ensuresD [OF inv_known_addr [OF assms] 2(1)] by simp
    then show ?thesis using 2(2) ensuresD [OF inv_port_have] by fastforce
  qed (use assms in simp)
qed

lemma ensures_if: "ensures (if c then a else b) Q = ((c \<longrightarrow> ensures a Q) \<and> (\<not> c \<longrightarrow> ensures b Q))"
  by simp

definition same_origin :: "'i gtp_packet \<Rightarrow> 'i gtp_packet \<Rightarrow> bool" where
  "same_origin p q \<longleftrightarrow> p_timestamp q = p_timestamp p \<and> p_side q = p_side p \<and> p_plane q = p_plane p \<and> p_tun q = p_tun p \<and>
     p_ie q = p_ie p \<and> p_data q = p_data p"

lemma validate_origin:
  "ensures (validate_gtp0_header p) (same_origin p)" "ensures (validate_gtp1_header p) (same_origin p)"
  "ensures (validate_gtp_header p) (same_origin p)"
proof -
  show 0: "ensures (validate_gtp0_header p) (same_origin p)" for p :: "'a gtp_packet"
    by (simp add: validate_gtp0_header_def Let_def ensures_if ensures_True same_origin_def)
  show 1: "ensures (validate_gtp1_header p) (same_origin p)" for p :: "'a gtp_packet"
    by (simp add: validate_gtp1_header_def Let_def ensures_if ensures_True same_origin_def)
  have "same_origin (p\<lparr>p_rc := RC_UNKNOWN, p_version := v\<rparr>) = same_origin p" for v by (simp add: same_origin_def fun_eq_iff)
  then show "ensures (validate_gtp_header p) (same_origin p)"
    using 0 [of "p\<lparr>p_rc := RC_UNKNOWN, p_version := 0\<rparr>"] 1 [of "p\<lparr>p_rc := RC_UNKNOWN, p_version := 1\<rparr>"]
    by (auto simp: validate_gtp_header_def Let_def ensures_if ensures_True same_origin_def ensures_def ebind_Inr_iff split: if_split_asm)
qed

lemma decode_timestamp:
  "ensures (gtp_decode e buf n s pl now) (\<lambda>p. p_timestamp p = now \<and> p_side p = s \<and> p_plane p = pl \<and> p_tun p = None)"
  unfolding gtp_decode_def
  by (rule ensures_bind [OF validate_origin(3)]) (auto simp: zero_packet_def same_origin_def split: option.split)

lemma decode_user:
  "ensures (gtp_decode e buf n s USER now) (\<lambda>p. p_ie p = None \<and> p_data p = buf)"
  unfolding gtp_decode_def
  by (rule ensures_bind [OF validate_origin(3)]) (auto simp: zero_packet_def same_origin_def)

lemma inv_handle_buf:
  assumes "hub_inv now h" and "now \<le> now'" and "now' \<le> clk"
  shows "ensures (gtphub_handle_buf e s pl sa buf n now' clk h) (\<lambda>(r, h'). hub_inv clk h')"
proof (rule ensuresI, clarify)
  fix len fwd h' assume a: "gtphub_handle_buf e s pl sa buf n now' clk h = Inr ((len, fwd), h')"
  obtain p where p: "gtp_decode e buf n s pl now' = Inr p" using a by (auto simp: gtphub_handle_buf_def Let_def ebind_Inr_iff)
  have t: "p_timestamp p = now'" using ensuresD [OF decode_timestamp p] by simp
  let ?h = "rate_ctr_add (Ctr_bind (s, pl)) PKTS_IN 1 (rate_ctr_add (Ctr_bind (s, pl)) BYTES_IN n h)"
  have i: "hub_inv now ?h" "hub_inv clk h" using assms hub_inv_later [of now h clk] by simp_all
  consider "hub_inv clk h' = hub_inv clk h" | fr h1 where "sender_peer e (s, pl) sa ?h = Inr (fr, h1)"
      "h' = h1 \<or> (\<exists>k. hub_route e k n clk p h1 = Inr ((len, fwd), h'))"
    using a p by (auto simp: gtphub_handle_buf_def Let_def ebind_Inr_iff split: option.split_asm if_split_asm)
  then show "hub_inv clk h'"
  proof cases
    case (2 fr h1)
    have j: "hub_inv now h1" using ensuresD [OF inv_sender [OF i(1)] 2(1)] by simp
    have "hub_inv clk h1" using j assms(2,3) by (auto intro: hub_inv_later)
    then show ?thesis using 2(2) ensuresD [OF inv_route [OF j]] t assms(2,3) by fastforce
  qed (use i in simp)
qed

lemma inv_read_cb:
  assumes "hub_inv now h" and "now \<le> now'" and "now' \<le> clk"
  shows "ensures (gtphub_read_cb e s pl sa buf n now' clk h) (hub_inv clk)"
  using ensuresD [OF inv_handle_buf [OF assms, of e s pl sa buf n]] hub_inv_later [OF assms(1), of clk] assms(2,3)
  by (fastforce simp: gtphub_read_cb_def ensures_def ebind_Inr_iff split: if_split_asm option.split_asm)

subsection \<open>Reachable states\<close>

lemma side_planes_refs:
  "\<exists>R. \<forall>k. (\<Sum>x\<leftarrow>side_planes. opt_ref ((f(b := k)) x)) = opt_ref k + R"
proof -
  obtain s pl where b: "b = (s, pl)" by (cases b)
  show ?thesis
    by (intro exI [of _ "\<Sum>x\<leftarrow>side_planes. opt_ref ((f(b := None)) x)"]) (cases s; cases pl; simp add: b side_planes_def ac_simps)
qed

lemma inv_make_proxy:
  assumes "hub_inv now h" and "hb_proxy h b = None" and "gtphub_make_proxy e cfg b h = Inr h'"
  shows "hub_inv now h' \<and> (\<forall>b'. b' \<noteq> b \<longrightarrow> hb_proxy h' b' = hb_proxy h b')"
proof (cases "cfg b")
  case None
  then show ?thesis using assms by (simp add: gtphub_make_proxy_def)
next
  case (Some ap)
  obtain addr port where ap: "ap = (addr, port)" by (cases ap)
  with assms(3) Some obtain k h1 where 1: "gtphub_port_have e b addr port h = Inr (Some k, h1)"
    "gtphub_port_ref_count_inc k (h1\<lparr>hb_proxy := (hb_proxy h1)(b := Some k)\<rparr>) = Inr h'"
    by (auto simp: gtphub_make_proxy_def ebind_Inr_iff split: option.split_asm)
  have i1: "hub_inv now h1" using ensuresD [OF inv_port_have [OF assms(1)] 1(1)] by simp
  have px: "hb_proxy h1 = hb_proxy h"
    using 1(1) by (auto simp: gtphub_port_have_def addr_have_port_def gtphub_addr_find_port_def gtphub_addr_add_port_def gtphub_addr_have_def
        gtphub_peer_new_def gtphub_peer_add_addr_def Let_def ebind_Inr_iff split: option.split_asm if_split_asm prod.split_asm)
  note i = hub_inv_D [OF i1]
  let ?h2 = "h1\<lparr>hb_proxy := (hb_proxy h1)(b := Some k)\<rparr>"
  obtain R where R: "(\<Sum>x\<leftarrow>side_planes. opt_ref (((hb_proxy h1)(b := j)) x)) = opt_ref j + R" for j using side_planes_refs by blast
  have "(\<Sum>x\<leftarrow>side_planes. opt_ref (hb_proxy h1 x)) = R" using R [of None] assms(2) px by (simp add: fun_upd_idem)
  then have r: "hub_refs ?h2 = add_mset k (hub_refs h1)" using R [of "Some k"] by (simp add: hub_refs_def)
  from ref_inc [OF _ 1(2), of "hub_refs h1"] i(1) obtain ports where
    p: "h' = ?h2\<lparr>hb_ports := ports\<rparr>" "refs_eq (add_mset k (hub_refs h1)) ports" "same_ports (hb_ports ?h2) ports" by auto
  have "hub_inv now h'" unfolding p(1) inv_same [OF p(3)] r
    using p(2) i(2-5) by (simp add: hub_links_def hub_ids_def hub_pools_def hub_queues_def quick_objs_def slow_objs_def)
  then show ?thesis using p(1) px by simp
qed

lemma inv_make_proxies:
  "hub_inv now h \<Longrightarrow> \<forall>b\<in>set bs. hb_proxy h b = None \<Longrightarrow> distinct bs \<Longrightarrow> make_proxies e cfg bs h = Inr h' \<Longrightarrow> hub_inv now h'"
proof (induction bs arbitrary: h)
  case (Cons b bs)
  from Cons.prems(4) obtain h1 where h1: "gtphub_make_proxy e cfg b h = Inr h1" "make_proxies e cfg bs h1 = Inr h'" by (auto simp: ebind_Inr_iff)
  have "hub_inv now h1" "\<forall>b'. b' \<noteq> b \<longrightarrow> hb_proxy h1 b' = hb_proxy h b'"
    using inv_make_proxy [OF Cons.prems(1) _ h1(1)] Cons.prems(2) by auto
  moreover from this(2) have "\<forall>b\<in>set bs. hb_proxy h1 b = None" using Cons.prems(2,3) by (metis distinct.simps(2) list.set_intros(2))
  ultimately show ?case using Cons.IH [OF _ _ _ h1(2)] Cons.prems(3) by simp
qed simp

lemma inv_init: "hub_inv now (gtphub_init\<lparr>hb_local_addr := la, hb_restart_counter := rc, hb_sgsn_use_sender := us\<rparr>)"
  by (simp add: hub_inv_def gtphub_init_def hub_refs_def side_planes_def refs_eq_def ref_of_def hub_links_def hub_ids_def
      hub_pools_def hub_queues_def quick_objs_def slow_objs_def nr_pool_init_def pool_ok_def expiry_init_def expiry_ok_def)

lemma inv_start:
  assumes "gtphub_start e la px us rc = Inr h"
  shows "hub_inv now h"
proof (rule inv_make_proxies [OF inv_init _ _ assms [unfolded gtphub_start_def]])
  show "\<forall>b\<in>set side_planes. hb_proxy (gtphub_init\<lparr>hb_local_addr := la, hb_restart_counter := rc, hb_sgsn_use_sender := us\<rparr>) b = None"
    by (simp add: gtphub_init_def)
qed (simp add: side_planes_def)

text \<open>
  What happens to a running gtphub, at times that do not decrease: a datagram arrives on one of the four
  sockets, the garbage collection timer fires, a GGSN lookup is answered.
\<close>

inductive hub_reachable :: "('i, 'sa) hub_env \<Rightarrow> int \<Rightarrow> 'sa hub \<Rightarrow> bool" for e where
  hub_start: "gtphub_start e local_addr proxy use_sender restart_counter = Inr h \<Longrightarrow> hub_reachable e now h"
| hub_packet: "hub_reachable e t h \<Longrightarrow> t \<le> now \<Longrightarrow> now \<le> clk \<Longrightarrow>
    gtphub_read_cb e s pl from_addr buf len now clk h = Inr h' \<Longrightarrow> hub_reachable e clk h'"
| hub_gc: "hub_reachable e t h \<Longrightarrow> t \<le> now \<Longrightarrow> gtphub_gc now h = Inr h' \<Longrightarrow> hub_reachable e now h'"
| hub_answer: "hub_reachable e t h \<Longrightarrow> t \<le> now \<Longrightarrow> ggsn_lookup_cb e k answer now h = Inr h' \<Longrightarrow> hub_reachable e now h'"

lemma reachable_inv: "hub_reachable e now h \<Longrightarrow> hub_inv now h"
proof (induction rule: hub_reachable.induct)
  case hub_start then show ?case by (rule inv_start)
next
  case hub_packet
  from ensuresD [OF inv_read_cb [OF hub_packet.IH hub_packet.hyps(2,3)] hub_packet.hyps(4)] show ?case .
next
  case (hub_gc t h now h')
  then show ?case using gc_ok [of now h now] hub_inv_later [of t h now] by auto
next
  case hub_answer
  from ensuresD [OF inv_lookup_cb [OF hub_answer.IH hub_answer.hyps(2)] hub_answer.hyps(3)] show ?case .
qed

end
