(* ===== verification/Gtphub_Tei.thy ===== *)
theory Gtphub_Tei
  imports Gtphub_Ops
begin

section \<open>gtphub: replacement TEIs\<close>

text \<open>
  What \<open>gtphub_check_reused_teis\<close> leaves behind, and how a packet that sets up a PDP context gets
  there: the states in between, from the arrival of the packet to the handler that calls it.
\<close>

subsection \<open>The search for a free identifier\<close>

text \<open>A tunnel has a replacement TEI, and no other tunnel has the same one.\<close>

definition tei_unique :: "nat \<Rightarrow> 'sa hub \<Rightarrow> tunnel \<Rightarrow> bool" where
  "tei_unique k h t \<longleftrightarrow> tunnel_at h k = Inr t \<and> tn_tei_repl t \<noteq> 0 \<and>
     (\<forall>s\<in>set (hb_tunnels h). tn_id s \<noteq> k \<longrightarrow> tn_tei_repl s \<noteq> tn_tei_repl t)"

definition tei_apart :: "u32 \<Rightarrow> u32 \<Rightarrow> u32 \<Rightarrow> u32 \<Rightarrow> bool" where
  "tei_apart tei new lo hi \<longleftrightarrow> tei = 0 \<or> (lo \<le> tei \<and> tei \<le> hi \<and> tei \<noteq> new)"

lemma check_mapped_apart:
  assumes "gtphub_check_mapped_tei new tei lo hi = Some (new', lo', hi')" and "new \<noteq> 0"
  shows "new' \<noteq> 0" and "tei_apart tei new' lo' hi'" and "tei_apart x new lo hi \<Longrightarrow> tei_apart x new' lo' hi'"
proof -
  define l where "l = (if lo < tei then lo else tei)"
  define u where "u = (if hi > tei then hi else tei)"
  have lu: "unat l = min (unat lo) (unat tei)" "unat u = max (unat hi) (unat tei)"
    by (auto simp: l_def u_def word_less_nat_alt min_def max_def)
  have "new' \<noteq> 0 \<and> tei_apart tei new' lo' hi' \<and> (tei_apart x new lo hi \<longrightarrow> tei_apart x new' lo' hi')"
  proof (cases "tei = 0")
    case True
    then show ?thesis using assms by (auto simp: gtphub_check_mapped_tei_def tei_apart_def)
  next
    case nz: False
    have e: "gtphub_check_mapped_tei new tei lo hi = (if new \<noteq> tei then Some (new, l, u) else if u < 0xffffffff then Some (u + 1, l, u + 1)
        else if l > 1 then Some (l - 1, l - 1, u) else None)"
      using nz assms(2) unfolding gtphub_check_mapped_tei_def Let_def l_def u_def by (simp only: if_False simp_thms)
    consider "new \<noteq> tei" "new' = new" "lo' = l" "hi' = u"
      | "new = tei" "u < 0xffffffff" "new' = u + 1" "lo' = l" "hi' = u + 1"
      | "new = tei" "l > 1" "new' = l - 1" "lo' = l - 1" "hi' = u"
    proof -
      define c d where "c = (u < 0xffffffff)" and "d = (l > 1)"
      have "(if new \<noteq> tei then Some (new, l, u) else if c then Some (u + 1, l, u + 1) else if d then Some (l - 1, l - 1, u) else None) =
          Some (new', lo', hi')" using assms(1) unfolding e c_def d_def .
      then have "(new \<noteq> tei \<and> new' = new \<and> lo' = l \<and> hi' = u) \<or> (new = tei \<and> c \<and> new' = u + 1 \<and> lo' = l \<and> hi' = u + 1) \<or>
          (new = tei \<and> d \<and> new' = l - 1 \<and> lo' = l - 1 \<and> hi' = u)"
        by (auto split: if_split_asm)
      then show thesis using that unfolding c_def d_def by blast
    qed
    then show ?thesis
    proof cases
      case 1
      then show ?thesis using assms(2) lu by (auto simp: tei_apart_def word_le_nat_alt)
    next
      case 2
      have s: "unat (u + 1) = unat u + 1" using 2(2) by (simp add: word_less_nat_alt unat_word_ariths)
      then have "u + 1 \<noteq> 0" by (metis add_is_0 unat_0 zero_neq_one)
      then show ?thesis using 2 lu s by (auto simp: tei_apart_def word_le_nat_alt)
    next
      case 3
      have g: "unat l > 1" using 3(2) by (simp add: word_less_nat_alt)
      then have "l \<noteq> 0" by (auto simp: unat_eq_0)
      then have s: "unat (l - 1) = unat l - 1" by (rule unat_minus_one)
      then have "l - 1 \<noteq> 0" using g by (metis unat_0 zero_less_diff less_numeral_extra(3))
      then show ?thesis using 3 lu s g by (auto simp: tei_apart_def word_le_nat_alt)
    qed
  qed
  then show "new' \<noteq> 0" "tei_apart tei new' lo' hi'" "tei_apart x new lo hi \<Longrightarrow> tei_apart x new' lo' hi'" by auto
qed

lemma tunnel_at_upd:
  "(\<And>t. tn_id (u t) = tn_id t) \<Longrightarrow> tunnel_at (tunnel_upd k u h) j = (if j = k then ebind (tunnel_at h k) (\<lambda>t. Inr (u t)) else tunnel_at h j)"
  by (auto simp: tunnel_at_def tunnel_upd_def find_map_if deref_def ebind_def split: option.splits)

lemma check_loop_unique:
  assumes "check_reused_loop ks new lo hi h = Inr (True, h')" and "hub_inv now h"
    and "tunnel_at h new = Inr t2" and "tn_tei_repl t2 \<noteq> 0"
    and "\<forall>t\<in>set (hb_tunnels h). tn_id t \<in> D \<longrightarrow> tei_apart (tn_tei_repl t) (tn_tei_repl t2) lo hi"
    and "tn_id ` set (hb_tunnels h) \<subseteq> insert new (D \<union> set ks)" and "new \<notin> D"
  shows "\<exists>t2'. tei_unique new h' t2' \<and> tn_endpoint t2' = tn_endpoint t2"
  using assms
proof (induction ks arbitrary: lo hi h t2 D)
  case Nil
  then show ?case by (fastforce simp: tei_apart_def tei_unique_def)
next
  case (Cons k ks)
  show ?case
  proof (cases "k = new")
    case True
    then show ?thesis using Cons.prems by (intro Cons.IH [where D = D and h = h]) auto
  next
    case kn: False
    obtain t r where t: "tunnel_at h k = Inr t" "tunnel_reused side_planes t t2 h = Inr r"
      using Cons.prems(1,3) kn by (auto simp: ebind_Inr_iff)
    show ?thesis
    proof (cases r)
      case True
      obtain h1 where h1: "expiring_item_del (It_tunnel k) h = Inr h1" "check_reused_loop ks new lo hi h1 = Inr (True, h')"
        using Cons.prems(1,3) kn t True by (auto simp: ebind_Inr_iff)
      obtain ports where p: "h1 = (hub_unlink (It_tunnel k) h)\<lparr>hb_tunnels := filter (\<lambda>t. tn_id t \<noteq> k) (hb_tunnels h), hb_ports := ports\<rparr>" "hub_inv now h1"
        using del_tunnel [OF Cons.prems(2), of k] tunnel_at_in [OF t(1)] h1(1) by auto
      have f: "hb_tunnels h1 = filter (\<lambda>t. tn_id t \<noteq> k) (hb_tunnels h)" by (simp add: p(1))
      have "find (\<lambda>t. tn_id t = new) (filter (\<lambda>t. tn_id t \<noteq> k) ts) = find (\<lambda>t. tn_id t = new) ts" for ts :: "tunnel list" using kn by (induction ts) auto
      then have "tunnel_at h1 new = Inr t2" using Cons.prems(3) by (simp add: tunnel_at_def f)
      then show ?thesis using Cons.prems(4-7) by (intro Cons.IH [where D = D, OF h1(2) p(2)]) (auto simp: f)
    next
      case False
      then obtain tei lo' hi' where m: "gtphub_check_mapped_tei (tn_tei_repl t2) (tn_tei_repl t) lo hi = Some (tei, lo', hi')"
        and l: "check_reused_loop ks new lo' hi' (tunnel_upd new (\<lambda>t. t\<lparr>tn_tei_repl := tei\<rparr>) h) = Inr (True, h')"
        using Cons.prems(1,3) kn t by (auto split: option.split_asm)
      note ap = check_mapped_apart [OF m Cons.prems(4)]
      let ?h = "tunnel_upd new (\<lambda>t. t\<lparr>tn_tei_repl := tei\<rparr>) h"
      have i: "hub_inv now ?h" by (rule inv_tunnel_upd [OF Cons.prems(2)]) (simp_all add: tunnel_refs_def)
      have d: "distinct (map tn_id (hb_tunnels h))" using hub_inv_D(3) [OF Cons.prems(2)] by (simp add: hub_ids_def Let_def ids_ok_def)
      have at: "tunnel_at ?h new = Inr (t2\<lparr>tn_tei_repl := tei\<rparr>)" using Cons.prems(3) by (simp add: tunnel_at_upd)
      have "x = t" if "x \<in> set (hb_tunnels h)" "tn_id x = k" for x
        using find_key [OF d that(1)] t(1) that(2) by (simp add: tunnel_at_def)
      then have "\<forall>x\<in>set (hb_tunnels ?h). tn_id x \<in> insert k D \<longrightarrow> tei_apart (tn_tei_repl x) tei lo' hi'"
        using Cons.prems(5,7) ap kn by (auto simp: tunnel_upd_def)
      moreover have "tn_id ` set (hb_tunnels ?h) \<subseteq> insert new (insert k D \<union> set ks)"
        using Cons.prems(6) by (subst tunnel_upd_ids) auto
      ultimately have "\<exists>t2'. tei_unique new h' t2' \<and> tn_endpoint t2' = tn_endpoint (t2\<lparr>tn_tei_repl := tei\<rparr>)"
        using Cons.prems(7) kn ap(1) by (intro Cons.IH [where D = "insert k D", OF l i at]) auto
      then show ?thesis by simp
    qed
  qed
qed

lemma check_reused_unique:
  assumes "gtphub_check_reused_teis k h = Inr (True, h')" and "hub_inv now h" and "tunnel_at h k = Inr t" and "tn_tei_repl t \<noteq> 0"
  shows "\<exists>t'. tei_unique k h' t' \<and> tn_endpoint t' = tn_endpoint t"
  by (rule check_loop_unique [where D = "{}", OF assms(1) [unfolded gtphub_check_reused_teis_def] assms(2-4)]) auto

subsection \<open>The handler of create messages\<close>

lemma port_have_tunnels: "gtphub_port_have e b addr port h = Inr (pp, h') \<Longrightarrow> hb_tunnels h' = hb_tunnels h"
  by (auto simp: gtphub_port_have_def addr_have_port_def gtphub_addr_find_port_def gtphub_addr_add_port_def gtphub_addr_have_def
      gtphub_peer_new_def gtphub_peer_add_addr_def Let_def ebind_Inr_iff split: option.split_asm if_split_asm prod.split_asm)

lemma ref_opt_tunnels:
  "ref_dec_opt k h = Inr h' \<Longrightarrow> hb_tunnels h' = hb_tunnels h" "ref_inc_opt k h = Inr h' \<Longrightarrow> hb_tunnels h' = hb_tunnels h"
  by (auto simp: ref_dec_opt_def ref_inc_opt_def gtphub_port_ref_count_dec_def gtphub_port_ref_count_inc_def port_upd_def ebind_Inr_iff
      split: option.split_asm if_split_asm)

lemma set_peer_tunnels:
  assumes "gtphub_tunnel_endpoint_set_peer k b pp h = Inr h'"
  shows "hb_tunnels h' = hb_tunnels (tunnel_upd k (endpoint_upd b (\<lambda>te. te\<lparr>te_peer := pp\<rparr>)) h)"
  using assms ref_opt_tunnels by (fastforce simp: gtphub_tunnel_endpoint_set_peer_def ebind_Inr_iff tunnel_upd_def)

lemma create_map_unique:
  assumes "create_map_tei k b ie tei p h = Inr (p', h')" and "hub_inv now h" and "tunnel_at h k = Inr t"
    and "tn_tei_repl t \<noteq> 0" and "tei \<noteq> 0"
  shows "(\<exists>d. p' = p\<lparr>p_data := d\<rparr>) \<and>
    (\<exists>t'. tei_unique k h' t' \<and> (\<forall>b'. b' \<noteq> b \<longrightarrow> te_tei_orig (tn_endpoint t' b') = te_tei_orig (tn_endpoint t b')))"
proof -
  let ?h = "tunnel_upd k (endpoint_upd b (\<lambda>te. te\<lparr>te_tei_orig := tei\<rparr>)) h"
  have c: "gtphub_check_reused_teis k ?h = Inr (True, h')" "\<exists>d. p' = p\<lparr>p_data := d\<rparr>"
    using assms(1,5) by (auto simp: create_map_tei_def Let_def ebind_Inr_iff split: if_split_asm)
  have i: "hub_inv now ?h" by (rule inv_tunnel_upd [OF assms(2)]) (simp_all add: endpoint_tei_refs)
  have "tunnel_at ?h k = Inr (endpoint_upd b (\<lambda>te. te\<lparr>te_tei_orig := tei\<rparr>) t)" using assms(3) by (simp add: tunnel_at_upd)
  from check_reused_unique [OF c(1) i this] assms(4) c(2) show ?thesis by (auto simp: endpoint_upd_def)
qed

lemma create_rewrite_unique:
  assumes "create_rewrite e k b ie tei p h = Inr (0, p', h')" and "hub_inv now h" and "tunnel_at h k = Inr t"
    and "tn_tei_repl t \<noteq> 0" and "te_tei_orig (tn_endpoint t b) = 0"
  shows "(\<exists>d. p' = p\<lparr>p_data := d\<rparr>) \<and>
    (\<exists>t'. tei_unique k h' t' \<and> (\<forall>b'. b' \<noteq> b \<longrightarrow> te_tei_orig (tn_endpoint t' b') = te_tei_orig (tn_endpoint t b')))"
proof -
  from assms(1,3,5) obtain p1 addr i where 1: "tei \<noteq> 0" "create_map_tei k b ie tei p h = Inr (p1, h')" "gsn_addr_put e addr i p1 = Inr (0, p')"
    by (auto simp: create_rewrite_def ebind_Inr_iff split: if_split_asm)
  have "\<exists>d. p' = p1\<lparr>p_data := d\<rparr>" using 1(3) by (auto simp: gsn_addr_put_def ebind_Inr_iff split: if_split_asm option.split_asm)
  then show ?thesis using create_map_unique [OF 1(2) assms(2-4) 1(1)] by auto
qed

lemma create_endpoint_unique:
  assumes "create_endpoint e k b addr ie from p h = Inr (0, p', h')" and "hub_inv now h" and "tunnel_at h k = Inr t"
    and "tn_tei_repl t \<noteq> 0" and "te_tei_orig (tn_endpoint t b) = 0"
  shows "(\<exists>d. p' = p\<lparr>p_data := d\<rparr>) \<and>
    (\<exists>t'. tei_unique k h' t' \<and> (\<forall>b'. b' \<noteq> b \<longrightarrow> te_tei_orig (tn_endpoint t' b') = te_tei_orig (tn_endpoint t b')))"
proof -
  from assms(1) obtain tei addr' port pp h1 h2 where 1: "gtphub_port_have e b addr' port h = Inr (pp, h1)"
    and 2: "gtphub_tunnel_endpoint_set_peer k b pp h1 = Inr h2" and 3: "create_rewrite e k b ie tei p h2 = Inr (0, p', h')"
    by (auto simp: create_endpoint_def ebind_Inr_iff)
  have i: "hub_inv now h2" using ensuresD [OF inv_set_peer 2] ensuresD [OF inv_port_have [OF assms(2)] 1] by simp
  have "hb_tunnels h2 = hb_tunnels (tunnel_upd k (endpoint_upd b (\<lambda>te. te\<lparr>te_peer := pp\<rparr>)) h)"
    using set_peer_tunnels [OF 2] port_have_tunnels [OF 1] by (simp add: tunnel_upd_def)
  then have "tunnel_at h2 k = tunnel_at (tunnel_upd k (endpoint_upd b (\<lambda>te. te\<lparr>te_peer := pp\<rparr>)) h) k" by (simp add: tunnel_at_def)
  then have t: "tunnel_at h2 k = Inr (endpoint_upd b (\<lambda>te. te\<lparr>te_peer := pp\<rparr>) t)" using assms(3) by (simp add: tunnel_at_upd)
  from create_rewrite_unique [OF 3 i t] assms(4,5) show ?thesis by (auto simp: endpoint_upd_def)
qed

lemma create_planes_unique:
  assumes "create_planes e k [CTRL, USER] from p h = Inr (0, p', h')" and "hub_inv now h" and "tunnel_at h k = Inr t"
    and "tn_tei_repl t \<noteq> 0" and "\<And>pl. te_tei_orig (tn_endpoint t (p_side p, pl)) = 0"
  shows "p_tun p' = p_tun p \<and> (\<exists>t'. tei_unique k h' t')"
proof -
  from assms(1) obtain addr ie p1 h1 addr' ie' where
    1: "create_endpoint e k (p_side p, CTRL) addr ie from p h = Inr (0, p1, h1)"
    and 2: "create_endpoint e k (p_side p1, USER) addr' ie' from p1 h1 = Inr (0, p', h')"
    by (auto simp: Let_def ebind_Inr_iff split: option.split_asm if_split_asm)
  from create_endpoint_unique [OF 1 assms(2-4) assms(5)] obtain t1 where
    t1: "\<exists>d. p1 = p\<lparr>p_data := d\<rparr>" "tei_unique k h1 t1" "te_tei_orig (tn_endpoint t1 (p_side p, USER)) = 0"
    using assms(5) [of USER] by auto
  have i: "hub_inv now h1" using ensuresD [OF inv_create_endpoint [OF assms(2)] 1] by simp
  have s: "p_side p1 = p_side p" "p_tun p1 = p_tun p" using t1(1) by auto
  from create_endpoint_unique [OF 2 i] t1(2,3) s(1) have "\<exists>d. p' = p1\<lparr>p_data := d\<rparr>" "\<exists>t'. tei_unique k h' t'"
    by (auto simp: tei_unique_def)
  moreover from this(1) have "p_tun p' = p_tun p1" by auto
  ultimately show ?thesis using s(2) by simp
qed

lemma pool_next_nonzero:
  assumes "hub_pools h" and "nr_pool_next (hb_tei_pool h) = (tei, pool)"
  shows "tei \<noteq> 0"
proof -
  have p: "pool_ok (hb_tei_pool h)" "np_min (hb_tei_pool h) = 1" using assms(1) by (auto simp: hub_pools_def)
  have "np_min pool \<le> tei" "np_min pool = 1" using pool_next_pos(1,2,4) [OF p(1)] assms(2) p(2) by (simp_all add: pool_ok_def)
  then show ?thesis by (auto simp: word_le_nat_alt)
qed

lemma expiry_add_tunnels: "hub_expiry_add i now h = Inr h' \<Longrightarrow> hb_tunnels h' = hb_tunnels h"
  by (auto simp: hub_expiry_add_def ebind_Inr_iff split: if_split_asm)

lemma create_request_unique:
  assumes "gtphub_handle_create_pdp_ctx e from to p h = Inr (0, p', h')" and "p_type p = GTP_CREATE_PDP_REQ"
    and "hub_inv now h" and "now \<le> p_timestamp p"
  shows "\<exists>t. tei_unique (hb_next h) h' t"
proof -
  obtain tei pool where n: "nr_pool_next (hb_tei_pool h) = (tei, pool)" by fastforce
  let ?t = "\<lparr>tn_id = hb_next h, tn_tei_repl = tei, tn_endpoint = (\<lambda>_. \<lparr>te_peer = None, te_tei_orig = 0\<rparr>)\<rparr>"
  let ?h1 = "h\<lparr>hb_tei_pool := pool, hb_tunnels := ?t # hb_tunnels h, hb_next := Suc (hb_next h)\<rparr>"
  have new: "gtphub_tunnel_new tei (h\<lparr>hb_tei_pool := pool\<rparr>) = (hb_next h, ?h1)" by (simp add: gtphub_tunnel_new_def Let_def)
  from assms(1,2) n new obtain h2 h3 where
    2: "hub_expiry_add (It_tunnel (hb_next h)) (p_timestamp p) ?h1 = Inr h2"
    and 3: "gtphub_tunnel_endpoint_set_peer (hb_next h) (GGSN, CTRL) (Some to) h2 = Inr h3"
    and 4: "create_planes e (hb_next h) [CTRL, USER] from (p\<lparr>p_tun := Some (hb_next h)\<rparr>) h3 = Inr (0, p', h')"
    by (auto simp: gtphub_handle_create_pdp_ctx_def Let_def ebind_Inr_iff simp del: create_planes.simps split: if_split_asm)
  have i: "hub_inv (p_timestamp p) h3"
    using ensuresD [OF inv_set_peer [OF ensuresD [OF inv_new_tunnel [OF assms(3,4) n new] 2]] 3] .
  let ?u = "endpoint_upd (GGSN, CTRL) (\<lambda>te. te\<lparr>te_peer := Some to\<rparr>)"
  have "hb_tunnels h3 = hb_tunnels (tunnel_upd (hb_next h) ?u ?h1)"
    using set_peer_tunnels [OF 3] expiry_add_tunnels [OF 2] by (simp add: tunnel_upd_def)
  then have "tunnel_at h3 (hb_next h) = Inr (?u ?t)" by (simp add: tunnel_at_def tunnel_upd_def)
  moreover have "tn_tei_repl (?u ?t) \<noteq> 0"
    using pool_next_nonzero [OF hub_inv_D(4) [OF assms(3)] n] by (simp add: endpoint_upd_def)
  moreover have "te_tei_orig (tn_endpoint (?u ?t) b) = 0" for b by (simp add: endpoint_upd_def)
  ultimately show ?thesis using create_planes_unique [OF 4 i] by blast
qed

subsection \<open>From the arrival of a packet to the handler\<close>

text \<open>What comes before the handler adds no tunnel and removes none.\<close>

lemma addr_have_port_tunnels: "addr_have_port e a port h = Inr (pp, h') \<Longrightarrow> hb_tunnels h' = hb_tunnels h"
  by (auto simp: addr_have_port_def gtphub_addr_find_port_def gtphub_addr_add_port_def Let_def ebind_Inr_iff split: option.split_asm)

lemma known_addr_tunnels: "gtphub_known_addr_have_port e b sa h = Inr (pp, h') \<Longrightarrow> hb_tunnels h' = hb_tunnels h"
  by (auto simp: gtphub_known_addr_have_port_def dest: addr_have_port_tunnels split: option.split_asm)

lemma sender_tunnels: "sender_peer e b sa h = Inr (pp, h') \<Longrightarrow> hb_tunnels h' = hb_tunnels h"
  by (cases "hb_proxy h b"; cases "gsn_addr_from_sockaddr e sa")
     (auto simp: sender_peer_def ebind_Inr_iff dest!: known_addr_tunnels port_have_tunnels split: if_split_asm)

definition tunnel_ids :: "'sa hub \<Rightarrow> nat list" where
  "tunnel_ids h = map tn_id (hb_tunnels h)"

lemma tunnel_ids_cong: "hb_tunnels h' = hb_tunnels h \<Longrightarrow> tunnel_ids h' = tunnel_ids h"
  by (simp add: tunnel_ids_def)

lemma set_peer_ids: "gtphub_tunnel_endpoint_set_peer k b pp h = Inr h' \<Longrightarrow> tunnel_ids h' = tunnel_ids h"
  by (auto simp: tunnel_ids_def tunnel_upd_def dest!: set_peer_tunnels)

lemma send_del_ids: "gtphub_send_del_pdp_ctx k s h = Inr h' \<Longrightarrow> tunnel_ids h' = tunnel_ids h"
  by (auto simp: gtphub_send_del_pdp_ctx_def Let_def ebind_Inr_iff tunnel_ids_def hub_emit_def peer_upd_def split_beta
      split: option.split_asm)

lemma restarted_side_ids: "restarted_side pp k s h = Inr h' \<Longrightarrow> tunnel_ids h' = tunnel_ids h"
  by (auto simp: restarted_side_def ebind_Inr_iff dest!: send_del_ids set_peer_ids split: option.split_asm if_split_asm)

lemma restarted_ids: "gtphub_restarted_loop pp ks h = Inr h' \<Longrightarrow> tunnel_ids h' = tunnel_ids h"
  by (induction ks arbitrary: h) (auto simp: ebind_Inr_iff dest!: restarted_side_ids)

lemma check_restart_ids: "gtphub_check_restart_counter e p from h = Inr h' \<Longrightarrow> tunnel_ids h' = tunnel_ids h"
  by (auto simp: gtphub_check_restart_counter_def gtphub_restarted_def Let_def ebind_Inr_iff port_upd_def tunnel_ids_def
      dest!: restarted_ids split: if_split_asm)

lemma unmap_tei_tunnels: "gtphub_unmap_tei p from h = Inr (r, h') \<Longrightarrow> hb_tunnels h' = hb_tunnels h"
  by (auto simp: gtphub_unmap_tei_def ebind_Inr_iff dest!: expiry_add_tunnels split: option.split_asm)

lemma unmap_header_tei_tunnels:
  "gtphub_unmap_header_tei p from h = Inr (rc, to, p', h') \<Longrightarrow> hb_tunnels h' = hb_tunnels h \<and> p_type p' = p_type p \<and> p_plane p' = p_plane p"
  by (auto simp: gtphub_unmap_header_tei_def set_tei_def Let_def ebind_Inr_iff dest!: unmap_tei_tunnels split: option.split_asm if_split_asm)

lemma unmap_seq_kind: "gtphub_unmap_seq from h p = Inr (r, p') \<Longrightarrow> p_type p' = p_type p \<and> p_plane p' = p_plane p"
  by (auto simp: gtphub_unmap_seq_def set_seq_def ebind_Inr_iff split: option.split_asm if_split_asm)

lemma unmap_tunnels:
  assumes "gtphub_unmap p from proxy h = Inr (rc, to, seq, p', h')"
  shows "hb_tunnels h' = hb_tunnels h \<and> p_type p' = p_type p \<and> p_plane p' = p_plane p"
proof -
  from assms obtain fs p1 rc1 ft where 1: "gtphub_unmap_seq from h (p\<lparr>p_tun := None\<rparr>) = Inr (fs, p1)"
    and 2: "gtphub_unmap_header_tei p1 from h = Inr (rc1, ft, p', h')"
    by (auto simp: gtphub_unmap_def Let_def ebind_Inr_iff split: if_split_asm)
  show ?thesis using unmap_seq_kind [OF 1] unmap_header_tei_tunnels [OF 2] by simp
qed

lemma resolve_tunnels: "gtphub_resolve_ggsn e p clk h = Inr (rc, to, h') \<Longrightarrow> hb_tunnels h' = hb_tunnels h"
  by (auto simp: gtphub_resolve_ggsn_def gtphub_resolve_ggsn_addr_def start_ares_query_def hub_emit_def Let_def split_beta ebind_Inr_iff
      dest!: expiry_add_tunnels split: if_split_asm option.split_asm)

lemma mapping_have_tunnels: "gtphub_mapping_have peer from nr now h = Inr (m, h') \<Longrightarrow> hb_tunnels h' = hb_tunnels h"
  by (auto simp: gtphub_mapping_have_def nr_map_add_def gtphub_port_ref_count_inc_def port_upd_def peer_upd_def Let_def split_beta ebind_Inr_iff
      dest!: expiry_add_tunnels split: if_split_asm option.split_asm)

lemma map_seq_tunnels: "gtphub_map_seq from to p h = Inr (p', h') \<Longrightarrow> hb_tunnels h' = hb_tunnels h"
  by (auto simp: gtphub_map_seq_def ebind_Inr_iff dest: mapping_have_tunnels)

lemma tei_unique_cong: "hb_tunnels h' = hb_tunnels h \<Longrightarrow> tei_unique k h' t = tei_unique k h t"
  by (simp add: tei_unique_def tunnel_at_def)

lemma ctr_tunnels [simp]: "hb_tunnels (rate_ctr_add g c n h) = hb_tunnels h"
  by (simp add: rate_ctr_add_def)

text \<open>A create request that is forwarded has made a tunnel.\<close>

lemma forward_unique:
  assumes "hub_forward e from to seq n p h = Inr ((rc, Some fwd), h')" and "p_type p = GTP_CREATE_PDP_REQ" and "p_plane p = CTRL"
    and "hub_inv now h" and "now \<le> p_timestamp p"
  shows "\<exists>k t. k \<notin> set (tunnel_ids h) \<and> tei_unique k h' t"
proof -
  from assms(1-3) obtain p1 h1 p2 h2 where 1: "gtphub_handle_create_pdp_ctx e from to p h = Inr (0, p1, h1)"
    and 2: "(if seq = None then gtphub_map_seq from to p1 h1 else Inr (p1, h1)) = (Inr (p2, h2) :: _ exec)"
    and 3: "hb_tunnels h' = hb_tunnels h2"
    by (auto simp: hub_forward_def gtphub_handle_pdp_ctx_def Let_def ebind_Inr_iff split: if_split_asm option.split_asm)
  have "hb_tunnels h2 = hb_tunnels h1" using 2 map_seq_tunnels by (fastforce split: if_split_asm)
  then have "\<exists>t. tei_unique (hb_next h) h' t"
    using create_request_unique [OF 1 assms(2,4,5)] 3 by (simp add: tei_unique_cong [of h' h1])
  moreover have "hb_next h \<notin> set (tunnel_ids h)"
    using hub_inv_D(3) [OF assms(4)] by (auto simp: hub_ids_def Let_def ids_ok_def tunnel_ids_def)
  ultimately show ?thesis by blast
qed

lemma map_restart_kind: "gtphub_map_restart_counter e h p = Inr p' \<Longrightarrow> \<exists>d. p' = p\<lparr>p_data := d\<rparr>"
  by (auto simp: gtphub_map_restart_counter_def ebind_Inr_iff intro: exI [of _ "p_data p"] split: if_split_asm option.split_asm)

lemma route_unique:
  assumes "hub_route e from n clk p h = Inr ((rc, Some fwd), h')" and "p_type p = GTP_CREATE_PDP_REQ" and "p_plane p = CTRL"
    and "hub_inv now h" and "now \<le> p_timestamp p" and "p_timestamp p \<le> clk"
  shows "\<exists>k t. k \<notin> set (tunnel_ids h) \<and> tei_unique k h' t"
proof -
  let ?h = "rate_ctr_add (Ctr_port from) PKTS_IN 1 (rate_ctr_add (Ctr_port from) BYTES_IN n h)"
  obtain h1 p1 rc1 to seq p2 h2 where 1: "gtphub_check_restart_counter e p from ?h = Inr h1" "gtphub_map_restart_counter e h1 p = Inr p1"
    and 2: "gtphub_unmap p1 from (hb_proxy h1 (other_side (p_side p1), p_plane p1)) h1 = Inr (rc1, to, seq, p2, h2)"
    using assms(1) by (auto simp: hub_route_def Let_def ebind_Inr_iff)
  have p1: "p_timestamp p1 = p_timestamp p" "p_type p1 = p_type p" "p_plane p1 = p_plane p" using map_restart_kind [OF 1(2)] by auto
  have i1: "hub_inv now h1" using ensuresD [OF inv_check_restart 1(1)] assms(4) by simp
  have i2: "hub_inv (p_timestamp p) h2" "p_timestamp p2 = p_timestamp p"
    using ensuresD [OF inv_unmap [OF i1] 2] assms(5) p1(1) by simp_all
  have 3: "hb_tunnels h2 = hb_tunnels h1" "p_type p2 = GTP_CREATE_PDP_REQ" "p_plane p2 = CTRL" using unmap_tunnels [OF 2] p1 assms(2,3) by simp_all
  define h3 where "h3 = (case p_tun p2 of None \<Rightarrow> h2 | Some k \<Rightarrow> rate_ctr_add (Ctr_endpoint k (p_side p, p_plane p)) PKTS_IN 1
      (rate_ctr_add (Ctr_endpoint k (p_side p, p_plane p)) BYTES_IN n h2))"
  have i3: "hub_inv (p_timestamp p) h3" "hb_tunnels h3 = hb_tunnels h2" using i2(1) by (simp_all add: h3_def split: option.split)
  have "rc1 = 0" using assms(1) 1 2 by (auto simp: hub_route_def Let_def split: if_split_asm)
  then have "ebind (if to = None \<and> p_side p2 = SGSN then gtphub_resolve_ggsn e p2 clk h3 else Inr (0, to, h3)) (\<lambda>(rc, to_peer, h).
      if rc < 0 then Inr ((-1, None), h) else hub_dispatch e from seq n p2 to_peer h) = Inr ((rc, Some fwd), h')"
    using assms(1) 1 2 unfolding hub_route_def Let_def h3_def by (simp split del: if_split)
  then obtain rc4 k h4 where
    4: "(if to = None \<and> p_side p2 = SGSN then gtphub_resolve_ggsn e p2 clk h3 else Inr (0, to, h3)) = (Inr (rc4, Some k, h4) :: _ exec)"
    and 5: "hub_forward e from k seq n p2 h4 = Inr ((rc, Some fwd), h')"
    unfolding ebind_Inr_iff by (auto simp: hub_dispatch_def ebind_Inr_iff split: if_split_asm option.split_asm)
  have i4: "hub_inv (p_timestamp p) h4" using 4 i3(1) ensuresD [OF inv_resolve [OF i3(1) assms(6)]] by (fastforce split: if_split_asm)
  have "hb_tunnels h4 = hb_tunnels h1" using 4 i3(2) 3(1) resolve_tunnels by (fastforce split: if_split_asm)
  then have "tunnel_ids h4 = tunnel_ids h" using check_restart_ids [OF 1(1)] by (simp add: tunnel_ids_def)
  then show ?thesis using forward_unique [OF 5 3(2,3) i4] i2(2) by simp
qed

lemma handle_buf_unique:
  assumes "gtphub_handle_buf e s CTRL sa buf n now clk h = Inr ((rc, Some fwd), h')" and "gtp_decode e buf n s CTRL now = Inr p"
    and "p_type p = GTP_CREATE_PDP_REQ" and "hub_inv t h" and "t \<le> now" and "now \<le> clk"
  shows "\<exists>k t. k \<notin> set (tunnel_ids h) \<and> tei_unique k h' t"
proof -
  let ?h = "rate_ctr_add (Ctr_bind (s, CTRL)) PKTS_IN 1 (rate_ctr_add (Ctr_bind (s, CTRL)) BYTES_IN n h)"
  obtain k h1 where 1: "sender_peer e (s, CTRL) sa ?h = Inr (Some k, h1)" "hub_route e k n clk p h1 = Inr ((rc, Some fwd), h')"
    using assms(1,2,3)
    by (auto simp: gtphub_handle_buf_def GTP_CREATE_PDP_REQ_def GTP_ECHO_REQ_def Let_def ebind_Inr_iff split: option.split_asm if_split_asm)
  have i: "hub_inv t h1" using ensuresD [OF inv_sender 1(1)] assms(4) by simp
  have "tunnel_ids h1 = tunnel_ids h" using sender_tunnels [OF 1(1)] by (simp add: tunnel_ids_def)
  then show ?thesis using route_unique [OF 1(2) assms(3) _ i] ensuresD [OF decode_timestamp assms(2)] assms(5,6) by simp
qed

end
