(* ===== verification/Gtphub_Props.thy ===== *)
theory Gtphub_Props
  imports Gtphub_Tei
begin

unbundle bit_operations_syntax

section \<open>gtphub: what packets and numbers go through\<close>

text \<open>
  The properties of gtphub, with an example of a run: an SGSN sets up PDP contexts through gtphub with
  a GGSN that is configured as a proxy.
\<close>

text \<open>
  C1. Safety: in every state gtphub reaches from its start by packets, finished name lookups and
  garbage collection, the count of every port is the number of references to it that mappings, tunnel
  endpoints, resolved GGSNs and proxies hold, and each of these ports is there with its address and its peer, as is the peer
  of every mapping; identities are unique, the number pools are within their intervals and the expiry queues list
  exactly the objects there are, in the order of their expiry.  The tunnel a pending delete points at is not
  counted and not among these references: it may have been freed (stale_pending_delete).  Nor is the lookup a query that is still running was given.
\<close>

theorem gtphub_refs_counted:
  assumes "hub_reachable e now h"
  shows "hub_inv now h \<and> (\<forall>k. k \<in># hub_refs h \<longrightarrow> (\<exists>addr peer. port_addr h k = Inr addr \<and> port_peer h k = Inr peer))"
proof (intro conjI allI impI)
  show i: "hub_inv now h" by (rule reachable_inv [OF assms])
  fix k assume k: "k \<in># hub_refs h"
  then have "ref_of (hb_ports h) k > 0" using hub_inv_D(1) [OF i] unfolding refs_eq_def by (metis count_greater_zero_iff)
  then obtain pp where pp: "find (\<lambda>pp. pp_id pp = k) (hb_ports h) = Some pp" by (auto simp: ref_of_def split: option.splits)
  then have "pp_addr pp \<in> pa_id ` set (hb_addrs h)" using hub_inv_D(2) [OF i] find_keyD [OF pp] by (auto simp: hub_links_def)
  from find_in [OF this] obtain pa where pa: "find (\<lambda>pa. pa_id pa = pp_addr pp) (hb_addrs h) = Some pa" by blast
  then have "pa_peer pa \<in> pr_id ` set (hb_peers h)" using hub_inv_D(2) [OF i] find_keyD [OF pa] by (auto simp: hub_links_def)
  from find_in [OF this] pp pa show "\<exists>addr peer. port_addr h k = Inr addr \<and> port_peer h k = Inr peer"
    by (auto simp: port_addr_def port_peer_def port_at_def addr_at_def peer_at_def)
qed

text \<open>
  Deleting a tunnel leaves the pending deletes for it behind: until they expire they point at a tunnel that is gone.
  gtphub does not follow this pointer, it only compares it with those of tunnels that are there.
\<close>

lemma stale_pending_delete:
  assumes "hub_inv now h" and "pd_tun pd \<in> tn_id ` set (hb_tunnels h)" and "pd \<in> set (hb_pending_deletes h)"
  shows "\<exists>h'. expiring_item_del (It_tunnel (pd_tun pd)) h = Inr h' \<and> hub_inv now h' \<and>
    pd \<in> set (hb_pending_deletes h') \<and> pd_tun pd \<notin> tn_id ` set (hb_tunnels h')"
proof -
  have "hb_pending_deletes (hub_unlink i h) = hb_pending_deletes h" for i by (simp add: hub_unlink_def)
  then show ?thesis using del_tunnel [OF assms(1,2)] assms(3) by fastforce
qed

text \<open>
  C7. Liveness: in every reachable state the garbage collection runs to its end without a failed
  assertion or access to a freed object, and what it leaves is exactly what has not expired, in both queues.
\<close>

theorem gtphub_gc_live:
  assumes "hub_reachable e t h"
  shows "\<exists>h'. gtphub_gc now h = Inr h' \<and>
    quick_objs h' = fst ` {x \<in> set (ex_items (hb_expire_quickly h)). now < snd x} \<and>
    slow_objs h' = fst ` {x \<in> set (ex_items (hb_expire_slowly h)). now < snd x}"
proof -
  obtain h' where h': "gtphub_gc now h = Inr h'" "hub_inv t h'"
    "ex_items (hb_expire_quickly h') = filter (\<lambda>x. now < snd x) (ex_items (hb_expire_quickly h))"
    "ex_items (hb_expire_slowly h') = filter (\<lambda>x. now < snd x) (ex_items (hb_expire_slowly h))"
    using gc_ok [OF reachable_inv [OF assms]] by blast
  have "quick_objs h' = fst ` set (ex_items (hb_expire_quickly h'))" "slow_objs h' = fst ` set (ex_items (hb_expire_slowly h'))"
    using hub_inv_D(5) [OF h'(2)] by (simp_all add: hub_queues_def)
  then show ?thesis using h' by auto
qed

text \<open>
  C31. The numbers a pool hands out are in its interval, and n numbers in a row are different from
  each other exactly as long as n is at most the size of the interval: after that they
  repeat, whether or not they are still in use.
\<close>

theorem nr_pool_distinct:
  assumes "np_min pool \<le> np_last pool" and "np_last pool \<le> np_max pool"
  shows "(distinct (nr_pool_take n pool) \<longleftrightarrow> n \<le> unat (np_max pool) - unat (np_min pool) + 1) \<and>
    (\<forall>nr\<in>set (nr_pool_take n pool). np_min pool \<le> nr \<and> nr \<le> np_max pool)"
proof (intro conjI ballI)
  have ok: "pool_ok pool" using assms by (simp add: pool_ok_def)
  have nth: "unat (nr_pool_take n pool ! i) = unat (np_min pool) + (pool_pos pool + Suc i) mod pool_size pool" if "i < n" for n i
    by (rule pool_take_nth [OF ok that])
  have "\<not> distinct (nr_pool_take n pool)" if "pool_size pool < n"
  proof -
    have "unat (nr_pool_take n pool ! 0) = unat (nr_pool_take n pool ! pool_size pool)"
      using that nth [of 0 n] nth [of "pool_size pool" n] mod_add_self2 [of "Suc (pool_pos pool)" "pool_size pool"] by simp
    then have "nr_pool_take n pool ! 0 = nr_pool_take n pool ! pool_size pool" by (simp only: word_unat_eq_iff)
    moreover have "0 < pool_size pool" by (simp add: pool_size_def)
    ultimately show ?thesis using that unfolding distinct_conv_nth pool_take_length by (metis less_trans less_not_refl)
  qed
  then show d: "distinct (nr_pool_take n pool) \<longleftrightarrow> n \<le> unat (np_max pool) - unat (np_min pool) + 1"
    using pool_take_distinct [OF ok] by (metis leI pool_size_def)
next
  fix nr assume nr: "nr \<in> set (nr_pool_take n pool)"
  have ok: "pool_ok pool" using assms by (simp add: pool_ok_def)
  have le: "unat (np_min pool) \<le> unat (np_max pool)" using assms by (simp add: word_le_nat_alt)
  from nr obtain i where "i < n" "nr = nr_pool_take n pool ! i" by (auto simp: in_set_conv_nth)
  then have "unat nr = unat (np_min pool) + (pool_pos pool + Suc i) mod pool_size pool" using pool_take_nth [OF ok] by blast
  moreover have "(pool_pos pool + Suc i) mod pool_size pool < pool_size pool" by (simp add: pool_size_def)
  ultimately have "unat (np_min pool) \<le> unat nr \<and> unat nr \<le> unat (np_max pool)" using le unfolding pool_size_def by linarith
  then have "np_min pool \<le> nr" "nr \<le> np_max pool" by (simp_all add: word_le_nat_alt)
  then show "np_min pool \<le> nr" "nr \<le> np_max pool" .
qed

theorem nr_pool_distinct_witness:
  "distinct (nr_pool_take 3 (nr_pool_init 5 7)) \<and> \<not> distinct (nr_pool_take 4 (nr_pool_init 5 7))"
proof -
  have p: "np_min (nr_pool_init 5 7) \<le> np_last (nr_pool_init 5 7)" "np_last (nr_pool_init 5 7) \<le> np_max (nr_pool_init 5 7)"
    by (simp_all add: nr_pool_init_def)
  show ?thesis using nr_pool_distinct [OF p, of 3] nr_pool_distinct [OF p, of 4] by (simp add: nr_pool_init_def)
qed

subsection \<open>Headers\<close>

lemma rdn_in: "i + n \<le> length mem \<Longrightarrow> rdn mem i n = Inr (take n (drop i mem))"
  by (simp add: rdn_def)

text \<open>
  C20. Reading the header of a packet of any content and length stays inside the receive buffer, if that has
  room for a long header.  A packet is accepted exactly if it is of version 0 and has only a header or the length its header
  says, or is of version 1 and has a header of 8 or of 12 octets alone or the length its header says; what has been read from it is then the type,
  TEI and sequence number of its header, and the length of the header.
\<close>

theorem validate_header_safe:
  assumes "12 \<le> length (p_data p)" and "p_data_len p \<le> length (p_data p)"
    and "v = unat (drop_bit 5 (p_data p ! 0))" and "announced = unat (ntoh16 (take 2 (drop 2 (p_data p))))"
    and "bare \<longleftrightarrow> (v = 0 \<and> p_data_len p = 20) \<or> (v = 1 \<and> (p_data_len p = 8 \<or> p_data_len p = 12))"
  shows "\<exists>p'. validate_gtp_header p = Inr p' \<and> p_data p' = p_data p \<and> p_data_len p' = p_data_len p \<and>
    (gtp_rc_val (p_rc p') > 0 \<longleftrightarrow> bare \<or> (v = 0 \<and> 20 < p_data_len p \<and> p_data_len p = announced + 20) \<or>
       (v = 1 \<and> 12 < p_data_len p \<and> p_data_len p = announced + 8)) \<and>
    (gtp_rc_val (p_rc p') > 0 \<longrightarrow>
       p_version p' = v \<and> p_type p' = p_data p ! 1 \<and> p_rc p' = (if bare then RC_TINY else RC_PDU_C) \<and>
       p_header_len p' = (if v = 0 then 20 else if bare then 8 else 12) \<and>
       p_seq p' = ntoh16 (take 2 (drop (if v = 0 then 4 else 8) (p_data p))) \<and>
       p_header_tei p' = (if v = 0 then 0 else ntoh32 (take 4 (drop 4 (p_data p)))) \<and> p_header_tei_rx p' = p_header_tei p')"
proof (cases "p_data_len p < 1")
  case True
  then show ?thesis using assms(5) by (auto simp: validate_gtp_header_def gtp_rc_val_def)
next
  case False
  let ?p = "p\<lparr>p_rc := RC_UNKNOWN, p_version := v\<rparr>"
  have r: "rd (p_data p) 0 = Inr (p_data p ! 0)" "rd (p_data p) 1 = Inr (p_data p ! 1)" using assms(1) by (auto simp: rd_def)
  have s: "rdn (p_data p) 2 2 = Inr (take 2 (drop 2 (p_data p)))" "rdn (p_data p) 4 2 = Inr (take 2 (drop 4 (p_data p)))"
    "rdn (p_data p) 4 4 = Inr (take 4 (drop 4 (p_data p)))" "rdn (p_data p) 8 2 = Inr (take 2 (drop 8 (p_data p)))"
    using assms(1) by (simp_all add: rdn_in)
  have val: "validate_gtp_header p = (if v = 0 then validate_gtp0_header ?p else if v = 1 then validate_gtp1_header ?p
      else Inr (?p\<lparr>p_rc := RC_UNSUPPORTED_VERSION\<rparr>))"
    using False r by (simp add: validate_gtp_header_def Let_def assms(3))
  consider "v = 0" | "v = 1" | "v > 1" by linarith
  then show ?thesis
  proof cases
    case 1
    then show ?thesis using False r s assms(4,5) val
      by (auto simp: validate_gtp0_header_def Let_def gtp_consts gtp_rc_val_def)
  next
    case 2
    then show ?thesis using False r s assms(4,5) val
      by (auto simp: validate_gtp1_header_def Let_def gtp_consts gtp_rc_val_def)
  next
    case 3
    then show ?thesis using assms(5) val by (auto simp: gtp_rc_val_def)
  qed
qed

subsection \<open>Replacement of identifiers\<close>

text \<open>
  C8. When a Create PDP Context Request that arrives in a reachable state is forwarded, there is a new tunnel
  afterwards, and its replacement TEI, whether it is the next number of the pool or one that gtphub_check_reused_teis
  has put in its place, is not 0 and is different from the replacement TEI of every other tunnel there is then.
\<close>

theorem created_tei_unique:
  assumes "hub_reachable e t0 h" and "t0 \<le> now" and "now \<le> clk"
    and "gtp_decode e buf n s CTRL now = Inr p" and "p_type p = GTP_CREATE_PDP_REQ"
    and "gtphub_handle_buf e s CTRL from_addr buf n now clk h = Inr ((rc, Some fwd), h')"
  shows "\<exists>k t. k \<notin> tn_id ` set (hb_tunnels h) \<and> tunnel_at h' k = Inr t \<and> tn_tei_repl t \<noteq> 0 \<and>
    (\<forall>t'\<in>set (hb_tunnels h'). tn_id t' \<noteq> k \<longrightarrow> tn_tei_repl t' \<noteq> tn_tei_repl t)"
  using handle_buf_unique [OF assms(6,4,5) reachable_inv [OF assms(1)] assms(2,3)]
  by (simp add: tei_unique_def tunnel_ids_def)

subsection \<open>An example\<close>

text \<open>
  Socket addresses that are pairs of an address and a port, and information elements at fixed places: the two TEIs
  behind the header, then the two GSN addresses.
\<close>

definition env_example :: "(unit, octets \<times> u16) hub_env" where
  "env_example =
     \<lparr>gtpie_decaps = (\<lambda>_ _ _ _. Some ()),
      gtpie_getie = (\<lambda>_ ty i. if ty = GTPIE_TEI_C \<and> i = 0 then Some 12 else if ty = GTPIE_TEI_DI \<and> i = 0 then Some 17
        else if ty = GTPIE_GSN_ADDR \<and> i < 2 then Some (22 + 7 * i) else None),
      gtpie_gettv0 = (\<lambda>_ _ _ _ _. None),
      gtpie_gettv1 = (\<lambda>_ _ _ _. None),
      gtpie_gettlv = (\<lambda>_ d ty i _. if ty = GTPIE_GSN_ADDR \<and> i < 2 then Some (take 4 (drop (25 + 7 * i) d)) else None),
      osmo_apn_to_str = (\<lambda>_. None), osmo_apn_qualify_from_imsi = (\<lambda>_ s _. s), sgsn_ares_query_rc = (\<lambda>_. 0),
      gsn_addr_from_sockaddr = Some, gsn_addr_to_sockaddr = (\<lambda>a p. Some (a, p))\<rparr>"

definition create_req :: octets where
  "create_req = [0x32, 16, 0, 28, 0, 0, 0, 0, 0x12, 0x34, 0, 0,
     17, 0, 0, 0, 1, 16, 0, 0, 0, 2, 133, 0, 4, 10, 0, 0, 1, 133, 0, 4, 10, 0, 0, 2]"

definition proxy_example :: "side \<times> plane \<Rightarrow> (octets \<times> u16) option" where
  "proxy_example b = (if fst b = GGSN then Some ([192, 0, 2, 1], default_port (snd b)) else None)"

definition from_sgsn :: "octets \<Rightarrow> side \<times> plane \<times> (octets \<times> u16) \<times> octets" where
  "from_sgsn pkt = (SGSN, CTRL, ([10, 0, 0, 1], 2123), pkt)"

definition from_ggsn :: "octets \<Rightarrow> side \<times> plane \<times> (octets \<times> u16) \<times> octets" where
  "from_ggsn pkt = (GGSN, CTRL, ([192, 0, 2, 1], 2123), pkt)"

definition hub_run :: "(side \<times> plane \<times> (octets \<times> u16) \<times> octets) list \<Rightarrow> (octets \<times> u16) hub exec" where
  "hub_run pkts = foldl (\<lambda>r (s, pl, sa, pkt). ebind r (\<lambda>h. gtphub_read_cb env_example s pl sa
     (pkt @ replicate 20 0) (length pkt) 100 100 h))
     (gtphub_start env_example (\<lambda>b. [192, 0, 2, 99]) proxy_example False 7) pkts"

definition create_req2 :: octets where
  "create_req2 = [0x32, 16, 0, 28, 0, 0, 0, 0, 0x12, 0x35, 0, 0,
     17, 0, 0, 0, 3, 16, 0, 0, 0, 4, 133, 0, 4, 10, 0, 0, 1, 133, 0, 4, 10, 0, 0, 2]"

lemma hub_run_reachable: "hub_run pkts = Inr h \<Longrightarrow> hub_reachable env_example 100 h"
proof (induction pkts arbitrary: h rule: rev_induct)
  case Nil
  then show ?case by (auto simp: hub_run_def intro: hub_start)
next
  case (snoc pkt pkts)
  from snoc.prems obtain h0 where "hub_run pkts = Inr h0"
    "gtphub_read_cb env_example (fst pkt) (fst (snd pkt)) (fst (snd (snd pkt)))
       (snd (snd (snd pkt)) @ replicate 20 0) (length (snd (snd (snd pkt)))) 100 100 h0 = Inr h"
    by (auto simp: hub_run_def ebind_Inr_iff split_beta)
  then show ?case using hub_packet [OF snoc.IH] by blast
qed

theorem created_tei_unique_witness:
  "\<exists>h p r h' k t. hub_run [from_sgsn create_req] = Inr h \<and> hb_tunnels h \<noteq> [] \<and>
     gtp_decode env_example (create_req2 @ replicate 20 0) 36 SGSN CTRL 100 = Inr p \<and> p_type p = GTP_CREATE_PDP_REQ \<and>
     gtphub_handle_buf env_example SGSN CTRL ([10, 0, 0, 1], 2123) (create_req2 @ replicate 20 0) 36 100 100 h = Inr (r, h') \<and>
     k \<notin> tn_id ` set (hb_tunnels h) \<and> tunnel_at h' k = Inr t \<and> tn_tei_repl t \<noteq> 0 \<and>
     (\<forall>t'\<in>set (hb_tunnels h'). tn_id t' \<noteq> k \<longrightarrow> tn_tei_repl t' \<noteq> tn_tei_repl t)"
proof -
  have "case hub_run [from_sgsn create_req] of Inl _ \<Rightarrow> False | Inr h \<Rightarrow> hb_tunnels h \<noteq> [] \<and>
      (case gtphub_handle_buf env_example SGSN CTRL ([10, 0, 0, 1], 2123) (create_req2 @ replicate 20 0) 36 100 100 h of
         Inl _ \<Rightarrow> False | Inr ((rc, fwd), h') \<Rightarrow> fwd \<noteq> None)"
    by code_simp
  then obtain h rc fwd h' where h: "hub_run [from_sgsn create_req] = Inr h" "hb_tunnels h \<noteq> []"
    "gtphub_handle_buf env_example SGSN CTRL ([10, 0, 0, 1], 2123) (create_req2 @ replicate 20 0) 36 100 100 h = Inr ((rc, Some fwd), h')"
    by (auto split: sum.split_asm)
  have "case gtp_decode env_example (create_req2 @ replicate 20 0) 36 SGSN CTRL 100 of Inl _ \<Rightarrow> False | Inr p \<Rightarrow> p_type p = GTP_CREATE_PDP_REQ"
    by code_simp
  then obtain p where p: "gtp_decode env_example (create_req2 @ replicate 20 0) 36 SGSN CTRL 100 = Inr p" "p_type p = GTP_CREATE_PDP_REQ"
    by (auto split: sum.split_asm)
  from created_tei_unique [OF hub_run_reachable [OF h(1)] order_refl order_refl p h(3)] h p show ?thesis by blast
qed

theorem gtphub_refs_counted_witness:
  "\<exists>h. hub_run [from_sgsn create_req] = Inr h \<and> hub_refs h \<noteq> {#} \<and> hub_inv 100 h \<and>
     (\<forall>k. k \<in># hub_refs h \<longrightarrow> (\<exists>addr peer. port_addr h k = Inr addr \<and> port_peer h k = Inr peer))"
proof -
  have "case hub_run [from_sgsn create_req] of Inl _ \<Rightarrow> False | Inr h \<Rightarrow> hb_mappings h \<noteq> []" by code_simp
  then obtain h where h: "hub_run [from_sgsn create_req] = Inr h" "hb_mappings h \<noteq> []" by (auto split: sum.split_asm)
  then have "hub_refs h \<noteq> {#}" by (cases "hb_mappings h") (auto simp: hub_refs_def)
  then show ?thesis using h(1) gtphub_refs_counted [OF hub_run_reachable [OF h(1)]] by blast
qed

theorem gtphub_gc_live_witness:
  "\<exists>h h'. hub_run [from_sgsn create_req] = Inr h \<and> gtphub_gc 130 h = Inr h' \<and> quick_objs h \<noteq> {} \<and> quick_objs h' = {}"
proof -
  have "case hub_run [from_sgsn create_req] of Inl _ \<Rightarrow> False | Inr h \<Rightarrow> hb_mappings h \<noteq> [] \<and>
      filter (\<lambda>x. 130 < snd x) (ex_items (hb_expire_quickly h)) = []" by code_simp
  then obtain h where h: "hub_run [from_sgsn create_req] = Inr h" "hb_mappings h \<noteq> []" "filter (\<lambda>x. 130 < snd x) (ex_items (hb_expire_quickly h)) = []"
    by (auto split: sum.split_asm)
  then have "quick_objs h \<noteq> {}" by (auto simp: quick_objs_def)
  then show ?thesis using gtphub_gc_live [OF hub_run_reachable [OF h(1)], of 130] h by (fastforce simp: filter_empty_conv)
qed

lemma same_ports_find:
  assumes "same_ports ps qs"
  shows "map_option pp_addr (find (\<lambda>pp. pp_id pp = k) ps) = map_option pp_addr (find (\<lambda>pp. pp_id pp = k) qs)"
proof -
  have "map pp_id ps = map pp_id qs \<Longrightarrow> map pp_addr ps = map pp_addr qs \<Longrightarrow> ?thesis"
  proof (induction ps arbitrary: qs)
    case (Cons x ps)
    then show ?case by (cases qs) simp_all
  qed simp
  then show ?thesis using same_ports_key [OF assms] by blast
qed

lemma port_peer_same:
  assumes "port_peer h k = Inr pr" and "same_ports (hb_ports h') (hb_ports h)" and "hb_addrs h' = hb_addrs h"
    and "hb_peers h' = map (\<lambda>pr. if pr_id pr = j then pr\<lparr>pr_seq_pool := pool\<rparr> else pr) (hb_peers h) \<or> hb_peers h' = hb_peers h"
  shows "\<exists>pr'. port_peer h' k = Inr pr' \<and> pr_id pr' = pr_id pr"
proof -
  obtain pp pa where pp: "find (\<lambda>pp. pp_id pp = k) (hb_ports h) = Some pp" and pa: "find (\<lambda>pa. pa_id pa = pp_addr pp) (hb_addrs h) = Some pa"
    and pr: "find (\<lambda>pr. pr_id pr = pa_peer pa) (hb_peers h) = Some pr"
    using assms(1) by (auto simp: port_peer_def port_at_def addr_at_def peer_at_def deref_def ebind_Inr_iff split: option.splits)
  obtain pp' where pp': "find (\<lambda>pp. pp_id pp = k) (hb_ports h') = Some pp'" "pp_addr pp' = pp_addr pp"
    using same_ports_find [OF assms(2), of k] pp by auto
  show ?thesis using pp' pa pr assms(3,4)
    by (auto simp: port_peer_def port_at_def addr_at_def peer_at_def deref_def find_map_if)
qed

lemma mapping_have_found:
  assumes "hub_inv now h" and "now \<le> now'" and "gtphub_mapping_have peer origin nr now' h = Inr (m, h')" and "port_peer h k = Inr pr"
  shows "m \<in> set (hb_mappings h') \<and> mp_map m = peer \<and> mp_origin m = origin \<and> mp_orig m = nr \<and>
    (\<exists>pr'. port_peer h' k = Inr pr' \<and> pr_id pr' = pr_id pr)"
proof (cases "nr_map_get h peer origin nr")
  case (Some m')
  then have "m' \<in> set (hb_mappings h) \<and> mp_map m' = peer \<and> mp_origin m' = origin \<and> mp_orig m' = nr"
    by (auto simp: nr_map_get_def find_Some_iff)
  moreover obtain q where "m = m'" "h' = h\<lparr>hb_expire_slowly := q\<rparr> \<or> h' = h\<lparr>hb_expire_quickly := q\<rparr>"
    using assms(3) Some by (auto simp: gtphub_mapping_have_def ebind_Inr_iff hub_expiry_add_def split: if_splits)
  moreover have "\<exists>pr'. port_peer h' k = Inr pr' \<and> pr_id pr' = pr_id pr"
    using calculation by (intro port_peer_same [OF assms(4), where j = 0]) auto
  ultimately show ?thesis by auto
next
  case None
  then obtain pr0 where pr0: "peer_at h peer = Inr pr0"
    using assms(3) by (auto simp: gtphub_mapping_have_def nr_map_add_def ebind_Inr_iff)
  obtain repl pool where np: "nr_pool_next (pr_seq_pool pr0) = (repl, pool)" by (cases "nr_pool_next (pr_seq_pool pr0)")
  obtain h2 q where m: "m = \<lparr>mp_id = hb_next h, mp_map = peer, mp_origin = origin, mp_orig = nr, mp_repl = repl\<rparr>"
    and h2: "h2 = ((peer_upd peer (\<lambda>pr. pr\<lparr>pr_seq_pool := pool\<rparr>) h)\<lparr>hb_mappings := hb_mappings h @ [m], hb_next := Suc (hb_next h)\<rparr>)\<lparr>hb_expire_quickly := q\<rparr>"
    and h': "gtphub_port_ref_count_inc origin h2 = Inr h'"
    using assms(3) None
    by (auto simp: gtphub_mapping_have_def nr_map_add_def pr0 np ebind_Inr_iff Let_def hub_expiry_add_def expires_slowly_def)
  have "refs_eq (hub_refs h) (hb_ports h2)" using hub_inv_D(1) [OF assms(1)] by (simp add: h2 peer_upd_def)
  from ref_inc [OF this h'] obtain ports where p: "h' = h2\<lparr>hb_ports := ports\<rparr>" "same_ports (hb_ports h2) ports" by blast
  have s: "same_ports (hb_ports h') (hb_ports h)" using same_ports_sym [OF p(2)] by (simp add: p(1) h2 peer_upd_def)
  have "\<exists>pr'. port_peer h' k = Inr pr' \<and> pr_id pr' = pr_id pr"
    by (rule port_peer_same [OF assms(4) s, where j = peer and pool = pool]) (simp_all add: p(1) h2 peer_upd_def)
  then show ?thesis by (simp add: p(1) h2 m)
qed

lemma find_distinct_key:
  assumes "distinct (map f (filter P xs))" and "x \<in> set xs" and "P x"
  shows "find (\<lambda>y. P y \<and> f y = f x) xs = Some x"
  using assms by (induction xs) (auto simp: find_None_iff split: if_splits)

lemma set_seq_ok:
  "p_version p = 1 \<Longrightarrow> 10 \<le> length (p_data p) \<Longrightarrow>
   set_seq s p = Inr (p\<lparr>p_data := take 8 (p_data p) @ hton16 s @ drop 10 (p_data p), p_seq := s\<rparr>)"
  by (simp add: set_seq_def osmo_assert_def wrn_def hton16_def)

text \<open>
  C13. Round trip of sequence numbers: the response of the receiver to a request whose sequence number has been
  mapped is given back the original number and goes to the port the request came from, as
  long as the replacement numbers in use at that peer are different from each other.
\<close>

theorem seq_map_roundtrip:
  assumes "hub_reachable e now h" and "now \<le> p_timestamp p" and "gtphub_map_seq fr to p h = Inr (p', h')"
    and "port_peer h to = Inr pr" and "distinct (map mp_repl (filter (\<lambda>m. mp_map m = pr_id pr) (hb_mappings h')))"
    and "p_version rsp = 1" and "10 \<le> length (p_data rsp)" and "p_seq rsp = p_seq p'"
  shows "gtphub_unmap_seq to h' rsp =
    Inr (Some fr, rsp\<lparr>p_data := take 8 (p_data rsp) @ hton16 (p_seq p) @ drop 10 (p_data rsp), p_seq := p_seq p\<rparr>)"
proof -
  note i = reachable_inv [OF assms(1)]
  obtain m where m: "gtphub_mapping_have (pr_id pr) fr (ucast (p_seq p)) (p_timestamp p) h = Inr (m, h')" "p_seq p' = ucast (mp_repl m)"
    using assms(3,4) by (auto simp: gtphub_map_seq_def ebind_Inr_iff set_seq_def split: if_splits)
  note f = mapping_have_found [OF i assms(2) m(1) assms(4)]
  then obtain pr' where pr': "port_peer h' to = Inr pr'" "pr_id pr' = pr_id pr" by blast
  have "hub_inv (p_timestamp p) h'" using ensuresD [OF inv_mapping_have [OF i assms(2)] m(1)] by simp
  then have "mp_repl m \<le> 0xffff" using f hub_inv_D(4) by (auto simp: hub_pools_def)
  then have "(ucast (ucast (mp_repl m) :: u16) :: u32) = mp_repl m"
    by (simp add: word_le_nat_alt word_unat_eq_iff unsigned_ucast_eq unsigned_take_bit_eq take_bit_nat_eq_self)
  then have "nr_map_get_inv h' (pr_id pr) (ucast (p_seq rsp)) = Some m"
    using find_distinct_key [OF assms(5), of m] f by (simp add: nr_map_get_inv_def assms(8) m(2))
  moreover have "(ucast (ucast (p_seq p) :: u32) :: u16) = p_seq p"
  proof -
    have "unat (p_seq p) < 2 ^ 16" using unsigned_less [of "p_seq p"] by simp
    then show ?thesis by (simp add: word_unat_eq_iff unsigned_ucast_eq unsigned_take_bit_eq take_bit_nat_eq_self)
  qed
  ultimately show ?thesis using assms(6,7) pr' f by (simp add: gtphub_unmap_seq_def osmo_assert_def set_seq_ok)
qed

definition packet_example :: "u16 \<Rightarrow> unit gtp_packet" where
  "packet_example seq = (zero_packet (create_req @ replicate 20 0) 36 SGSN CTRL 100)\<lparr>p_version := 1, p_seq := seq\<rparr>"

theorem seq_map_roundtrip_witness:
  "\<exists>h fr to p' h' rsp. hub_run [from_sgsn create_req] = Inr h \<and> gtphub_map_seq fr to (packet_example 0x4321) h = Inr (p', h') \<and> p_seq p' \<noteq> 0x4321 \<and>
     gtphub_unmap_seq to h' (packet_example (p_seq p')) = Inr (Some fr, rsp) \<and> p_seq rsp = 0x4321"
proof -
  have "case hub_run [from_sgsn create_req] of Inl _ \<Rightarrow> False | Inr h \<Rightarrow>
      (case port_peer h (the (hb_proxy h (GGSN, CTRL))) of Inl _ \<Rightarrow> False | Inr pr \<Rightarrow>
      (case gtphub_map_seq (mp_origin (hb_mappings h ! 0)) (the (hb_proxy h (GGSN, CTRL))) (packet_example 0x4321) h of Inl _ \<Rightarrow> False
       | Inr (p', h') \<Rightarrow> p_seq p' \<noteq> 0x4321 \<and> distinct (map mp_repl (filter (\<lambda>m. mp_map m = pr_id pr) (hb_mappings h')))))"
    by code_simp
  then obtain h pr p' h' fr to where h: "hub_run [from_sgsn create_req] = Inr h" "port_peer h to = Inr pr"
    "gtphub_map_seq fr to (packet_example 0x4321) h = Inr (p', h')" "p_seq p' \<noteq> 0x4321"
    "distinct (map mp_repl (filter (\<lambda>m. mp_map m = pr_id pr) (hb_mappings h')))"
    by (auto split: sum.split_asm)
  have p: "p_version (packet_example s) = 1" "10 \<le> length (p_data (packet_example s))" "p_seq (packet_example s) = s"
    "100 \<le> p_timestamp (packet_example s)" for s
    by (simp_all add: packet_example_def zero_packet_def create_req_def)
  from seq_map_roundtrip [OF hub_run_reachable [OF h(1)] p(4) h(3,2,5) p(1-3)] obtain rsp
    where "gtphub_unmap_seq to h' (packet_example (p_seq p')) = Inr (Some fr, rsp)" "p_seq rsp = 0x4321" by (simp add: p(3))
  with h show ?thesis by blast
qed

text \<open>
  C38. A packet of GTP version 0 that is accepted by the header checks, is not an echo request and comes from
  a sender that gtphub takes packets from stops the program at an assertion: once the restart counter has been checked and
  replaced, the mapping of numbers demands version 1.
\<close>

theorem gtp0_packet_aborts:
  assumes "gtp_decode e buf n s pl now = Inr p" and "gtp_rc_val (p_rc p) > 0" and "p_version p = 0" and "p_type p \<noteq> GTP_ECHO_REQ"
    and "sender_peer e (s, pl) sa (rate_ctr_add (Ctr_bind (s, pl)) PKTS_IN 1 (rate_ctr_add (Ctr_bind (s, pl)) BYTES_IN n h)) = Inr (Some k, h')"
    and "gtphub_check_restart_counter e p k (rate_ctr_add (Ctr_port k) PKTS_IN 1 (rate_ctr_add (Ctr_port k) BYTES_IN n h')) = Inr h1"
    and "gtphub_map_restart_counter e h1 p = Inr p1"
  shows "gtphub_handle_buf e s pl sa buf n now clk h = Inl Assert_fail"
proof -
  have "p_version p1 = 0" using assms(3,7) by (auto simp: gtphub_map_restart_counter_def ebind_Inr_iff split: if_splits option.splits)
  then have "gtphub_unmap p1 k x h1 = Inl Assert_fail" for x by (simp add: gtphub_unmap_def gtphub_unmap_seq_def osmo_assert_def)
  then have "hub_route e k n clk p h' = Inl Assert_fail" using assms(6,7) by (simp add: hub_route_def Let_def)
  then show ?thesis using assms(1,2,4,5) by (simp add: gtphub_handle_buf_def Let_def)
qed

theorem gtp0_packet_aborts_witness:
  "\<exists>h. gtphub_start env_example (\<lambda>b. [192, 0, 2, 99]) proxy_example False 7 = Inr h \<and>
     gtphub_handle_buf env_example SGSN CTRL ([10, 0, 0, 1], 2123) (0x1e # 3 # replicate 30 0) 20 100 100 h = Inl Assert_fail"
proof -
  let ?b = "0x1e # 3 # replicate 30 0 :: octets" and ?sa = "([10, 0, 0, 1], 2123) :: octets \<times> u16"
  have "case gtp_decode env_example ?b 20 SGSN CTRL 100 of Inl _ \<Rightarrow> False
      | Inr p \<Rightarrow> gtp_rc_val (p_rc p) > 0 \<and> p_version p = 0 \<and> p_type p \<noteq> GTP_ECHO_REQ \<and> p_ie p = None" by code_simp
  then obtain p where p: "gtp_decode env_example ?b 20 SGSN CTRL 100 = Inr p" "gtp_rc_val (p_rc p) > 0" "p_version p = 0" "p_type p \<noteq> GTP_ECHO_REQ"
    and ie: "p_ie p = None" by (auto split: sum.split_asm)
  have "case gtphub_start env_example (\<lambda>b. [192, 0, 2, 99]) proxy_example False 7 of Inl _ \<Rightarrow> False
      | Inr h \<Rightarrow> (case sender_peer env_example (SGSN, CTRL) ?sa
          (rate_ctr_add (Ctr_bind (SGSN, CTRL)) PKTS_IN 1 (rate_ctr_add (Ctr_bind (SGSN, CTRL)) BYTES_IN 20 h)) of
          Inl _ \<Rightarrow> False | Inr (k, h') \<Rightarrow> k \<noteq> None)" by code_simp
  then obtain h k h' where h: "gtphub_start env_example (\<lambda>b. [192, 0, 2, 99]) proxy_example False 7 = Inr h"
    "sender_peer env_example (SGSN, CTRL) ?sa (rate_ctr_add (Ctr_bind (SGSN, CTRL)) PKTS_IN 1 (rate_ctr_add (Ctr_bind (SGSN, CTRL)) BYTES_IN 20 h))
       = Inr (Some k, h')"
    by (auto split: sum.split_asm)
  have "getie env_example p ty i = None" for ty i using ie by (simp add: getie_def)
  then have "gtphub_check_restart_counter env_example p k h1 = Inr h1" "gtphub_map_restart_counter env_example h1 p = Inr p" for h1
    by (simp_all add: gtphub_check_restart_counter_def get_restart_count_def gtphub_map_restart_counter_def)
  from gtp0_packet_aborts [OF p h(2) this] h(1) show ?thesis by blast
qed

theorem validate_header_safe_witness:
  "\<exists>p'. validate_gtp_header (zero_packet (create_req @ replicate 20 0) 36 SGSN CTRL 0 :: unit gtp_packet) = Inr p' \<and> p_rc p' = RC_PDU_C \<and> p_header_tei p' = 0"
proof -
  let ?p = "zero_packet (create_req @ replicate 20 0) 36 SGSN CTRL 0 :: unit gtp_packet"
  have l: "12 \<le> length (p_data ?p)" "p_data_len ?p \<le> length (p_data ?p)" by (simp_all add: zero_packet_def create_req_def)
  have v: "unat (drop_bit 5 (p_data ?p ! 0)) = 1" "unat (ntoh16 (take 2 (drop 2 (p_data ?p)))) = 28" "p_data_len ?p = 36"
    "ntoh32 (take 4 (drop 4 (p_data ?p))) = 0" by code_simp+
  from validate_header_safe [OF l refl refl refl] v show ?thesis by auto
qed

subsection \<open>User plane\<close>

lemma set_seq_D:
  "set_seq s p = Inr p' \<Longrightarrow> p_version p = 1 \<and> 10 \<le> length (p_data p) \<and>
   p' = p\<lparr>p_data := take 8 (p_data p) @ hton16 s @ drop 10 (p_data p), p_seq := s\<rparr>"
  by (auto simp: set_seq_def wrn_def hton16_def ebind_Inr_iff split: if_splits)

lemma set_tei_D:
  "set_tei s p = Inr p' \<Longrightarrow> p_version p = 1 \<and> 8 \<le> length (p_data p) \<and>
   p' = p\<lparr>p_data := take 4 (p_data p) @ hton32 s @ drop 8 (p_data p), p_header_tei := s\<rparr>"
  by (auto simp: set_tei_def wrn_def hton32_def ebind_Inr_iff split: if_splits)

text \<open>The tunnel a packet is for has the TEI of its header and, on the side it came from, the address of its sender.\<close>

definition tunnel_of :: "'i gtp_packet \<Rightarrow> nat \<Rightarrow> 'sa hub \<Rightarrow> tunnel \<Rightarrow> bool" where
  "tunnel_of p k h t \<longleftrightarrow> t \<in> set (hb_tunnels h) \<and> tn_tei_repl t = p_header_tei_rx p \<and>
     (\<exists>q addr. te_peer (tn_endpoint t (p_side p, p_plane p)) = Some q \<and> port_addr h q = Inr addr \<and> port_addr h k = Inr addr)"

lemma find_tei_of:
  "find_tei ts b tei addr h = Inr (Some t) \<Longrightarrow>
   t \<in> set ts \<and> tn_tei_repl t = tei \<and> (\<exists>q. te_peer (tn_endpoint t b) = Some q \<and> port_addr h q = Inr addr)"
  by (induction ts) (auto simp: ebind_Inr_iff split: if_splits option.splits)

lemma unmap_header_tei_D:
  assumes "gtphub_unmap_header_tei p k h = Inr (rc, q, p', h')" and "rc = 0" and "p_header_tei_rx p \<noteq> 0"
  shows "\<exists>t. tunnel_of p k h t \<and> set_tei (te_tei_orig (tn_endpoint t (other_side (p_side p), p_plane p))) (p\<lparr>p_tun := Some (tn_id t)\<rparr>) = Inr p' \<and>
    q = te_peer (tn_endpoint t (other_side (p_side p), p_plane p))"
  using assms
  by (auto simp: gtphub_unmap_header_tei_def gtphub_unmap_tei_def tunnel_of_def ebind_Inr_iff Let_def dest!: find_tei_of split: if_splits option.splits)

lemma unmap_seq_D:
  "gtphub_unmap_seq k h p = Inr (q, p') \<Longrightarrow> q = None \<and> p' = p \<or> q \<noteq> None \<and> (\<exists>s. set_seq s p = Inr p')"
  by (auto simp: gtphub_unmap_seq_def ebind_Inr_iff split: if_splits option.splits)

lemma unmap_D:
  assumes "gtphub_unmap p k x h = Inr (rc, q, from_seq, p', h')" and "rc = 0" and "p_header_tei_rx p \<noteq> 0"
  shows "\<exists>t p1. tunnel_of p k h t \<and> (from_seq = None \<and> p1 = p\<lparr>p_tun := None\<rparr> \<or> from_seq \<noteq> None \<and> (\<exists>s. set_seq s (p\<lparr>p_tun := None\<rparr>) = Inr p1)) \<and>
    set_tei (te_tei_orig (tn_endpoint t (other_side (p_side p), p_plane p))) (p1\<lparr>p_tun := Some (tn_id t)\<rparr>) = Inr p'"
proof -
  obtain q1 p1 rc1 q2 where s: "gtphub_unmap_seq k h (p\<lparr>p_tun := None\<rparr>) = Inr (q1, p1)" and t: "gtphub_unmap_header_tei p1 k h = Inr (rc1, q2, p', h')"
    and r: "\<not> rc1 < 0" "from_seq = q1 \<or> (q1 = None \<and> from_seq = None)"
    using assms(1,2) by (auto simp: gtphub_unmap_def ebind_Inr_iff Let_def split: if_splits)
  have rc1: "rc1 = 0" using t r(1)
    by (auto simp: gtphub_unmap_header_tei_def ebind_Inr_iff Let_def split: if_splits option.splits)
  have p1: "q1 = None \<and> p1 = p\<lparr>p_tun := None\<rparr> \<or> q1 \<noteq> None \<and> (\<exists>s. set_seq s (p\<lparr>p_tun := None\<rparr>) = Inr p1)"
    using unmap_seq_D [OF s] by simp
  then have "p_header_tei_rx p1 = p_header_tei_rx p" "p_side p1 = p_side p" "p_plane p1 = p_plane p"
    by (auto dest!: set_seq_D)
  then show ?thesis using unmap_header_tei_D [OF t rc1] assms(3) p1 r(2) by (auto simp: tunnel_of_def)
qed

lemma tunnel_of_ctr [simp]: "tunnel_of p k (rate_ctr_add g c n h) t = tunnel_of p k h t"
  by (simp add: tunnel_of_def rate_ctr_add_def port_addr_def port_at_def addr_at_def)

lemma hub_forward_user:
  assumes "hub_forward e fr to from_seq n p h = Inr ((rc, Some (bs, b, sa)), h')" and "p_plane p = USER"
  shows "b = (other_side (p_side p), USER) \<and> rc = int n \<and> (p_tun p \<noteq> None \<or> p_type p = GTP_DELETE_PDP_RSP) \<and>
    (\<exists>p'. (from_seq \<noteq> None \<and> p' = p \<or> from_seq = None \<and> (\<exists>s. set_seq s p = Inr p')) \<and> bs = take n (p_data p'))"
proof -
  obtain p' h1 where m: "(if from_seq = None then gtphub_map_seq fr to p h else Inr (p, h)) = Inr (p', h1)" and bs: "bs = take n (p_data p')"
    and r: "b = (other_side (p_side p), USER)" "rc = int n" "p_tun p \<noteq> None \<or> p_type p = GTP_DELETE_PDP_RSP"
    using assms by (auto simp: hub_forward_def ebind_Inr_iff Let_def split: if_split_asm)
  have "from_seq \<noteq> None \<and> p' = p \<or> from_seq = None \<and> (\<exists>s. set_seq s p = Inr p')"
    using m by (auto simp: gtphub_map_seq_def ebind_Inr_iff split: if_splits)
  then show ?thesis using bs r by blast
qed

text \<open>What \<open>hub_route\<close> does with a packet that carries no information elements: the numbers are unmapped and the packet is sent on.\<close>

lemma route_without_ie:
  assumes "p_ie p = None" and "hub_route e k n clk p h = Inr ((rc, Some (bs, b, sa)), h')"
  obtains q from_seq p2 h1 h2 k' h3 where "h1 = rate_ctr_add (Ctr_port k) PKTS_IN 1 (rate_ctr_add (Ctr_port k) BYTES_IN n h)"
    "gtphub_unmap p k (hb_proxy h1 (other_side (p_side p), p_plane p)) h1 = Inr (0, q, from_seq, p2, h2)"
    "hub_forward e k k' from_seq n p2 h3 = Inr ((rc, Some (bs, b, sa)), h')"
proof -
  let ?h = "rate_ctr_add (Ctr_port k) PKTS_IN 1 (rate_ctr_add (Ctr_port k) BYTES_IN n h)"
  have "getie e p ty i = None" for ty i using assms(1) by (simp add: getie_def)
  then have "gtphub_check_restart_counter e p k ?h = Inr ?h" "gtphub_map_restart_counter e ?h p = Inr p"
    by (simp_all add: gtphub_check_restart_counter_def get_restart_count_def gtphub_map_restart_counter_def)
  with assms(2) obtain q from_seq p2 h2 to h3 where u: "gtphub_unmap p k (hb_proxy ?h (other_side (p_side p), p_plane p)) ?h = Inr (0, q, from_seq, p2, h2)"
    and d: "hub_dispatch e k from_seq n p2 to h3 = Inr ((rc, Some (bs, b, sa)), h')"
    by (auto simp: hub_route_def ebind_Inr_iff Let_def split: if_split_asm)
  from d obtain k' where "hub_forward e k k' from_seq n p2 h3 = Inr ((rc, Some (bs, b, sa)), h')"
    by (auto simp: hub_dispatch_def ebind_Inr_iff split: option.split_asm if_split_asm)
  with u show ?thesis by (rule that [OF refl])
qed

lemma forward_with_tei:
  assumes "p_plane p = USER" and "p_header_tei_rx p \<noteq> 0" and "gtphub_unmap p k proxy h1 = Inr (0, q, from_seq, p2, h2)"
    and "hub_forward e k k' from_seq n p2 h3 = Inr ((rc, Some (bs, b, sa)), h')"
  shows "b = (other_side (p_side p), USER) \<and> rc = int n \<and> (\<exists>t seq. tunnel_of p k h1 t \<and>
    bs = take n (take 4 (p_data p) @ hton32 (te_tei_orig (tn_endpoint t b)) @ hton16 seq @ drop 10 (p_data p)))"
proof -
  obtain t p1 where t: "tunnel_of p k h1 t" and p1: "from_seq = None \<and> p1 = p\<lparr>p_tun := None\<rparr> \<or> from_seq \<noteq> None \<and> (\<exists>s. set_seq s (p\<lparr>p_tun := None\<rparr>) = Inr p1)"
    and p2: "set_tei (te_tei_orig (tn_endpoint t (other_side (p_side p), p_plane p))) (p1\<lparr>p_tun := Some (tn_id t)\<rparr>) = Inr p2"
    using unmap_D [OF assms(3) refl assms(2)] by auto
  have s: "p_plane p2 = USER" "p_side p2 = p_side p" using p1 set_tei_D [OF p2] assms(1) by (auto dest!: set_seq_D)
  obtain p3 where b: "b = (other_side (p_side p), USER)" "rc = int n" "bs = take n (p_data p3)"
    and p3: "from_seq \<noteq> None \<and> p3 = p2 \<or> from_seq = None \<and> (\<exists>s. set_seq s p2 = Inr p3)"
    using hub_forward_user [OF assms(4) s(1)] s(2) by auto
  obtain seq where "p_data p3 = take 4 (p_data p) @ hton32 (te_tei_orig (tn_endpoint t b)) @ hton16 seq @ drop 10 (p_data p)"
    using p1 p3 set_tei_D [OF p2] assms(1) b(1)
    by (auto dest!: set_seq_D simp: hton32_def hton16_def)
  then show ?thesis using b t by metis
qed

lemma forward_without_tei:
  assumes "p_plane p = USER" and "p_header_tei_rx p = 0" and "gtphub_unmap p k proxy h1 = Inr (0, q, from_seq, p2, h2)"
    and "hub_forward e k k' from_seq n p2 h3 = Inr ((rc, Some (bs, b, sa)), h')"
  shows "b = (other_side (p_side p), USER) \<and> rc = int n \<and> p_type p = GTP_DELETE_PDP_RSP \<and>
    (\<exists>seq. bs = take n (take 8 (p_data p) @ hton16 seq @ drop 10 (p_data p)))"
proof -
  obtain q1 p1 rc1 q2 where s: "gtphub_unmap_seq k h1 (p\<lparr>p_tun := None\<rparr>) = Inr (q1, p1)" and t: "gtphub_unmap_header_tei p1 k h1 = Inr (rc1, q2, p2, h2)"
    and r: "from_seq = q1 \<or> (q1 = None \<and> from_seq = None)"
    using assms(3) by (auto simp: gtphub_unmap_def ebind_Inr_iff Let_def split: if_splits)
  have p1: "q1 = None \<and> p1 = p\<lparr>p_tun := None\<rparr> \<or> q1 \<noteq> None \<and> (\<exists>s. set_seq s (p\<lparr>p_tun := None\<rparr>) = Inr p1)"
    using unmap_seq_D [OF s] by simp
  then have "p_header_tei_rx p1 = 0" "p_side p1 = p_side p" "p_plane p1 = USER" "p_type p1 = p_type p"
    using assms(1,2) by (auto dest!: set_seq_D)
  moreover from this(1) have p2: "p2 = p1\<lparr>p_tun := None\<rparr>" using t by (auto simp: gtphub_unmap_header_tei_def osmo_assert_def Let_def split: if_split_asm)
  ultimately have f: "p_plane p2 = USER" "p_side p2 = p_side p" "p_tun p2 = None" "p_type p2 = p_type p" by simp_all
  obtain p3 where b: "b = (other_side (p_side p), USER)" "rc = int n" "p_type p = GTP_DELETE_PDP_RSP" "bs = take n (p_data p3)"
    and p3: "from_seq \<noteq> None \<and> p3 = p2 \<or> from_seq = None \<and> (\<exists>s. set_seq s p2 = Inr p3)"
    using hub_forward_user [OF assms(4) f(1)] f by auto
  then have "\<exists>seq. p_data p3 = take 8 (p_data p) @ hton16 seq @ drop 10 (p_data p)"
    using p1 p2 r by (auto dest!: set_seq_D)
  then show ?thesis using b by metis
qed

text \<open>
  C14. A packet of the user plane that is forwarded leaves on the other side.  If its TEI is not 0 it belongs to a tunnel that has the
  packet's TEI and, on the side it came from, the address of its sender; it leaves with the TEI of the other endpoint in
  place of its own, its octets 8 and 9 replaced by a sequence number and everything else as it came.  A packet with TEI 0 belongs to
  no tunnel and is forwarded only if it has the type of a Delete PDP Context Response; then only its octets 8 and 9 are replaced.
\<close>

theorem gpdu_forwarded:
  assumes "gtp_decode e buf m s USER now = Inr p" and "hub_route e k n clk p h = Inr ((rc, Some (bs, b, sa)), h')"
  shows "b = (other_side s, USER) \<and> rc = int n \<and>
    (if p_header_tei_rx p = 0
     then p_type p = GTP_DELETE_PDP_RSP \<and> (\<exists>seq. bs = take n (take 8 buf @ hton16 seq @ drop 10 buf))
     else \<exists>t seq. tunnel_of p k h t \<and>
       bs = take n (take 4 buf @ hton32 (te_tei_orig (tn_endpoint t b)) @ hton16 seq @ drop 10 buf))"
proof -
  have d: "p_plane p = USER" "p_side p = s" "p_ie p = None" "p_data p = buf"
    using ensuresD [OF decode_timestamp assms(1)] ensuresD [OF decode_user assms(1)] by simp_all
  obtain q from_seq p2 h1 h2 k' h3 where h1: "h1 = rate_ctr_add (Ctr_port k) PKTS_IN 1 (rate_ctr_add (Ctr_port k) BYTES_IN n h)"
    and u: "gtphub_unmap p k (hb_proxy h1 (other_side (p_side p), p_plane p)) h1 = Inr (0, q, from_seq, p2, h2)"
    and f: "hub_forward e k k' from_seq n p2 h3 = Inr ((rc, Some (bs, b, sa)), h')"
    by (rule route_without_ie [OF d(3) assms(2)])
  show ?thesis
    using forward_with_tei [OF d(1) _ u f] forward_without_tei [OF d(1) _ u f] d(2,4) h1 by auto
qed

definition create_rsp :: octets where
  "create_rsp = [0x32, 17, 0, 28, 0, 0, 0, 1, 109, 49, 0, 0,
     17, 0, 0, 0, 7, 16, 0, 0, 0, 8, 133, 0, 4, 192, 0, 2, 1, 133, 0, 4, 192, 0, 2, 1]"

definition gpdu_example :: octets where
  "gpdu_example = [0x30, 255, 0, 6, 0, 0, 0, 1, 0xde, 0xad, 0xbe, 0xef, 0xab, 0xcd]"

theorem gpdu_forwarded_witness:
  "\<exists>h p k bs sa h' t seq. hub_run [from_sgsn create_req, from_ggsn create_rsp] = Inr h \<and>
     gtp_decode env_example gpdu_example 14 SGSN USER 100 = Inr p \<and>
     hub_route env_example k 14 100 p h = Inr ((14, Some (bs, (GGSN, USER), sa)), h') \<and> tunnel_of p k h t \<and>
     bs = take 14 ([0x30, 255, 0, 6] @ hton32 (te_tei_orig (tn_endpoint t (GGSN, USER))) @ hton16 seq @ [0xbe, 0xef, 0xab, 0xcd])"
proof -
  have "case hub_run [from_sgsn create_req, from_ggsn create_rsp] of Inl _ \<Rightarrow> False | Inr h \<Rightarrow>
      (case gtp_decode env_example gpdu_example 14 SGSN USER 100 of Inl _ \<Rightarrow> False | Inr p \<Rightarrow> p_header_tei_rx p \<noteq> 0 \<and>
      (case hub_route env_example (the (te_peer (tn_endpoint (hb_tunnels h ! 0) (SGSN, USER)))) 14 100 p h of Inl _ \<Rightarrow> False
       | Inr ((rc, fwd), h') \<Rightarrow> fwd \<noteq> None))"
    by code_simp
  then obtain h p k rc bs b sa h' where h: "hub_run [from_sgsn create_req, from_ggsn create_rsp] = Inr h"
    "gtp_decode env_example gpdu_example 14 SGSN USER 100 = Inr p" "p_header_tei_rx p \<noteq> 0"
    "hub_route env_example k 14 100 p h = Inr ((rc, Some (bs, b, sa)), h')"
    by (auto split: sum.split_asm)
  have d: "take 4 gpdu_example = [0x30, 255, 0, 6]" "drop 10 gpdu_example = [0xbe, 0xef, 0xab, 0xcd]" by (simp_all add: gpdu_example_def)
  from gpdu_forwarded [OF h(2,4)] h(3) obtain t seq where "b = (GGSN, USER)" "rc = 14" "tunnel_of p k h t"
    "bs = take 14 ([0x30, 255, 0, 6] @ hton32 (te_tei_orig (tn_endpoint t b)) @ hton16 seq @ [0xbe, 0xef, 0xab, 0xcd])"
    unfolding d by (auto simp: other_side_def)
  with h show ?thesis by blast
qed

end
