(* ===== verification/Routing_Area.thy ===== *)
theory Routing_Area
  imports Osmo_Prelude
begin

section \<open>Routing areas and their cells (src/src/sgsn/gprs_routing_area.c)\<close>

text \<open>
  The SGSN keeps a list of routing areas.  A GERAN routing area lists the cells that are alive, by cell
  identity and by the NSEI and BVCI they are reached at; a UTRAN routing area names its RNC.  The BSSGP layer
  reports the reset of a cell, and the NS layer the failure of an NSE.  Objects have identities in place of
  addresses; a cell is found together with the routing area it points back to.  Comparing identities of
  areas is left to libosmocore and a parameter here.
\<close>

subsection \<open>Data\<close>

datatype ra_ran_type = RA_TYPE_GERAN_Gb | RA_TYPE_UTRAN_Iu

record plmn_id =
  pl_mcc :: u16
  pl_mnc :: u16
  pl_mnc_3_digits :: bool

record location_area_id =
  lai_plmn :: plmn_id
  lai_lac :: u16

record routing_area_id =
  rai_lac :: location_area_id
  rai_rac :: u8

record osmo_rnc_id =
  rnc_plmn :: plmn_id
  rnc_nr :: u16

definition zero_rnc_id :: osmo_rnc_id where
  "zero_rnc_id = \<lparr>rnc_plmn = \<lparr>pl_mcc = 0, pl_mnc = 0, pl_mnc_3_digits = False\<rparr>, rnc_nr = 0\<rparr>"

record sgsn_ra_cell =
  rc_id :: nat
  rc_ran_type :: ra_ran_type
  rc_nsei :: u16
  rc_bvci :: u16
  rc_cell_id :: u16

record sgsn_ra =
  ra_id :: nat
  ra_rai :: routing_area_id
  ra_ran_type :: ra_ran_type
  ra_rnc_id :: osmo_rnc_id
  ra_cells :: "sgsn_ra_cell list"

record sgsn_ra_global =
  ra_list :: "sgsn_ra list"
  ra_next :: nat

text \<open>\<open>osmo_rai_cmp\<close>, \<open>osmo_lai_cmp\<close> and \<open>osmo_rnc_id_cmp\<close> of libosmocore return 0.\<close>

record area_cmp =
  rai_same :: "routing_area_id \<Rightarrow> routing_area_id \<Rightarrow> bool"
  lai_same :: "location_area_id \<Rightarrow> location_area_id \<Rightarrow> bool"
  rnc_same :: "osmo_rnc_id \<Rightarrow> osmo_rnc_id \<Rightarrow> bool"

definition sgsn_ra_init :: sgsn_ra_global where
  "sgsn_ra_init = \<lparr>ra_list = [], ra_next = 0\<rparr>"

subsection \<open>Lookup\<close>

definition sgsn_ra_get_ra :: "area_cmp \<Rightarrow> routing_area_id \<Rightarrow> sgsn_ra_global \<Rightarrow> sgsn_ra option" where
  "sgsn_ra_get_ra c rai g = find (\<lambda>ra. rai_same c (ra_rai ra) rai) (ra_list g)"

definition sgsn_ra_geran_get_ra :: "area_cmp \<Rightarrow> routing_area_id \<Rightarrow> sgsn_ra_global \<Rightarrow> sgsn_ra option" where
  "sgsn_ra_geran_get_ra c rai g =
     (case sgsn_ra_get_ra c rai g of
        None \<Rightarrow> None
      | Some ra \<Rightarrow> if ra_ran_type ra = RA_TYPE_GERAN_Gb then Some ra else None)"

definition sgsn_ra_utran_get_ra :: "area_cmp \<Rightarrow> routing_area_id \<Rightarrow> sgsn_ra_global \<Rightarrow> sgsn_ra option" where
  "sgsn_ra_utran_get_ra c rai g =
     (case sgsn_ra_get_ra c rai g of
        None \<Rightarrow> None
      | Some ra \<Rightarrow> if ra_ran_type ra = RA_TYPE_UTRAN_Iu then Some ra else None)"

definition sgsn_ra_geran_get_cell_by_ra :: "sgsn_ra \<Rightarrow> u16 \<Rightarrow> sgsn_ra_cell option" where
  "sgsn_ra_geran_get_cell_by_ra ra cell_id =
     (if ra_ran_type ra \<noteq> RA_TYPE_GERAN_Gb then None
      else find (\<lambda>cl. rc_ran_type cl = RA_TYPE_GERAN_Gb \<and> rc_cell_id cl = cell_id) (ra_cells ra))"

text \<open>The loops over all routing areas and their cells: the first cell with \<open>P\<close> in a GERAN area with \<open>Q\<close>.\<close>

fun find_cell :: "(sgsn_ra \<Rightarrow> bool) \<Rightarrow> (sgsn_ra_cell \<Rightarrow> bool) \<Rightarrow> sgsn_ra list \<Rightarrow> (sgsn_ra \<times> sgsn_ra_cell) option" where
  "find_cell Q P [] = None"
| "find_cell Q P (ra # ras) =
     (if ra_ran_type ra \<noteq> RA_TYPE_GERAN_Gb \<or> \<not> Q ra then find_cell Q P ras
      else case find (\<lambda>cl. rc_ran_type cl = RA_TYPE_GERAN_Gb \<and> P cl) (ra_cells ra) of
             Some cl \<Rightarrow> Some (ra, cl)
           | None \<Rightarrow> find_cell Q P ras)"

definition sgsn_ra_geran_get_cell_by_gb :: "u16 \<Rightarrow> u16 \<Rightarrow> sgsn_ra_global \<Rightarrow> (sgsn_ra \<times> sgsn_ra_cell) option" where
  "sgsn_ra_geran_get_cell_by_gb nsei bvci g =
     (if bvci = 0 then None
      else find_cell (\<lambda>_. True) (\<lambda>cl. rc_bvci cl = bvci \<and> rc_nsei cl = nsei) (ra_list g))"

definition sgsn_ra_geran_get_cell_by_lai ::
  "area_cmp \<Rightarrow> location_area_id \<Rightarrow> u16 \<Rightarrow> sgsn_ra_global \<Rightarrow> (sgsn_ra \<times> sgsn_ra_cell) option" where
  "sgsn_ra_geran_get_cell_by_lai c lai cell_id g =
     find_cell (\<lambda>ra. lai_same c (rai_lac (ra_rai ra)) lai) (\<lambda>cl. rc_cell_id cl = cell_id) (ra_list g)"

definition sgsn_ra_geran_get_cell_by_cgi_ps ::
  "area_cmp \<Rightarrow> routing_area_id \<Rightarrow> u16 \<Rightarrow> sgsn_ra_global \<Rightarrow> sgsn_ra_cell option" where
  "sgsn_ra_geran_get_cell_by_cgi_ps c rai cell_id g =
     (case sgsn_ra_geran_get_ra c rai g of None \<Rightarrow> None | Some ra \<Rightarrow> sgsn_ra_geran_get_cell_by_ra ra cell_id)"

definition sgsn_ra_geran_get_cell_by_cgi ::
  "area_cmp \<Rightarrow> location_area_id \<Rightarrow> u16 \<Rightarrow> sgsn_ra_global \<Rightarrow> (sgsn_ra \<times> sgsn_ra_cell) option" where
  "sgsn_ra_geran_get_cell_by_cgi c lai cell_id g = sgsn_ra_geran_get_cell_by_lai c lai cell_id g"

text \<open>Calling a function on every cell: it may stop the loop or fail, and must return nothing else.\<close>

definition SGSN_RA_CB_STOP :: int where "SGSN_RA_CB_STOP = 1"
definition SGSN_RA_CB_CONT :: int where "SGSN_RA_CB_CONT = 0"
definition SGSN_RA_CB_ERROR :: int where "SGSN_RA_CB_ERROR = -1"

fun foreach_cells ::
  "('s \<Rightarrow> sgsn_ra_cell \<Rightarrow> int \<times> 's) \<Rightarrow> sgsn_ra_cell list \<Rightarrow> int \<Rightarrow> 's \<Rightarrow> (int \<times> 's) exec" where
  "foreach_cells cb [] ret s = Inr (ret, s)"
| "foreach_cells cb (cl # cls) ret s =
     (let (ret, s) = cb s cl in
      if ret = SGSN_RA_CB_CONT then foreach_cells cb cls ret s
      else if ret = SGSN_RA_CB_STOP then Inr (0, s)
      else if ret = SGSN_RA_CB_ERROR then Inr (-1, s)
      else Inl Assert_fail)"

definition sgsn_ra_foreach_cell :: "sgsn_ra \<Rightarrow> ('s \<Rightarrow> sgsn_ra_cell \<Rightarrow> int \<times> 's) \<Rightarrow> 's \<Rightarrow> (int \<times> 's) exec" where
  "sgsn_ra_foreach_cell ra cb s = foreach_cells cb (ra_cells ra) (- ENOENT) s"

definition sgsn_ra_foreach_cell2 ::
  "area_cmp \<Rightarrow> routing_area_id \<Rightarrow> ('s \<Rightarrow> sgsn_ra_cell \<Rightarrow> int \<times> 's) \<Rightarrow> sgsn_ra_global \<Rightarrow> 's \<Rightarrow> (int \<times> 's) exec" where
  "sgsn_ra_foreach_cell2 c rai cb g s =
     (case sgsn_ra_get_ra c rai g of None \<Rightarrow> Inr (- ENOENT, s) | Some ra \<Rightarrow> sgsn_ra_foreach_cell ra cb s)"

subsection \<open>Allocation and release\<close>

text \<open>Memory does not run out here.\<close>

definition sgsn_ra_alloc :: "routing_area_id \<Rightarrow> ra_ran_type \<Rightarrow> sgsn_ra_global \<Rightarrow> sgsn_ra \<times> sgsn_ra_global" where
  "sgsn_ra_alloc rai ty g =
     (let ra = \<lparr>ra_id = ra_next g, ra_rai = rai, ra_ran_type = ty, ra_rnc_id = zero_rnc_id, ra_cells = []\<rparr> in
      (ra, g\<lparr>ra_list := ra # ra_list g, ra_next := Suc (ra_next g)\<rparr>))"

definition sgsn_ra_find_or_create ::
  "area_cmp \<Rightarrow> routing_area_id \<Rightarrow> ra_ran_type \<Rightarrow> sgsn_ra_global \<Rightarrow> sgsn_ra option \<times> sgsn_ra_global" where
  "sgsn_ra_find_or_create c rai ty g =
     (case sgsn_ra_get_ra c rai g of
        Some ra \<Rightarrow> (if ra_ran_type ra = ty then Some ra else None, g)
      | None \<Rightarrow> let (ra, g) = sgsn_ra_alloc rai ty g in (Some ra, g))"

definition ra_upd :: "nat \<Rightarrow> (sgsn_ra \<Rightarrow> sgsn_ra) \<Rightarrow> sgsn_ra_global \<Rightarrow> sgsn_ra_global" where
  "ra_upd k f g = g\<lparr>ra_list := map (\<lambda>ra. if ra_id ra = k then f ra else ra) (ra_list g)\<rparr>"

definition sgsn_ra_cell_alloc_geran :: "nat \<Rightarrow> u16 \<Rightarrow> u16 \<Rightarrow> u16 \<Rightarrow> sgsn_ra_global \<Rightarrow> sgsn_ra_global" where
  "sgsn_ra_cell_alloc_geran k cell_id nsei bvci g =
     (let cl = \<lparr>rc_id = ra_next g, rc_ran_type = RA_TYPE_GERAN_Gb, rc_nsei = nsei, rc_bvci = bvci, rc_cell_id = cell_id\<rparr> in
      ra_upd k (\<lambda>ra. ra\<lparr>ra_cells := cl # ra_cells ra\<rparr>) (g\<lparr>ra_next := Suc (ra_next g)\<rparr>))"

text \<open>Unlinking a cell from the area \<open>k\<close> it is in, and releasing an area with its cells.\<close>

definition ra_cell_unlink :: "nat \<Rightarrow> nat \<Rightarrow> sgsn_ra_global \<Rightarrow> sgsn_ra_global" where
  "ra_cell_unlink k cell g = ra_upd k (\<lambda>ra. ra\<lparr>ra_cells := filter (\<lambda>cl. rc_id cl \<noteq> cell) (ra_cells ra)\<rparr>) g"

definition sgsn_ra_free :: "nat \<Rightarrow> sgsn_ra_global \<Rightarrow> sgsn_ra_global" where
  "sgsn_ra_free k g = g\<lparr>ra_list := filter (\<lambda>ra. ra_id ra \<noteq> k) (ra_list g)\<rparr>"

definition sgsn_ra_cell_free_opt :: "nat \<Rightarrow> nat \<Rightarrow> bool \<Rightarrow> sgsn_ra_global \<Rightarrow> sgsn_ra_global" where
  "sgsn_ra_cell_free_opt k cell drop_empty_ra g =
     (let g = ra_cell_unlink k cell g in
      if \<not> drop_empty_ra then g
      else case find (\<lambda>ra. ra_id ra = k) (ra_list g) of
             Some ra \<Rightarrow> if ra_cells ra = [] then sgsn_ra_free k g else g
           | None \<Rightarrow> g)"

definition sgsn_ra_cell_free :: "nat \<Rightarrow> nat \<Rightarrow> sgsn_ra_global \<Rightarrow> sgsn_ra_global" where
  "sgsn_ra_cell_free k cell g = sgsn_ra_cell_free_opt k cell True g"

subsection \<open>Events\<close>

text \<open>A cell of the area that is found but is not a GERAN cell cannot be: the lookup has checked it.\<close>

definition cell_moved :: "area_cmp \<Rightarrow> routing_area_id \<Rightarrow> u16 \<Rightarrow> sgsn_ra \<Rightarrow> sgsn_ra_global \<Rightarrow> sgsn_ra_global exec" where
  "cell_moved c rai cell_id ra g =
     (case sgsn_ra_geran_get_cell_by_lai c (rai_lac rai) cell_id g of
        None \<Rightarrow> Inr g
      | Some (old_ra, cl) \<Rightarrow>
          ebind (osmo_assert (ra_id old_ra \<noteq> ra_id ra)) (\<lambda>_.
            Inr (sgsn_ra_cell_free_opt (ra_id old_ra) (rc_id cl) True g)))"

definition sgsn_ra_geran_bvc_cell_reset_ind ::
  "area_cmp \<Rightarrow> u16 \<Rightarrow> u16 \<Rightarrow> routing_area_id \<Rightarrow> u16 \<Rightarrow> sgsn_ra_global \<Rightarrow> (int \<times> sgsn_ra_global) exec" where
  "sgsn_ra_geran_bvc_cell_reset_ind c nsei bvci rai cell_id g =
     (case sgsn_ra_geran_get_ra c rai g of
        None \<Rightarrow>
          (let (ra, g) = sgsn_ra_find_or_create c rai RA_TYPE_GERAN_Gb g in
           case ra of
             None \<Rightarrow> Inr (- ENOMEM, g)
           | Some ra \<Rightarrow> Inr (0, sgsn_ra_cell_alloc_geran (ra_id ra) cell_id nsei bvci g))
      | Some ra \<Rightarrow>
          (case sgsn_ra_geran_get_cell_by_ra ra cell_id of
             Some cl \<Rightarrow>
               Inr (0, ra_upd (ra_id ra) (\<lambda>ra. ra\<lparr>ra_cells := map (\<lambda>x. if rc_id x = rc_id cl
                 then x\<lparr>rc_bvci := bvci, rc_nsei := nsei\<rparr> else x) (ra_cells ra)\<rparr>) g)
           | None \<Rightarrow>
               ebind (cell_moved c rai cell_id ra g) (\<lambda>g.
                 Inr (0, sgsn_ra_cell_alloc_geran (ra_id ra) cell_id nsei bvci g))))"

fun nsei_failure_loop :: "u16 \<Rightarrow> sgsn_ra list \<Rightarrow> bool \<times> sgsn_ra list" where
  "nsei_failure_loop nsei [] = (False, [])"
| "nsei_failure_loop nsei (ra # ras) =
     (let (found, ras) = nsei_failure_loop nsei ras in
      if ra_ran_type ra \<noteq> RA_TYPE_GERAN_Gb then (found, ra # ras)
      else
        let failed = (\<lambda>cl. rc_ran_type cl = RA_TYPE_GERAN_Gb \<and> rc_nsei cl = nsei);
            cells = filter (\<lambda>cl. \<not> failed cl) (ra_cells ra);
            found = (found \<or> (\<exists>cl\<in>set (ra_cells ra). failed cl)) in
        (found, if cells = [] then ras else ra\<lparr>ra_cells := cells\<rparr> # ras))"

definition sgsn_ra_geran_nsei_failure_ind :: "u16 \<Rightarrow> sgsn_ra_global \<Rightarrow> int \<times> sgsn_ra_global" where
  "sgsn_ra_geran_nsei_failure_ind nsei g =
     (let (found, ras) = nsei_failure_loop nsei (ra_list g) in
      (if found then 0 else - ENOENT, g\<lparr>ra_list := ras\<rparr>))"

definition sgsn_ra_geran_bvc_sign_reset_ind :: "u16 \<Rightarrow> sgsn_ra_global \<Rightarrow> sgsn_ra_global" where
  "sgsn_ra_geran_bvc_sign_reset_ind nsei g = snd (sgsn_ra_geran_nsei_failure_ind nsei g)"

definition sgsn_ra_utran_register ::
  "area_cmp \<Rightarrow> routing_area_id \<Rightarrow> osmo_rnc_id \<Rightarrow> sgsn_ra_global \<Rightarrow> int \<times> sgsn_ra_global" where
  "sgsn_ra_utran_register c rai rnc g =
     (case sgsn_ra_get_ra c rai g of
        None \<Rightarrow>
          let (ra, g) = sgsn_ra_alloc rai RA_TYPE_UTRAN_Iu g in
          (0, ra_upd (ra_id ra) (\<lambda>ra. ra\<lparr>ra_rnc_id := rnc\<rparr>) g)
      | Some ra \<Rightarrow>
          if ra_ran_type ra = RA_TYPE_GERAN_Gb then (- ENOENT, g)
          else if rnc_same c (ra_rnc_id ra) rnc then (0, g)
          else (0, ra_upd (ra_id ra) (\<lambda>ra. ra\<lparr>ra_rnc_id := rnc\<rparr>) g))"

text \<open>
  The BVC reset of the BSSGP layer (src/src/sgsn/gprs_bssgp.c): \<open>cell_id_ie\<close> is the parsed cell identifier, if
  there is one of sufficient length.
\<close>

definition bssgp_nm_bvc_reset_ind ::
  "area_cmp \<Rightarrow> u16 \<Rightarrow> u16 \<Rightarrow> (routing_area_id \<times> u16) option \<Rightarrow> sgsn_ra_global \<Rightarrow> (int \<times> sgsn_ra_global) exec" where
  "bssgp_nm_bvc_reset_ind c nsei bvci cell_id_ie g =
     (if bvci = 0 then Inr (0, sgsn_ra_geran_bvc_sign_reset_ind nsei g)
      else case cell_id_ie of
        None \<Rightarrow> Inr (- EINVAL, g)
      | Some (rai, cell_id) \<Rightarrow> sgsn_ra_geran_bvc_cell_reset_ind c nsei bvci rai cell_id g)"

text \<open>Paging: the cells (NSEI and BVCI) a message is sent to, and the return value.\<close>

definition sgsn_ra_geran_page_ra :: "area_cmp \<Rightarrow> routing_area_id \<Rightarrow> sgsn_ra_global \<Rightarrow> int \<times> (u16 \<times> u16) list" where
  "sgsn_ra_geran_page_ra c rai g =
     (case sgsn_ra_geran_get_ra c rai g of
        None \<Rightarrow> (- ENOENT, [])
      | Some ra \<Rightarrow>
          let cells = filter (\<lambda>cl. rc_ran_type cl = RA_TYPE_GERAN_Gb) (ra_cells ra) in
          (if cells = [] then - ENOENT else 0, map (\<lambda>cl. (rc_nsei cl, rc_bvci cl)) cells))"

text \<open>
  Paging in UTRAN: nothing when the area is not known, otherwise the P-TMSI the RANAP layer is to page,
  or the IMSI when there is none.
\<close>

definition sgsn_ra_utran_page_ra ::
  "area_cmp \<Rightarrow> routing_area_id \<Rightarrow> u32 \<Rightarrow> u32 \<Rightarrow> sgsn_ra_global \<Rightarrow> u32 option option" where
  "sgsn_ra_utran_page_ra c rai p_tmsi p_tmsi_old g =
     (case sgsn_ra_utran_get_ra c rai g of
        None \<Rightarrow> None
      | Some ra \<Rightarrow>
          Some (if p_tmsi \<noteq> 0xffffffff then Some p_tmsi
                else if p_tmsi_old \<noteq> 0xffffffff then Some p_tmsi_old else None))"

subsection \<open>Invariant\<close>

definition cells_ok :: "nat \<Rightarrow> sgsn_ra \<Rightarrow> bool" where
  "cells_ok n ra \<longleftrightarrow> distinct (map rc_id (ra_cells ra)) \<and> (\<forall>cl\<in>set (ra_cells ra). rc_id cl < n) \<and>
     distinct (map rc_cell_id (ra_cells ra)) \<and> (\<forall>cl\<in>set (ra_cells ra). rc_ran_type cl = RA_TYPE_GERAN_Gb)"

definition ra_ok :: "nat \<Rightarrow> sgsn_ra \<Rightarrow> bool" where
  "ra_ok n ra \<longleftrightarrow> ra_id ra < n \<and> cells_ok n ra \<and> (ra_cells ra = [] \<longleftrightarrow> ra_ran_type ra = RA_TYPE_UTRAN_Iu)"

definition ra_inv :: "area_cmp \<Rightarrow> sgsn_ra_global \<Rightarrow> bool" where
  "ra_inv c g \<longleftrightarrow> distinct (map ra_id (ra_list g)) \<and>
     sorted_wrt (\<lambda>a b. \<not> rai_same c (ra_rai a) (ra_rai b)) (ra_list g) \<and> (\<forall>ra\<in>set (ra_list g). ra_ok (ra_next g) ra)"

text \<open>What is relied on: comparing routing areas is an equivalence, and so is comparing location areas.\<close>

definition area_cmp_ok :: "area_cmp \<Rightarrow> bool" where
  "area_cmp_ok c \<longleftrightarrow> equivp (rai_same c) \<and> equivp (lai_same c)"

inductive ra_reachable :: "area_cmp \<Rightarrow> sgsn_ra_global \<Rightarrow> bool" for c where
  ra_start: "ra_reachable c sgsn_ra_init"
| ra_bvc_reset: "ra_reachable c g \<Longrightarrow> bssgp_nm_bvc_reset_ind c nsei bvci ie g = Inr (rc, g') \<Longrightarrow> ra_reachable c g'"
| ra_nsei_failure: "ra_reachable c g \<Longrightarrow> sgsn_ra_geran_nsei_failure_ind nsei g = (rc, g') \<Longrightarrow> ra_reachable c g'"
| ra_utran: "ra_reachable c g \<Longrightarrow> sgsn_ra_utran_register c rai rnc g = (rc, g') \<Longrightarrow> ra_reachable c g'"

lemma find_id:
  assumes "distinct (map f xs)" and "x \<in> set xs"
  shows "find (\<lambda>y. f y = f x) xs = Some x"
  using assms by (induction xs) auto

lemma inv_ra_upd:
  assumes "ra_inv c g" and "ra_next g \<le> n"
    and "\<And>ra. ra_rai (f ra) = ra_rai ra" and "\<And>ra. ra_id (f ra) = ra_id ra"
    and "\<And>ra. ra \<in> set (ra_list g) \<Longrightarrow> ra_id ra = k \<Longrightarrow> ra_ok n (f ra)"
  shows "ra_inv c ((ra_upd k f g)\<lparr>ra_next := n\<rparr>)"
proof -
  have m: "ra_ok n ra" if "ra \<in> set (ra_list g)" for ra
    using that assms(1,2) by (fastforce simp: ra_inv_def ra_ok_def cells_ok_def)
  have "ra_id \<circ> (\<lambda>ra. if ra_id ra = k then f ra else ra) = ra_id" by (rule ext) (simp add: assms(4))
  moreover have "sorted_wrt (\<lambda>a b. \<not> rai_same c (ra_rai a) (ra_rai b)) (map (\<lambda>ra. if ra_id ra = k then f ra else ra) xs) =
      sorted_wrt (\<lambda>a b. \<not> rai_same c (ra_rai a) (ra_rai b)) xs" for xs
    by (simp add: sorted_wrt_map if_distrib [of ra_rai] assms(3) cong: if_cong)
  ultimately show ?thesis using assms(1,5) m by (auto simp: ra_inv_def ra_upd_def)
qed

lemma inv_ra_free: "ra_inv c g \<Longrightarrow> ra_inv c (sgsn_ra_free k g)"
  by (auto simp: ra_inv_def sgsn_ra_free_def distinct_map_filter sorted_wrt_filter)

lemma get_ra_D:
  "sgsn_ra_get_ra c rai g = Some ra \<Longrightarrow> ra \<in> set (ra_list g) \<and> rai_same c (ra_rai ra) rai"
  "sgsn_ra_get_ra c rai g = None \<Longrightarrow> \<forall>ra\<in>set (ra_list g). \<not> rai_same c (ra_rai ra) rai"
  by (auto simp: sgsn_ra_get_ra_def find_Some_iff find_None_iff)

lemma geran_get_ra_iff:
  "sgsn_ra_geran_get_ra c rai g = Some ra \<longleftrightarrow> sgsn_ra_get_ra c rai g = Some ra \<and> ra_ran_type ra = RA_TYPE_GERAN_Gb"
  by (auto simp: sgsn_ra_geran_get_ra_def split: option.splits)

lemma find_cell_D:
  "find_cell Q P ras = Some (ra, cl) \<Longrightarrow>
   ra \<in> set ras \<and> ra_ran_type ra = RA_TYPE_GERAN_Gb \<and> Q ra \<and> cl \<in> set (ra_cells ra) \<and> P cl"
  by (induction ras) (auto simp: find_Some_iff split: if_splits option.splits)

lemma same_ra: "ra_inv c g \<Longrightarrow> a \<in> set (ra_list g) \<Longrightarrow> b \<in> set (ra_list g) \<Longrightarrow> ra_id a = ra_id b \<Longrightarrow> a = b"
  by (auto simp: ra_inv_def distinct_map inj_on_def)

lemma equiv_rai:
  assumes "area_cmp_ok c"
  shows "rai_same c a a" and "rai_same c a b = rai_same c b a" and "rai_same c a b \<Longrightarrow> rai_same c b d \<Longrightarrow> rai_same c a d"
  using assms equivp_reflp equivp_symp equivp_transp unfolding area_cmp_ok_def by metis+

lemma inv_cell_alloc:
  assumes "ra_inv c g" and "ra \<in> set (ra_list g)" and "ra_ran_type ra = RA_TYPE_GERAN_Gb" and "sgsn_ra_geran_get_cell_by_ra ra cell_id = None"
  shows "ra_inv c (sgsn_ra_cell_alloc_geran (ra_id ra) cell_id nsei bvci g)"
proof -
  let ?f = "\<lambda>ra. ra\<lparr>ra_cells := \<lparr>rc_id = ra_next g, rc_ran_type = RA_TYPE_GERAN_Gb, rc_nsei = nsei, rc_bvci = bvci, rc_cell_id = cell_id\<rparr> # ra_cells ra\<rparr>"
  have ok: "ra_ok (ra_next g) ra" using assms(1,2) by (auto simp: ra_inv_def)
  have "\<forall>cl\<in>set (ra_cells ra). rc_cell_id cl \<noteq> cell_id"
    using assms(3,4) ok by (auto simp: sgsn_ra_geran_get_cell_by_ra_def find_None_iff ra_ok_def cells_ok_def)
  then have "ra_ok (Suc (ra_next g)) (?f ra)" using ok assms(3) by (auto simp: ra_ok_def cells_ok_def)
  then have "ra_inv c ((ra_upd (ra_id ra) ?f g)\<lparr>ra_next := Suc (ra_next g)\<rparr>)"
    using same_ra [OF assms(1) _ assms(2)] by (intro inv_ra_upd [OF assms(1)]) auto
  then show ?thesis by (simp add: sgsn_ra_cell_alloc_geran_def ra_upd_def Let_def ra_inv_def)
qed

text \<open>An area that is allocated for a cell gets the cell before anything else happens.\<close>

lemma inv_ra_with_cell:
  assumes "area_cmp_ok c" and "ra_inv c g" and "sgsn_ra_get_ra c rai g = None"
  shows "ra_inv c (sgsn_ra_cell_alloc_geran (ra_next g) cell_id nsei bvci (snd (sgsn_ra_alloc rai RA_TYPE_GERAN_Gb g)))"
proof -
  have lt: "ra_id ra < ra_next g \<and> ra_ok (Suc (Suc (ra_next g))) ra" if "ra \<in> set (ra_list g)" for ra
    using that assms(2) by (fastforce simp: ra_inv_def ra_ok_def cells_ok_def)
  then have m: "map (\<lambda>ra. if ra_id ra = ra_next g then f ra else ra) (ra_list g) = ra_list g" for f
    by (intro map_idI) fastforce
  have "\<forall>ra\<in>set (ra_list g). \<not> rai_same c rai (ra_rai ra)" using get_ra_D(2) [OF assms(3)] equiv_rai(2) [OF assms(1)] by blast
  then show ?thesis using assms(2) lt
    by (fastforce simp: sgsn_ra_alloc_def sgsn_ra_cell_alloc_geran_def Let_def ra_upd_def m ra_inv_def ra_ok_def cells_ok_def)
qed

lemma inv_utran_alloc:
  assumes "area_cmp_ok c" and "ra_inv c g" and "sgsn_ra_get_ra c rai g = None"
  shows "ra_inv c (snd (sgsn_ra_alloc rai RA_TYPE_UTRAN_Iu g))"
proof -
  have lt: "ra_id ra < ra_next g \<and> ra_ok (Suc (ra_next g)) ra" if "ra \<in> set (ra_list g)" for ra
    using that assms(2) by (fastforce simp: ra_inv_def ra_ok_def cells_ok_def)
  have "\<forall>ra\<in>set (ra_list g). \<not> rai_same c rai (ra_rai ra)" using get_ra_D(2) [OF assms(3)] equiv_rai(2) [OF assms(1)] by blast
  then show ?thesis using assms(2) lt by (fastforce simp: sgsn_ra_alloc_def Let_def ra_inv_def ra_ok_def cells_ok_def)
qed

lemma inv_rnc:
  assumes "ra_inv c g"
  shows "ra_inv c (ra_upd k (\<lambda>ra. ra\<lparr>ra_rnc_id := rnc\<rparr>) g)"
proof -
  have "ra_inv c ((ra_upd k (\<lambda>ra. ra\<lparr>ra_rnc_id := rnc\<rparr>) g)\<lparr>ra_next := ra_next g\<rparr>)"
    using assms by (intro inv_ra_upd [OF assms]) (auto simp: ra_inv_def ra_ok_def cells_ok_def)
  then show ?thesis by (simp add: ra_upd_def)
qed

lemma inv_utran_register: "area_cmp_ok c \<Longrightarrow> ra_inv c g \<Longrightarrow> ra_inv c (snd (sgsn_ra_utran_register c rai rnc g))"
  using inv_rnc inv_utran_alloc by (auto simp: sgsn_ra_utran_register_def sgsn_ra_alloc_def Let_def split: option.splits)

text \<open>What a failure of an NSE leaves of an area, and of the list of areas.\<close>

definition nsei_strip :: "u16 \<Rightarrow> sgsn_ra \<Rightarrow> sgsn_ra" where
  "nsei_strip nsei ra =
     (if ra_ran_type ra = RA_TYPE_GERAN_Gb
      then ra\<lparr>ra_cells := filter (\<lambda>cl. \<not> (rc_ran_type cl = RA_TYPE_GERAN_Gb \<and> rc_nsei cl = nsei)) (ra_cells ra)\<rparr> else ra)"

lemma nsei_strip_simps [simp]:
  "ra_id (nsei_strip nsei ra) = ra_id ra" "ra_rai (nsei_strip nsei ra) = ra_rai ra" "ra_ran_type (nsei_strip nsei ra) = ra_ran_type ra"
  by (simp_all add: nsei_strip_def)

lemma nsei_loop_strip:
  "snd (nsei_failure_loop nsei ras) = filter (\<lambda>ra. ra_ran_type ra = RA_TYPE_GERAN_Gb \<longrightarrow> ra_cells ra \<noteq> []) (map (nsei_strip nsei) ras)"
  by (induction ras) (auto simp: nsei_strip_def Let_def split_beta filter_empty_conv)

lemma nsei_loop_found:
  "fst (nsei_failure_loop nsei ras) \<longleftrightarrow>
   (\<exists>ra\<in>set ras. ra_ran_type ra = RA_TYPE_GERAN_Gb \<and> (\<exists>cl\<in>set (ra_cells ra). rc_ran_type cl = RA_TYPE_GERAN_Gb \<and> rc_nsei cl = nsei))"
  by (induction ras) (auto simp: Let_def split_beta)

lemma ra_ok_strip:
  assumes "ra_ok n ra" and "ra_ran_type ra = RA_TYPE_GERAN_Gb \<longrightarrow> ra_cells (nsei_strip nsei ra) \<noteq> []"
  shows "ra_ok n (nsei_strip nsei ra)"
  using assms by (auto simp: ra_ok_def cells_ok_def nsei_strip_def distinct_map_filter)

lemma inv_nsei_failure:
  assumes "ra_inv c g"
  shows "ra_inv c (snd (sgsn_ra_geran_nsei_failure_ind nsei g))"
proof -
  let ?P = "\<lambda>ra. ra_ran_type ra = RA_TYPE_GERAN_Gb \<longrightarrow> ra_cells ra \<noteq> []"
  have "distinct (map ra_id (map (nsei_strip nsei) (ra_list g)))" using assms by (simp add: ra_inv_def comp_def)
  then have "distinct (map ra_id (filter ?P (map (nsei_strip nsei) (ra_list g))))" by (rule distinct_map_filter)
  moreover have "sorted_wrt (\<lambda>a b. \<not> rai_same c (ra_rai a) (ra_rai b)) (map (nsei_strip nsei) (ra_list g))"
    using assms by (simp add: ra_inv_def sorted_wrt_map)
  then have "sorted_wrt (\<lambda>a b. \<not> rai_same c (ra_rai a) (ra_rai b)) (filter ?P (map (nsei_strip nsei) (ra_list g)))" by (rule sorted_wrt_filter)
  moreover have "\<forall>ra\<in>set (filter ?P (map (nsei_strip nsei) (ra_list g))). ra_ok (ra_next g) ra"
    using assms ra_ok_strip by (auto simp: ra_inv_def)
  ultimately show ?thesis
    by (simp add: sgsn_ra_geran_nsei_failure_ind_def split_beta nsei_loop_strip ra_inv_def)
qed

lemma cell_free_cases:
  assumes "ra_inv c g" and "ra \<in> set (ra_list g)"
  shows "sgsn_ra_cell_free_opt (ra_id ra) cell True g =
    (if filter (\<lambda>cl. rc_id cl \<noteq> cell) (ra_cells ra) = [] then sgsn_ra_free (ra_id ra) g else ra_cell_unlink (ra_id ra) cell g)"
proof -
  let ?f = "\<lambda>ra::sgsn_ra. ra\<lparr>ra_cells := filter (\<lambda>cl. rc_id cl \<noteq> cell) (ra_cells ra)\<rparr>"
  have d: "distinct (map ra_id (ra_list g))" using assms(1) by (simp add: ra_inv_def)
  have "find (\<lambda>r. ra_id r = ra_id ra) (map (\<lambda>r. if ra_id r = ra_id ra then ?f r else r) xs) =
      map_option ?f (find (\<lambda>r. ra_id r = ra_id ra) xs)" for xs
    by (induction xs) auto
  then have f: "find (\<lambda>r. ra_id r = ra_id ra) (ra_list (ra_cell_unlink (ra_id ra) cell g)) = Some (?f ra)"
    using find_id [OF d assms(2)] by (simp add: ra_cell_unlink_def ra_upd_def)
  have "filter (\<lambda>r. ra_id r \<noteq> ra_id ra) (map (\<lambda>r. if ra_id r = ra_id ra then ?f r else r) xs) = filter (\<lambda>r. ra_id r \<noteq> ra_id ra) xs" for xs :: "sgsn_ra list"
    by (induction xs) auto
  then have "sgsn_ra_free (ra_id ra) (ra_cell_unlink (ra_id ra) cell g) = sgsn_ra_free (ra_id ra) g"
    by (simp add: sgsn_ra_free_def ra_cell_unlink_def ra_upd_def)
  then show ?thesis by (simp add: sgsn_ra_cell_free_opt_def f)
qed

lemma inv_cell_free:
  assumes "ra_inv c g" and "ra \<in> set (ra_list g)" and "ra_ran_type ra = RA_TYPE_GERAN_Gb"
  shows "ra_inv c (sgsn_ra_cell_free_opt (ra_id ra) cell True g)"
proof (cases "filter (\<lambda>cl. rc_id cl \<noteq> cell) (ra_cells ra) = []")
  case True
  then show ?thesis using cell_free_cases [OF assms(1,2)] inv_ra_free [OF assms(1)] by simp
next
  case False
  have "ra_inv c ((ra_cell_unlink (ra_id ra) cell g)\<lparr>ra_next := ra_next g\<rparr>)" unfolding ra_cell_unlink_def
  proof (rule inv_ra_upd [OF assms(1)])
    fix r assume "r \<in> set (ra_list g)" "ra_id r = ra_id ra"
    then have "r = ra" using same_ra [OF assms(1) _ assms(2)] by blast
    then show "ra_ok (ra_next g) (r\<lparr>ra_cells := filter (\<lambda>cl. rc_id cl \<noteq> cell) (ra_cells r)\<rparr>)"
      using assms False by (auto simp: ra_inv_def ra_ok_def cells_ok_def distinct_map_filter filter_empty_conv)
  qed simp_all
  then show ?thesis using cell_free_cases [OF assms(1,2)] False by (simp add: ra_cell_unlink_def ra_upd_def)
qed

lemma cell_free_keeps:
  assumes "ra_inv c g" and "ra \<in> set (ra_list g)" and "ra' \<in> set (ra_list g)" and "ra_id ra' \<noteq> ra_id ra"
  shows "ra' \<in> set (ra_list (sgsn_ra_cell_free_opt (ra_id ra) cell True g))"
  using assms(3,4) unfolding cell_free_cases [OF assms(1,2)]
  by (auto simp: sgsn_ra_free_def ra_cell_unlink_def ra_upd_def image_iff intro: bexI [of _ ra'])

lemma cell_moved_ok:
  assumes "ra_inv c g" and "ra \<in> set (ra_list g)" and "ra_ran_type ra = RA_TYPE_GERAN_Gb" and "sgsn_ra_geran_get_cell_by_ra ra cell_id = None"
  shows "\<exists>g'. cell_moved c rai cell_id ra g = Inr g' \<and> ra_inv c g' \<and> ra \<in> set (ra_list g')"
proof (cases "sgsn_ra_geran_get_cell_by_lai c (rai_lac rai) cell_id g")
  case None
  then show ?thesis using assms by (simp add: cell_moved_def)
next
  case (Some x)
  obtain old cl where x: "x = (old, cl)" by (cases x)
  then have o: "old \<in> set (ra_list g)" "ra_ran_type old = RA_TYPE_GERAN_Gb" "cl \<in> set (ra_cells old)" "rc_cell_id cl = cell_id"
    using find_cell_D Some unfolding sgsn_ra_geran_get_cell_by_lai_def by fastforce+
  have "rc_ran_type cl = RA_TYPE_GERAN_Gb" using assms(1) o by (auto simp: ra_inv_def ra_ok_def cells_ok_def)
  then have "old \<noteq> ra" using assms(3,4) o by (auto simp: sgsn_ra_geran_get_cell_by_ra_def find_None_iff)
  then have n: "ra_id old \<noteq> ra_id ra" using same_ra [OF assms(1) o(1) assms(2)] by blast
  then show ?thesis using Some x inv_cell_free [OF assms(1) o(1,2)] cell_free_keeps [OF assms(1) o(1) assms(2)]
    by (simp add: cell_moved_def)
qed

lemma inv_cell_update:
  assumes "ra_inv c g"
  shows "ra_inv c (ra_upd k (\<lambda>ra. ra\<lparr>ra_cells := map (\<lambda>x. if rc_id x = j then x\<lparr>rc_bvci := bvci, rc_nsei := nsei\<rparr> else x) (ra_cells ra)\<rparr>) g)"
proof -
  let ?h = "\<lambda>x::sgsn_ra_cell. if rc_id x = j then x\<lparr>rc_bvci := bvci, rc_nsei := nsei\<rparr> else x"
  have "rc_id \<circ> ?h = rc_id" "rc_cell_id \<circ> ?h = rc_cell_id" by auto
  then have "ra_inv c ((ra_upd k (\<lambda>ra. ra\<lparr>ra_cells := map ?h (ra_cells ra)\<rparr>) g)\<lparr>ra_next := ra_next g\<rparr>)"
    using assms by (intro inv_ra_upd [OF assms]) (auto simp: ra_inv_def ra_ok_def cells_ok_def)
  then show ?thesis by (simp add: ra_upd_def)
qed

lemma cell_reset_ok:
  assumes "area_cmp_ok c" and "ra_inv c g"
  shows "\<exists>rc g'. sgsn_ra_geran_bvc_cell_reset_ind c nsei bvci rai cell_id g = Inr (rc, g') \<and> ra_inv c g'"
proof (cases "sgsn_ra_geran_get_ra c rai g")
  case None
  show ?thesis
  proof (cases "sgsn_ra_get_ra c rai g")
    case (Some ra)
    then have "ra_ran_type ra \<noteq> RA_TYPE_GERAN_Gb" using None geran_get_ra_iff by (metis option.distinct(1))
    then show ?thesis using None Some assms(2) by (simp add: sgsn_ra_geran_bvc_cell_reset_ind_def sgsn_ra_find_or_create_def)
  next
    case n: None
    then show ?thesis using None inv_ra_with_cell [OF assms n]
      by (simp add: sgsn_ra_geran_bvc_cell_reset_ind_def sgsn_ra_find_or_create_def sgsn_ra_alloc_def Let_def)
  qed
next
  case (Some ra)
  then have ra: "ra \<in> set (ra_list g)" "ra_ran_type ra = RA_TYPE_GERAN_Gb" using geran_get_ra_iff get_ra_D(1) by blast+
  show ?thesis
  proof (cases "sgsn_ra_geran_get_cell_by_ra ra cell_id")
    case n: None
    then show ?thesis using Some cell_moved_ok [OF assms(2) ra n, of rai] inv_cell_alloc [OF _ _ ra(2) n]
      by (auto simp: sgsn_ra_geran_bvc_cell_reset_ind_def)
  next
    case s: (Some cl)
    then show ?thesis using Some inv_cell_update [OF assms(2)] by (simp add: sgsn_ra_geran_bvc_cell_reset_ind_def)
  qed
qed

lemma inv_bvc_reset:
  assumes "area_cmp_ok c" and "ra_inv c g" and "bssgp_nm_bvc_reset_ind c nsei bvci ie g = Inr (rc, g')"
  shows "ra_inv c g'"
proof (cases "bvci = 0")
  case True
  then show ?thesis using assms(3) inv_nsei_failure [OF assms(2)]
    by (auto simp: bssgp_nm_bvc_reset_ind_def sgsn_ra_geran_bvc_sign_reset_ind_def)
next
  case False
  show ?thesis
  proof (cases ie)
    case None
    then show ?thesis using False assms by (simp add: bssgp_nm_bvc_reset_ind_def)
  next
    case (Some x)
    then show ?thesis using False assms cell_reset_ok [OF assms(1,2), of nsei bvci "fst x" "snd x"]
      by (auto simp: bssgp_nm_bvc_reset_ind_def split_beta)
  qed
qed

lemma ra_reachable_ok: "ra_reachable c g \<Longrightarrow> area_cmp_ok c \<Longrightarrow> ra_inv c g"
proof (induction rule: ra_reachable.induct)
  case ra_start
  then show ?case by (simp add: ra_inv_def sgsn_ra_init_def)
next
  case (ra_bvc_reset g nsei bvci ie rc g')
  then show ?case using inv_bvc_reset by blast
next
  case (ra_nsei_failure g nsei rc g')
  then show ?case using inv_nsei_failure by (metis snd_conv)
next
  case (ra_utran g rai rnc rc g')
  then show ?case using inv_utran_register by (metis snd_conv)
qed

subsection \<open>Properties\<close>

text \<open>
  C21. In every state the routing area list can reach, identities of areas are unique, no two areas have the
  same RAI, GERAN areas have at least one cell and only GERAN cells with different cell identities, UTRAN
  areas have none, and the reset of any cell is handled without a failed assertion.
\<close>

theorem ra_reachable_inv:
  assumes "area_cmp_ok c" and "ra_reachable c g"
  shows "ra_inv c g \<and> (\<forall>nsei bvci rai cell_id. \<exists>rc g'. sgsn_ra_geran_bvc_cell_reset_ind c nsei bvci rai cell_id g = Inr (rc, g'))"
  using ra_reachable_ok [OF assms(2,1)] cell_reset_ok [OF assms(1)] by blast

lemma get_ra_same:
  assumes "ra_inv c g" and "ra \<in> set (ra_list g)" and "rai_same c (ra_rai ra) rai" and "area_cmp_ok c"
  shows "sgsn_ra_get_ra c rai g = Some ra"
proof -
  have "find (\<lambda>r. rai_same c (ra_rai r) rai) xs = Some ra"
    if "sorted_wrt (\<lambda>a b. \<not> rai_same c (ra_rai a) (ra_rai b)) xs" "ra \<in> set xs" for xs
    using that
  proof (induction xs)
    case (Cons x xs)
    show ?case
    proof (cases "ra = x")
      case False
      then have "\<not> rai_same c (ra_rai x) (ra_rai ra)" using Cons.prems by simp
      then have "\<not> rai_same c (ra_rai x) rai" using assms(3) equiv_rai(2,3) [OF assms(4)] by blast
      then show ?thesis using Cons False by simp
    qed (use assms(3) in simp)
  qed simp
  then show ?thesis using assms(1,2) by (simp add: sgsn_ra_get_ra_def ra_inv_def)
qed

lemma by_cgi_ps:
  assumes "area_cmp_ok c" and "ra_inv c g" and "ra \<in> set (ra_list g)" and "rai_same c (ra_rai ra) rai" and "cl \<in> set (ra_cells ra)"
  shows "sgsn_ra_geran_get_cell_by_cgi_ps c rai (rc_cell_id cl) g = Some cl"
proof -
  have ok: "ra_ok (ra_next g) ra" using assms(2,3) by (simp add: ra_inv_def)
  have t: "ra_ran_type ra = RA_TYPE_GERAN_Gb" using ok assms(5) by (cases "ra_ran_type ra") (auto simp: ra_ok_def)
  have "find (\<lambda>x. rc_ran_type x = RA_TYPE_GERAN_Gb \<and> rc_cell_id x = rc_cell_id cl) xs = find (\<lambda>x. rc_cell_id x = rc_cell_id cl) xs"
    if "\<forall>x\<in>set xs. rc_ran_type x = RA_TYPE_GERAN_Gb" for xs :: "sgsn_ra_cell list"
    using that by (induction xs) auto
  then have "find (\<lambda>x. rc_ran_type x = RA_TYPE_GERAN_Gb \<and> rc_cell_id x = rc_cell_id cl) (ra_cells ra) = Some cl"
    using ok assms(5) find_id [of rc_cell_id "ra_cells ra" cl] by (simp add: ra_ok_def cells_ok_def)
  then show ?thesis using get_ra_same [OF assms(2-4,1)] t
    by (simp add: sgsn_ra_geran_get_cell_by_cgi_ps_def sgsn_ra_geran_get_ra_def sgsn_ra_geran_get_cell_by_ra_def)
qed

lemma cell_alloc_in:
  assumes "ra \<in> set (ra_list g)"
  shows "\<exists>ra'\<in>set (ra_list (sgsn_ra_cell_alloc_geran (ra_id ra) cell_id nsei bvci g)). ra_rai ra' = ra_rai ra \<and>
    (\<exists>cl\<in>set (ra_cells ra'). rc_cell_id cl = cell_id \<and> rc_nsei cl = nsei \<and> rc_bvci cl = bvci)"
proof -
  let ?f = "\<lambda>ra::sgsn_ra. ra\<lparr>ra_cells := \<lparr>rc_id = ra_next g, rc_ran_type = RA_TYPE_GERAN_Gb, rc_nsei = nsei, rc_bvci = bvci, rc_cell_id = cell_id\<rparr> # ra_cells ra\<rparr>"
  have "(\<lambda>r. if ra_id r = ra_id ra then ?f r else r) ra \<in> set (map (\<lambda>r. if ra_id r = ra_id ra then ?f r else r) (ra_list g))"
    unfolding set_map using assms by (rule imageI)
  then have "?f ra \<in> set (ra_list (sgsn_ra_cell_alloc_geran (ra_id ra) cell_id nsei bvci g))"
    by (simp add: sgsn_ra_cell_alloc_geran_def ra_upd_def Let_def)
  then show ?thesis by (rule bexI [rotated]) simp
qed

lemma reset_registers:
  assumes "ra_inv c g" and "ra \<in> set (ra_list g)" and "ra_ran_type ra = RA_TYPE_GERAN_Gb" and "rai_same c (ra_rai ra) rai"
    and "sgsn_ra_get_ra c rai g = Some ra" and "sgsn_ra_geran_bvc_cell_reset_ind c nsei bvci rai cell_id g = Inr (rc, g')"
  shows "rc = 0 \<and> (\<exists>ra'\<in>set (ra_list g'). rai_same c (ra_rai ra') rai \<and>
    (\<exists>cl\<in>set (ra_cells ra'). rc_cell_id cl = cell_id \<and> rc_nsei cl = nsei \<and> rc_bvci cl = bvci))"
proof (cases "sgsn_ra_geran_get_cell_by_ra ra cell_id")
  case None
  obtain g1 where g1: "cell_moved c rai cell_id ra g = Inr g1" "ra \<in> set (ra_list g1)"
    using cell_moved_ok [OF assms(1-3) None] by blast
  have "sgsn_ra_geran_get_ra c rai g = Some ra" using assms(3,5) by (simp add: geran_get_ra_iff)
  then have "rc = 0" "g' = sgsn_ra_cell_alloc_geran (ra_id ra) cell_id nsei bvci g1"
    using assms(6) None g1(1) by (simp_all add: sgsn_ra_geran_bvc_cell_reset_ind_def)
  moreover obtain ra' where r: "ra' \<in> set (ra_list (sgsn_ra_cell_alloc_geran (ra_id ra) cell_id nsei bvci g1))" "ra_rai ra' = ra_rai ra"
    "\<exists>cl\<in>set (ra_cells ra'). rc_cell_id cl = cell_id \<and> rc_nsei cl = nsei \<and> rc_bvci cl = bvci"
    using cell_alloc_in [OF g1(2)] by blast
  moreover have "rai_same c (ra_rai ra') rai" using r(2) assms(4) by simp
  ultimately show ?thesis by blast
next
  case (Some cl)
  let ?f = "\<lambda>ra::sgsn_ra. ra\<lparr>ra_cells := map (\<lambda>x. if rc_id x = rc_id cl then x\<lparr>rc_bvci := bvci, rc_nsei := nsei\<rparr> else x) (ra_cells ra)\<rparr>"
  have "cl \<in> set (ra_cells ra)" "rc_cell_id cl = cell_id"
    using Some by (auto simp: sgsn_ra_geran_get_cell_by_ra_def find_Some_iff split: if_splits)
  then have "\<exists>x\<in>set (ra_cells (?f ra)). rc_cell_id x = cell_id \<and> rc_nsei x = nsei \<and> rc_bvci x = bvci"
    by (intro bexI [of _ "cl\<lparr>rc_bvci := bvci, rc_nsei := nsei\<rparr>"]) (auto simp: image_iff intro: bexI [of _ cl])
  moreover have "?f ra \<in> set (ra_list (ra_upd (ra_id ra) ?f g))" using assms(2) by (auto simp: ra_upd_def image_iff intro: bexI [of _ ra])
  moreover have "rai_same c (ra_rai (?f ra)) rai" using assms(4) by simp
  moreover have "sgsn_ra_geran_get_ra c rai g = Some ra" using assms(3,5) by (simp add: geran_get_ra_iff)
  then have "rc = 0" "g' = ra_upd (ra_id ra) ?f g" using assms(6) Some by (simp_all add: sgsn_ra_geran_bvc_cell_reset_ind_def)
  ultimately show ?thesis by blast
qed

text \<open>
  C22. Registering a cell and finding it again: after a reset of a cell that is accepted, looking up its global
  identity returns a cell with the NSEI and BVCI of that reset.  It is refused exactly when the RAI
  belongs to a UTRAN area.
\<close>

theorem cell_reset_lookup:
  assumes "area_cmp_ok c" and "ra_reachable c g"
  shows "\<exists>rc g'. sgsn_ra_geran_bvc_cell_reset_ind c nsei bvci rai cell_id g = Inr (rc, g') \<and>
    (if sgsn_ra_utran_get_ra c rai g \<noteq> None then rc = - ENOMEM \<and> g' = g
     else rc = 0 \<and> (\<exists>cl. sgsn_ra_geran_get_cell_by_cgi_ps c rai cell_id g' = Some cl \<and> rc_nsei cl = nsei \<and> rc_bvci cl = bvci))"
proof -
  let ?reset = "sgsn_ra_geran_bvc_cell_reset_ind c nsei bvci rai cell_id g"
  have i: "ra_inv c g" by (rule ra_reachable_ok [OF assms(2,1)])
  have found: "\<exists>cl. sgsn_ra_geran_get_cell_by_cgi_ps c rai cell_id g' = Some cl \<and> rc_nsei cl = nsei \<and> rc_bvci cl = bvci"
    if "ra_inv c g'" "ra \<in> set (ra_list g')" "rai_same c (ra_rai ra) rai" "cl \<in> set (ra_cells ra)"
      "rc_cell_id cl = cell_id" "rc_nsei cl = nsei" "rc_bvci cl = bvci" for g' ra cl
    using by_cgi_ps [OF assms(1) that(1-4)] that(5-7) by auto
  show ?thesis
  proof (cases "sgsn_ra_get_ra c rai g")
    case None
    let ?g = "sgsn_ra_cell_alloc_geran (ra_next g) cell_id nsei bvci (snd (sgsn_ra_alloc rai RA_TYPE_GERAN_Gb g))"
    have "\<exists>ra\<in>set (ra_list ?g). rai_same c (ra_rai ra) rai \<and> (\<exists>cl\<in>set (ra_cells ra). rc_cell_id cl = cell_id \<and> rc_nsei cl = nsei \<and> rc_bvci cl = bvci)"
      using equiv_rai(1) [OF assms(1)] by (simp add: sgsn_ra_alloc_def sgsn_ra_cell_alloc_geran_def ra_upd_def Let_def)
    then have "\<exists>cl. sgsn_ra_geran_get_cell_by_cgi_ps c rai cell_id ?g = Some cl \<and> rc_nsei cl = nsei \<and> rc_bvci cl = bvci"
      using found [OF inv_ra_with_cell [OF assms(1) i None]] by blast
    moreover have "?reset = Inr (0, ?g)"
      using None by (simp add: sgsn_ra_geran_bvc_cell_reset_ind_def sgsn_ra_geran_get_ra_def sgsn_ra_find_or_create_def sgsn_ra_alloc_def Let_def)
    ultimately show ?thesis using None by (simp add: sgsn_ra_utran_get_ra_def)
  next
    case (Some ra)
    note ra = get_ra_D(1) [OF Some]
    show ?thesis
    proof (cases "ra_ran_type ra")
      case RA_TYPE_UTRAN_Iu
      then show ?thesis using Some
        by (simp add: sgsn_ra_geran_bvc_cell_reset_ind_def sgsn_ra_geran_get_ra_def sgsn_ra_find_or_create_def sgsn_ra_utran_get_ra_def)
    next
      case G: RA_TYPE_GERAN_Gb
      obtain rc g' where r: "?reset = Inr (rc, g')" "ra_inv c g'" using cell_reset_ok [OF assms(1) i] by blast
      have "rc = 0 \<and> (\<exists>ra'\<in>set (ra_list g'). rai_same c (ra_rai ra') rai \<and>
          (\<exists>cl\<in>set (ra_cells ra'). rc_cell_id cl = cell_id \<and> rc_nsei cl = nsei \<and> rc_bvci cl = bvci))"
        by (rule reset_registers [OF i ra(1)[THEN conjunct1] G ra(1)[THEN conjunct2]]) (use Some r in auto)
      then show ?thesis using found [OF r(2)] r(1) Some G by (auto simp: sgsn_ra_utran_get_ra_def)
    qed
  qed
qed

lemma strip_cells:
  assumes "ra_ok n ra"
  shows "ra_cells (nsei_strip nsei ra) = filter (\<lambda>cl. rc_nsei cl \<noteq> nsei) (ra_cells ra)"
    and "(ra_ran_type ra = RA_TYPE_GERAN_Gb \<longrightarrow> ra_cells (nsei_strip nsei ra) \<noteq> []) \<longleftrightarrow>
      ra_ran_type ra = RA_TYPE_UTRAN_Iu \<or> (\<exists>cl\<in>set (ra_cells ra). rc_nsei cl \<noteq> nsei)"
proof -
  have "filter (\<lambda>cl. \<not> (rc_ran_type cl = RA_TYPE_GERAN_Gb \<and> rc_nsei cl = nsei)) (ra_cells ra) = filter (\<lambda>cl. rc_nsei cl \<noteq> nsei) (ra_cells ra)"
    using assms by (intro filter_cong) (auto simp: ra_ok_def cells_ok_def)
  then show c: "ra_cells (nsei_strip nsei ra) = filter (\<lambda>cl. rc_nsei cl \<noteq> nsei) (ra_cells ra)"
    using assms by (cases "ra_ran_type ra") (auto simp: nsei_strip_def ra_ok_def)
  show "(ra_ran_type ra = RA_TYPE_GERAN_Gb \<longrightarrow> ra_cells (nsei_strip nsei ra) \<noteq> []) \<longleftrightarrow>
      ra_ran_type ra = RA_TYPE_UTRAN_Iu \<or> (\<exists>cl\<in>set (ra_cells ra). rc_nsei cl \<noteq> nsei)"
    unfolding c by (cases "ra_ran_type ra") (auto simp: filter_empty_conv)
qed

definition strip_all :: "u16 \<Rightarrow> sgsn_ra list \<Rightarrow> sgsn_ra list" where
  "strip_all nsei ras = filter (\<lambda>ra. ra_ran_type ra = RA_TYPE_GERAN_Gb \<longrightarrow> ra_cells ra \<noteq> []) (map (nsei_strip nsei) ras)"

lemma strip_all_Cons:
  assumes "ra_ok n ra"
  shows "strip_all nsei (ra # ras) =
    (if ra_ran_type ra = RA_TYPE_UTRAN_Iu \<or> (\<exists>cl\<in>set (ra_cells ra). rc_nsei cl \<noteq> nsei) then nsei_strip nsei ra # strip_all nsei ras else strip_all nsei ras)"
  using strip_cells(2) [OF assms, of nsei] by (simp add: strip_all_def)

lemma strip_all_cells:
  "\<forall>ra\<in>set ras. ra_ok n ra \<Longrightarrow>
   concat (map ra_cells (strip_all nsei ras)) = filter (\<lambda>cl. rc_nsei cl \<noteq> nsei) (concat (map ra_cells ras))"
proof (induction ras)
  case (Cons ra ras)
  have "filter (\<lambda>cl. rc_nsei cl \<noteq> nsei) (ra_cells ra) = []" if "\<not> (\<exists>cl\<in>set (ra_cells ra). rc_nsei cl \<noteq> nsei)"
    using that by (auto simp: filter_empty_conv)
  then show ?case using Cons strip_all_Cons [of n ra nsei ras] strip_cells(1) [of n ra nsei] by simp
qed (simp add: strip_all_def)

lemma strip_all_ids:
  "\<forall>ra\<in>set ras. ra_ok n ra \<Longrightarrow> map ra_id (strip_all nsei ras) =
   map ra_id (filter (\<lambda>ra. ra_ran_type ra = RA_TYPE_UTRAN_Iu \<or> (\<exists>cl\<in>set (ra_cells ra). rc_nsei cl \<noteq> nsei)) ras)"
proof (induction ras)
  case (Cons ra ras)
  then show ?case using strip_all_Cons [of n ra nsei ras] by simp
qed (simp add: strip_all_def)

lemma nsei_found_iff:
  assumes "\<forall>ra\<in>set ras. ra_ok n ra"
  shows "fst (nsei_failure_loop nsei ras) \<longleftrightarrow> (\<exists>cl\<in>set (concat (map ra_cells ras)). rc_nsei cl = nsei)"
proof -
  have "ra_ran_type ra = RA_TYPE_GERAN_Gb \<and> rc_ran_type cl = RA_TYPE_GERAN_Gb" if "ra \<in> set ras" "cl \<in> set (ra_cells ra)" for ra cl
    using that assms by (cases "ra_ran_type ra") (auto simp: ra_ok_def cells_ok_def)
  then show ?thesis by (auto simp: nsei_loop_found)
qed

lemma strip_all_none:
  assumes "\<forall>ra\<in>set ras. ra_ok n ra" and "\<not> (\<exists>cl\<in>set (concat (map ra_cells ras)). rc_nsei cl = nsei)"
  shows "strip_all nsei ras = ras"
  using assms
proof (induction ras)
  case (Cons ra ras)
  have "nsei_strip nsei ra = ra" using Cons.prems(2) by (auto simp: nsei_strip_def filter_id_conv)
  moreover have "ra_ran_type ra = RA_TYPE_UTRAN_Iu \<or> (\<exists>cl\<in>set (ra_cells ra). rc_nsei cl \<noteq> nsei)"
    using Cons.prems by (cases "ra_cells ra") (auto simp: ra_ok_def)
  ultimately show ?case using Cons strip_all_Cons [of n ra nsei ras] by auto
qed (simp add: strip_all_def)

text \<open>
  C23. After the failure of an NSE exactly its cells are gone, in the same order; the areas left are the UTRAN
  areas and the GERAN areas that still have a cell; the return value tells whether there was a
  cell.
\<close>

theorem nsei_failure_cells:
  assumes "area_cmp_ok c" and "ra_reachable c g"
  shows "\<exists>rc g'. sgsn_ra_geran_nsei_failure_ind nsei g = (rc, g') \<and>
    concat (map ra_cells (ra_list g')) = filter (\<lambda>cl. rc_nsei cl \<noteq> nsei) (concat (map ra_cells (ra_list g))) \<and>
    map ra_id (ra_list g') = map ra_id (filter (\<lambda>ra. ra_ran_type ra = RA_TYPE_UTRAN_Iu \<or> (\<exists>cl\<in>set (ra_cells ra). rc_nsei cl \<noteq> nsei)) (ra_list g)) \<and>
    (rc = 0 \<longleftrightarrow> (\<exists>cl\<in>set (concat (map ra_cells (ra_list g))). rc_nsei cl = nsei)) \<and> (rc \<noteq> 0 \<longrightarrow> rc = - ENOENT \<and> g' = g)"
proof -
  have ok: "\<forall>ra\<in>set (ra_list g). ra_ok (ra_next g) ra" using ra_reachable_ok [OF assms(2,1)] by (simp add: ra_inv_def)
  have r: "sgsn_ra_geran_nsei_failure_ind nsei g =
      (if \<exists>cl\<in>set (concat (map ra_cells (ra_list g))). rc_nsei cl = nsei then 0 else - ENOENT, g\<lparr>ra_list := strip_all nsei (ra_list g)\<rparr>)"
    by (simp only: sgsn_ra_geran_nsei_failure_ind_def split_beta nsei_loop_strip strip_all_def nsei_found_iff [OF ok] Let_def)
  show ?thesis unfolding r using strip_all_cells [OF ok] strip_all_ids [OF ok] strip_all_none [OF ok, of nsei] by (simp add: ENOENT_def)
qed

text \<open>
  C34. A cell that moves to a routing area that is not known yet stays in its old one: there are then two
  cells with the same cell identity in the location area, although the code means to drop the old one.
\<close>

theorem moved_cell_stale:
  assumes "area_cmp_ok c" and "ra_reachable c g" and "sgsn_ra_get_ra c rai g = None"
    and "sgsn_ra_geran_get_cell_by_lai c (rai_lac rai) cell_id g = Some (old, cl)"
  shows "\<exists>g' ra. sgsn_ra_geran_bvc_cell_reset_ind c nsei bvci rai cell_id g = Inr (0, g') \<and>
    old \<in> set (ra_list g') \<and> cl \<in> set (ra_cells old) \<and> rc_cell_id cl = cell_id \<and>
    ra \<in> set (ra_list g') \<and> ra \<noteq> old \<and> ra_rai ra = rai \<and> map rc_cell_id (ra_cells ra) = [cell_id] \<and>
    lai_same c (rai_lac (ra_rai old)) (rai_lac (ra_rai ra))"
proof -
  have i: "ra_inv c g" by (rule ra_reachable_ok [OF assms(2,1)])
  let ?cl = "\<lparr>rc_id = Suc (ra_next g), rc_ran_type = RA_TYPE_GERAN_Gb, rc_nsei = nsei, rc_bvci = bvci, rc_cell_id = cell_id\<rparr>"
  let ?ra = "\<lparr>ra_id = ra_next g, ra_rai = rai, ra_ran_type = RA_TYPE_GERAN_Gb, ra_rnc_id = zero_rnc_id, ra_cells = [?cl]\<rparr>"
  have o: "old \<in> set (ra_list g)" "cl \<in> set (ra_cells old)" "rc_cell_id cl = cell_id" "lai_same c (rai_lac (ra_rai old)) (rai_lac rai)"
    using find_cell_D [OF assms(4) [unfolded sgsn_ra_geran_get_cell_by_lai_def]] by auto
  have lt: "ra_id ra \<noteq> ra_next g" if "ra \<in> set (ra_list g)" for ra using i that by (auto simp: ra_inv_def ra_ok_def)
  then have m: "map (\<lambda>ra. if ra_id ra = ra_next g then f ra else ra) (ra_list g) = ra_list g" for f by (intro map_idI) auto
  have "sgsn_ra_geran_bvc_cell_reset_ind c nsei bvci rai cell_id g = Inr (0, g\<lparr>ra_list := ?ra # ra_list g, ra_next := Suc (Suc (ra_next g))\<rparr>)"
    using assms(3) by (simp add: sgsn_ra_geran_bvc_cell_reset_ind_def sgsn_ra_geran_get_ra_def sgsn_ra_find_or_create_def sgsn_ra_alloc_def
      sgsn_ra_cell_alloc_geran_def ra_upd_def Let_def m)
  moreover have "?ra \<noteq> old" using lt [OF o(1)] by auto
  ultimately show ?thesis using o by (intro exI [of _ "g\<lparr>ra_list := ?ra # ra_list g, ra_next := Suc (Suc (ra_next g))\<rparr>"] exI [of _ ?ra]) simp
qed

subsection \<open>An example\<close>

definition area_cmp_example :: area_cmp where
  "area_cmp_example = \<lparr>rai_same = (=), lai_same = (=), rnc_same = (=)\<rparr>"

definition rai_example :: "u8 \<Rightarrow> routing_area_id" where
  "rai_example rac = \<lparr>rai_lac = \<lparr>lai_plmn = \<lparr>pl_mcc = 262, pl_mnc = 42, pl_mnc_3_digits = False\<rparr>, lai_lac = 13135\<rparr>, rai_rac = rac\<rparr>"

lemma area_cmp_example_ok: "area_cmp_ok area_cmp_example"
  by (simp add: area_cmp_ok_def area_cmp_example_def identity_equivp)

text \<open>Cell 20960 of routing area 1 and cell 20961 of routing area 2, at two NSEs.\<close>

definition area_example :: "sgsn_ra_global exec" where
  "area_example =
     ebind (bssgp_nm_bvc_reset_ind area_cmp_example 96 196 (Some (rai_example 1, 20960)) sgsn_ra_init) (\<lambda>(_, g).
     ebind (bssgp_nm_bvc_reset_ind area_cmp_example 97 210 (Some (rai_example 2, 20961)) g) (\<lambda>(_, g). Inr g))"

lemma area_example_reachable: "area_example = Inr g \<Longrightarrow> ra_reachable area_cmp_example g"
  by (auto simp: area_example_def ebind_Inr_iff elim: ra_bvc_reset [OF ra_bvc_reset [OF ra_start]])

theorem ra_reachable_inv_witness:
  "\<exists>g. area_example = Inr g \<and> length (ra_list g) = 2 \<and> ra_inv area_cmp_example g"
proof -
  have "case area_example of Inl _ \<Rightarrow> False | Inr g \<Rightarrow> length (ra_list g) = 2" by code_simp
  then obtain g where "area_example = Inr g" "length (ra_list g) = 2" by (auto split: sum.split_asm)
  then show ?thesis using ra_reachable_inv [OF area_cmp_example_ok area_example_reachable] by blast
qed

theorem cell_reset_lookup_witness:
  "\<exists>g g' cl. area_example = Inr g \<and>
     sgsn_ra_geran_bvc_cell_reset_ind area_cmp_example 97 211 (rai_example 2) 20960 g = Inr (0, g') \<and>
     sgsn_ra_geran_get_cell_by_cgi_ps area_cmp_example (rai_example 2) 20960 g' = Some cl \<and> rc_bvci cl = 211"
proof -
  have "case area_example of Inl _ \<Rightarrow> False | Inr g \<Rightarrow> sgsn_ra_utran_get_ra area_cmp_example (rai_example 2) g = None" by code_simp
  then obtain g where g: "area_example = Inr g" "sgsn_ra_utran_get_ra area_cmp_example (rai_example 2) g = None"
    by (auto split: sum.split_asm)
  from cell_reset_lookup [OF area_cmp_example_ok area_example_reachable [OF g(1)], of 97 211 "rai_example 2" 20960] g
  show ?thesis by auto
qed

theorem nsei_failure_cells_witness:
  "\<exists>g g'. area_example = Inr g \<and> sgsn_ra_geran_nsei_failure_ind 96 g = (0, g') \<and>
     concat (map ra_cells (ra_list g')) = filter (\<lambda>cl. rc_nsei cl \<noteq> 96) (concat (map ra_cells (ra_list g)))"
proof -
  have "case area_example of Inl _ \<Rightarrow> False | Inr g \<Rightarrow> \<exists>cl\<in>set (concat (map ra_cells (ra_list g))). rc_nsei cl = 96" by code_simp
  then obtain g where g: "area_example = Inr g" "\<exists>cl\<in>set (concat (map ra_cells (ra_list g))). rc_nsei cl = 96"
    by (auto split: sum.split_asm)
  obtain rc g' where "sgsn_ra_geran_nsei_failure_ind 96 g = (rc, g')"
    "concat (map ra_cells (ra_list g')) = filter (\<lambda>cl. rc_nsei cl \<noteq> 96) (concat (map ra_cells (ra_list g)))" "rc = 0"
    using nsei_failure_cells [OF area_cmp_example_ok area_example_reachable [OF g(1)], of 96] g(2) by blast
  then show ?thesis using g(1) by blast
qed

theorem moved_cell_stale_witness:
  "\<exists>g g' old ra. area_example = Inr g \<and>
     sgsn_ra_geran_bvc_cell_reset_ind area_cmp_example 97 211 (rai_example 3) 20960 g = Inr (0, g') \<and>
     old \<in> set (ra_list g') \<and> 20960 \<in> rc_cell_id ` set (ra_cells old) \<and> ra \<in> set (ra_list g') \<and> ra \<noteq> old \<and>
     map rc_cell_id (ra_cells ra) = [20960]"
proof -
  have "case area_example of Inl _ \<Rightarrow> False | Inr g \<Rightarrow> sgsn_ra_get_ra area_cmp_example (rai_example 3) g = None \<and>
      sgsn_ra_geran_get_cell_by_lai area_cmp_example (rai_lac (rai_example 3)) 20960 g \<noteq> None" by code_simp
  then obtain g old cl where g: "area_example = Inr g" "sgsn_ra_get_ra area_cmp_example (rai_example 3) g = None"
      "sgsn_ra_geran_get_cell_by_lai area_cmp_example (rai_lac (rai_example 3)) 20960 g = Some (old, cl)"
    by (auto split: sum.split_asm)
  from moved_cell_stale [OF area_cmp_example_ok area_example_reachable [OF g(1)] g(2,3), of 97 211] g(1) show ?thesis
    by (metis image_eqI)
qed

end
