(* ===== verification/Gprs_Subscriber.thy ===== *)
theory Gprs_Subscriber
  imports Osmo_Prelude
begin

unbundle bit_operations_syntax

section \<open>Subscribers and authorization (src/src/sgsn/gprs\_subscriber.c, src/src/sgsn/sgsn\_auth.c)\<close>

text \<open>
  The records of the subscribers, what the HLR's messages change of their data, the choice of authentication
  vectors, the access control list and the state of authorization.  Strings are lists of characters without the
  terminating zero.  A pointer to a buffer together with its length is an optional list of
  octets; the buffers of fixed size are kept as the octets that are in use.  The handlers that end in
  \<^verbatim>\<open>sgsn_auth_update\<close>, which calls back into the GMM procedures, are not modelled.
\<close>

subsection \<open>Data\<close>

definition AUTH_KEY_SEQ_INVAL :: int where "AUTH_KEY_SEQ_INVAL = 7"
definition NUM_AUTH_TRIPLETS :: nat where "NUM_AUTH_TRIPLETS = 5"
definition SGSN_ERROR_CAUSE_NONE :: int where "SGSN_ERROR_CAUSE_NONE = -1"

record gsm_auth_tuple =
  at_use_count :: int
  at_key_seq :: int
  at_vec :: octets

record sgsn_subscriber_pdp_data =
  pd_context_id :: nat
  pd_type_org :: u8
  pd_type_nr :: u8
  pd_address :: "octets \<times> octets"
  pd_apn_str :: string
  pd_qos_subscribed :: octets
  pd_charg :: "octets option"

record sgsn_subscriber_data =
  sd_mm :: "nat option"
  sd_auth_triplets :: "gsm_auth_tuple list"
  sd_auth_triplets_updated :: bool
  sd_pdp_list :: "sgsn_subscriber_pdp_data list"
  sd_error_cause :: int
  sd_msisdn :: octets
  sd_hlr :: octets
  sd_charg :: "octets option"

definition GPRS_SUBSCRIBER_FIRST_CONTACT :: u32 where "GPRS_SUBSCRIBER_FIRST_CONTACT = 1"
definition GPRS_SUBSCRIBER_UPDATE_AUTH_INFO_PENDING :: u32 where "GPRS_SUBSCRIBER_UPDATE_AUTH_INFO_PENDING = push_bit 16 1"
definition GPRS_SUBSCRIBER_UPDATE_LOCATION_PENDING :: u32 where "GPRS_SUBSCRIBER_UPDATE_LOCATION_PENDING = push_bit 17 1"
definition GPRS_SUBSCRIBER_CANCELLED :: u32 where "GPRS_SUBSCRIBER_CANCELLED = push_bit 18 1"
definition GPRS_SUBSCRIBER_ENABLE_PURGE :: u32 where "GPRS_SUBSCRIBER_ENABLE_PURGE = push_bit 19 1"

definition GPRS_SUBSCRIBER_UPDATE_PENDING_MASK :: u32 where
  "GPRS_SUBSCRIBER_UPDATE_PENDING_MASK = GPRS_SUBSCRIBER_UPDATE_LOCATION_PENDING OR GPRS_SUBSCRIBER_UPDATE_AUTH_INFO_PENDING"

definition GSM_RESERVED_TMSI :: u32 where "GSM_RESERVED_TMSI = 0xffffffff"

record gprs_subscr =
  gs_id :: nat
  gs_use_count :: int
  gs_imsi :: string
  gs_tmsi :: u32
  gs_imei :: string
  gs_authorized :: bool
  gs_keep_in_ram :: bool
  gs_flags :: u32
  gs_lac :: u16
  gs_sgsn_data :: "sgsn_subscriber_data option"

record gprs_subscribers =
  gss_list :: "gprs_subscr list"
  gss_next :: nat

definition GSM23003_IMSI_MAX_DIGITS :: nat where "GSM23003_IMSI_MAX_DIGITS = 15"
definition INT_MAX :: int where "INT_MAX = 2147483647"

subsection \<open>Life cycle\<close>

definition no_tuple :: gsm_auth_tuple where
  "no_tuple = \<lparr>at_use_count = 0, at_key_seq = AUTH_KEY_SEQ_INVAL, at_vec = []\<rparr>"

definition sgsn_subscriber_data_alloc :: sgsn_subscriber_data where
  "sgsn_subscriber_data_alloc =
     \<lparr>sd_mm = None, sd_auth_triplets = replicate NUM_AUTH_TRIPLETS no_tuple, sd_auth_triplets_updated = False, sd_pdp_list = [],
      sd_error_cause = SGSN_ERROR_CAUSE_NONE, sd_msisdn = [], sd_hlr = [], sd_charg = None\<rparr>"

definition sgsn_subscriber_pdp_data_alloc :: sgsn_subscriber_pdp_data where
  "sgsn_subscriber_pdp_data_alloc =
     \<lparr>pd_context_id = 0, pd_type_org = 0, pd_type_nr = 0, pd_address = ([], []), pd_apn_str = [], pd_qos_subscribed = [], pd_charg = None\<rparr>"

definition subscr_upd :: "nat \<Rightarrow> (gprs_subscr \<Rightarrow> gprs_subscr) \<Rightarrow> gprs_subscribers \<Rightarrow> gprs_subscribers" where
  "subscr_upd k f g = g\<lparr>gss_list := map (\<lambda>s. if gs_id s = k then f s else s) (gss_list g)\<rparr>"

definition gprs_subscr_get :: "gprs_subscr \<Rightarrow> gprs_subscribers \<Rightarrow> gprs_subscribers exec" where
  "gprs_subscr_get s g =
     ebind (osmo_assert (gs_use_count s < INT_MAX)) (\<lambda>_. Inr (subscr_upd (gs_id s) (\<lambda>s. s\<lparr>gs_use_count := gs_use_count s + 1\<rparr>) g))"

definition gprs_subscr_free :: "nat \<Rightarrow> gprs_subscribers \<Rightarrow> gprs_subscribers" where
  "gprs_subscr_free k g = g\<lparr>gss_list := filter (\<lambda>s. gs_id s \<noteq> k) (gss_list g)\<rparr>"

definition gprs_subscr_put :: "gprs_subscr \<Rightarrow> gprs_subscribers \<Rightarrow> gprs_subscribers" where
  "gprs_subscr_put s g =
     (if gs_use_count s - 1 > 0 \<or> gs_keep_in_ram s then subscr_upd (gs_id s) (\<lambda>s. s\<lparr>gs_use_count := gs_use_count s - 1\<rparr>) g
      else gprs_subscr_free (gs_id s) g)"

definition gprs_subscr_get_by_imsi :: "string \<Rightarrow> gprs_subscribers \<Rightarrow> (nat option \<times> gprs_subscribers) exec" where
  "gprs_subscr_get_by_imsi imsi g =
     (if imsi = [] then Inr (None, g)
      else case find (\<lambda>s. gs_imsi s = imsi) (gss_list g) of
        None \<Rightarrow> Inr (None, g)
      | Some s \<Rightarrow> ebind (gprs_subscr_get s g) (\<lambda>g. Inr (Some (gs_id s), g)))"

definition gprs_subscr_alloc :: "gprs_subscribers \<Rightarrow> nat \<times> gprs_subscribers" where
  "gprs_subscr_alloc g =
     (gss_next g,
      g\<lparr>gss_list := gss_list g @ [\<lparr>gs_id = gss_next g, gs_use_count = 1, gs_imsi = [], gs_tmsi = GSM_RESERVED_TMSI, gs_imei = [],
           gs_authorized = False, gs_keep_in_ram = False, gs_flags = 0, gs_lac = 0, gs_sgsn_data = None\<rparr>],
        gss_next := Suc (gss_next g)\<rparr>)"

definition gprs_subscr_get_or_create :: "string \<Rightarrow> gprs_subscribers \<Rightarrow> (nat \<times> gprs_subscribers) exec" where
  "gprs_subscr_get_or_create imsi g =
     ebind (gprs_subscr_get_by_imsi imsi g) (\<lambda>(found, g).
     let (k, g) = (case found of
                     Some k \<Rightarrow> (k, g)
                   | None \<Rightarrow> let (k, g) = gprs_subscr_alloc g in (k, subscr_upd k (\<lambda>s. s\<lparr>gs_imsi := take GSM23003_IMSI_MAX_DIGITS imsi\<rparr>) g)) in
     Inr (k, subscr_upd k (\<lambda>s. if gs_sgsn_data s = None then s\<lparr>gs_sgsn_data := Some sgsn_subscriber_data_alloc\<rparr> else s) g))"

subsection \<open>Subscriber data from the HLR\<close>

record osmo_gsup_pdp_info =
  gpi_context_id :: nat
  gpi_pdp_type_org :: u8
  gpi_pdp_type_nr :: u8
  gpi_apn_enc :: octets
  gpi_qos_enc :: "octets option"
  gpi_pdp_address :: "octets \<times> octets"
  gpi_pdp_charg_enc :: "octets option"

record osmo_gsup_data =
  gsm_update_location_result :: bool
  gsm_msisdn_enc :: "octets option"
  gsm_hlr_enc :: "octets option"
  gsm_pdp_charg_enc :: "octets option"
  gsm_pdp_info_compl :: bool
  gsm_pdp_infos :: "osmo_gsup_pdp_info list"

definition MSISDN_SIZE :: nat where "MSISDN_SIZE = 9"
definition HLR_SIZE :: nat where "HLR_SIZE = 9"
definition PDP_CHARG_SIZE :: nat where "PDP_CHARG_SIZE = 2"
definition APN_STR_SIZE :: nat where "APN_STR_SIZE = 102"
definition QOS_SUBSCRIBED_SIZE :: nat where "QOS_SUBSCRIBED_SIZE = 20"

text \<open>A number that is too long empties the one that is stored; the charging characteristics need two octets.\<close>

definition copy_number :: "nat \<Rightarrow> octets option \<Rightarrow> octets \<Rightarrow> octets" where
  "copy_number cap enc old = (case enc of None \<Rightarrow> old | Some n \<Rightarrow> if length n > cap then [] else n)"

definition copy_charg :: "octets option \<Rightarrow> octets option" where
  "copy_charg enc = (case enc of None \<Rightarrow> None | Some c \<Rightarrow> if length c \<ge> PDP_CHARG_SIZE then Some (take PDP_CHARG_SIZE c) else None)"

definition gprs_subscr_pdp_data_clear :: "sgsn_subscriber_data \<Rightarrow> int \<times> sgsn_subscriber_data" where
  "gprs_subscr_pdp_data_clear sd = (int (length (sd_pdp_list sd)), sd\<lparr>sd_pdp_list := []\<rparr>)"

definition gprs_subscr_pdp_data_get_by_id :: "nat \<Rightarrow> sgsn_subscriber_data \<Rightarrow> sgsn_subscriber_pdp_data option" where
  "gprs_subscr_pdp_data_get_by_id k sd = find (\<lambda>p. pd_context_id p = k) (sd_pdp_list sd)"

text \<open>\<open>to_str\<close> is \<^verbatim>\<open>osmo_apn_to_str\<close> of libosmocore on a well-formed APN; one on which it fails, and
  leaves the old string in place as far as it has not been overwritten, is not distinguished.\<close>

definition set_pdp_info :: "(octets \<Rightarrow> string) \<Rightarrow> osmo_gsup_pdp_info \<Rightarrow> sgsn_subscriber_pdp_data \<Rightarrow> sgsn_subscriber_pdp_data" where
  "set_pdp_info to_str i p =
     p\<lparr>pd_type_org := gpi_pdp_type_org i, pd_type_nr := gpi_pdp_type_nr i, pd_apn_str := to_str (gpi_apn_enc i),
       pd_qos_subscribed := (case gpi_qos_enc i of None \<Rightarrow> [] | Some q \<Rightarrow> q), pd_address := gpi_pdp_address i,
       pd_charg := copy_charg (gpi_pdp_charg_enc i)\<rparr>"

definition pdp_info_accepted :: "osmo_gsup_pdp_info \<Rightarrow> bool" where
  "pdp_info_accepted i \<longleftrightarrow>
     length (gpi_apn_enc i) < APN_STR_SIZE - 1 \<and> (case gpi_qos_enc i of None \<Rightarrow> True | Some q \<Rightarrow> length q \<le> QOS_SUBSCRIBED_SIZE)"

fun insert_pdp_infos :: "(octets \<Rightarrow> string) \<Rightarrow> osmo_gsup_pdp_info list \<Rightarrow> sgsn_subscriber_data \<Rightarrow> sgsn_subscriber_data" where
  "insert_pdp_infos to_str [] sd = sd"
| "insert_pdp_infos to_str (i # is) sd =
     insert_pdp_infos to_str is
       (if \<not> pdp_info_accepted i then sd
        else let sd = (case gprs_subscr_pdp_data_get_by_id (gpi_context_id i) sd of
                         Some _ \<Rightarrow> sd
                       | None \<Rightarrow> sd\<lparr>sd_pdp_list := sd_pdp_list sd @ [sgsn_subscriber_pdp_data_alloc\<lparr>pd_context_id := gpi_context_id i\<rparr>]\<rparr>) in
             sd\<lparr>sd_pdp_list := upd_first (\<lambda>p. pd_context_id p = gpi_context_id i) (set_pdp_info to_str i) (sd_pdp_list sd)\<rparr>)"

definition gprs_subscr_gsup_insert_data :: "(octets \<Rightarrow> string) \<Rightarrow> osmo_gsup_data \<Rightarrow> sgsn_subscriber_data \<Rightarrow> sgsn_subscriber_data" where
  "gprs_subscr_gsup_insert_data to_str msg sd =
     (let sd = sd\<lparr>sd_msisdn := copy_number MSISDN_SIZE (gsm_msisdn_enc msg) (sd_msisdn sd),
                  sd_hlr := copy_number HLR_SIZE (gsm_hlr_enc msg) (sd_hlr sd),
                  sd_charg := copy_charg (gsm_pdp_charg_enc msg)\<rparr>;
          sd = (if gsm_pdp_info_compl msg \<and> (gsm_pdp_infos msg \<noteq> [] \<or> \<not> gsm_update_location_result msg)
                then snd (gprs_subscr_pdp_data_clear sd) else sd) in
      insert_pdp_infos to_str (gsm_pdp_infos msg) sd)"

subsection \<open>Authentication vectors\<close>

text \<open>
  \<open>sgsn_auth_get_tuple\<close> of the subscriber's data.  The result is the index of the vector, which is marked as
  used; \<open>idx\<close> is an unsigned integer, so that its increment may wrap around.
\<close>

fun get_tuple_loop :: "nat \<Rightarrow> u32 \<Rightarrow> gsm_auth_tuple list \<Rightarrow> (nat option \<times> gsm_auth_tuple list) exec" where
  "get_tuple_loop 0 idx ts = Inr (None, ts)"
| "get_tuple_loop (Suc count) idx ts =
     (let idx = (idx + 1) mod of_nat NUM_AUTH_TRIPLETS; i = unat idx in
      if i \<ge> length ts then Inl Oob_access
      else if at_key_seq (ts ! i) = AUTH_KEY_SEQ_INVAL then get_tuple_loop count idx ts
      else if at_use_count (ts ! i) = 0 then Inr (Some i, ts[i := (ts ! i)\<lparr>at_use_count := 1\<rparr>])
      else get_tuple_loop count idx ts)"

definition sgsn_auth_get_tuple :: "u32 \<Rightarrow> gsm_auth_tuple list \<Rightarrow> (nat option \<times> gsm_auth_tuple list) exec" where
  "sgsn_auth_get_tuple key_seq ts =
     get_tuple_loop NUM_AUTH_TRIPLETS (if key_seq = of_int AUTH_KEY_SEQ_INVAL then of_nat (NUM_AUTH_TRIPLETS - 1) else key_seq) ts"

text \<open>The vectors of a \<^verbatim>\<open>SEND_AUTH_INFO_RESULT\<close>, from the first part of its handler.\<close>

definition auth_tuples :: "octets list \<Rightarrow> gsm_auth_tuple list \<Rightarrow> gsm_auth_tuple list" where
  "auth_tuples vecs ts =
     (if vecs = [] then ts
      else map (\<lambda>i. if i < length vecs then \<lparr>at_use_count = 0, at_key_seq = int i, at_vec = vecs ! i\<rparr> else no_tuple) [0..<NUM_AUTH_TRIPLETS])"

definition gprs_subscr_reset_auth_triplets :: "gprs_subscr \<Rightarrow> gprs_subscr" where
  "gprs_subscr_reset_auth_triplets s =
     (case gs_sgsn_data s of
        None \<Rightarrow> s
      | Some sd \<Rightarrow> s\<lparr>gs_sgsn_data := Some (sd\<lparr>sd_auth_triplets := replicate NUM_AUTH_TRIPLETS no_tuple, sd_auth_triplets_updated := False\<rparr>),
                     gs_flags := gs_flags s AND NOT GPRS_SUBSCRIBER_UPDATE_AUTH_INFO_PENDING\<rparr>)"

subsection \<open>Access control list\<close>

definition ENODEV :: int where "ENODEV = 19"
definition OSMO_IMSI_BUF_SIZE :: nat where "OSMO_IMSI_BUF_SIZE = 16"

definition sgsn_acl_lookup :: "string \<Rightarrow> string list \<Rightarrow> string option" where
  "sgsn_acl_lookup imsi acl = find (\<lambda>e. e = imsi) acl"

definition sgsn_acl_add :: "string \<Rightarrow> string list \<Rightarrow> int \<times> string list" where
  "sgsn_acl_add imsi acl =
     (if sgsn_acl_lookup imsi acl \<noteq> None then (- EEXIST, acl) else (0, take (OSMO_IMSI_BUF_SIZE - 1) imsi # acl))"

definition sgsn_acl_del :: "string \<Rightarrow> string list \<Rightarrow> int \<times> string list" where
  "sgsn_acl_del imsi acl =
     (case sgsn_acl_lookup imsi acl of None \<Rightarrow> (- ENODEV, acl) | Some e \<Rightarrow> (0, remove_first (\<lambda>x. x = e) acl))"

subsection \<open>State of authorization\<close>

datatype sgsn_auth_policy = SGSN_AUTH_POLICY_OPEN | SGSN_AUTH_POLICY_CLOSED | SGSN_AUTH_POLICY_ACL_ONLY | SGSN_AUTH_POLICY_REMOTE

datatype auth_state = SGSN_AUTH_UNKNOWN | SGSN_AUTH_AUTHENTICATE | SGSN_AUTH_UMTS_RESYNC | SGSN_AUTH_ACCEPTED | SGSN_AUTH_REJECTED

datatype auth_type = OSMO_AUTH_TYPE_NONE | OSMO_AUTH_TYPE_GSM | OSMO_AUTH_TYPE_UMTS

text \<open>
  What is read of the MM context: \<open>av_mccmnc\<close> is the code of its network as libosmocore writes it and
  \<open>av_mnc_3_digits\<close> whether the MNC has three digits.
\<close>

record auth_view =
  av_imsi :: string
  av_auth_state :: auth_state
  av_sec_ctx :: auth_type
  av_mccmnc :: string
  av_mnc_3_digits :: bool
  av_subscr :: "gprs_subscr option"

record auth_cfg =
  cfg_auth_policy :: sgsn_auth_policy
  cfg_require_authentication :: bool
  cfg_imsi_acl :: "string list"

definition sgsn_mm_ctx_is_authenticated :: "auth_view \<Rightarrow> bool" where
  "sgsn_mm_ctx_is_authenticated mm \<longleftrightarrow> av_sec_ctx mm = OSMO_AUTH_TYPE_GSM \<or> av_sec_ctx mm = OSMO_AUTH_TYPE_UMTS"

definition strncmp_eq :: "string \<Rightarrow> string \<Rightarrow> nat \<Rightarrow> bool" where
  "strncmp_eq a b n \<longleftrightarrow> take n a = take n b"

definition auth_state_remote :: "auth_cfg \<Rightarrow> auth_view \<Rightarrow> auth_state exec" where
  "auth_state_remote cfg mm =
     (case av_subscr mm of
        None \<Rightarrow> Inr (av_auth_state mm)
      | Some s \<Rightarrow>
          if gs_flags s AND GPRS_SUBSCRIBER_UPDATE_PENDING_MASK \<noteq> 0 then Inr (av_auth_state mm)
          else if (case gs_sgsn_data s of None \<Rightarrow> False | Some sd \<Rightarrow> sd_error_cause sd \<noteq> SGSN_ERROR_CAUSE_NONE) \<and> \<not> gs_authorized s
          then Inr SGSN_AUTH_REJECTED
          else if cfg_require_authentication cfg \<and> \<not> sgsn_mm_ctx_is_authenticated mm then Inr SGSN_AUTH_AUTHENTICATE
          else ebind (if cfg_require_authentication cfg then ebind (deref (gs_sgsn_data s)) (\<lambda>sd. Inr (sd_auth_triplets_updated sd)) else Inr False) (\<lambda>updated.
               if updated then Inr SGSN_AUTH_AUTHENTICATE
               else if gs_authorized s then Inr SGSN_AUTH_ACCEPTED
               else Inr SGSN_AUTH_REJECTED))"

definition sgsn_auth_state :: "auth_cfg \<Rightarrow> auth_view \<Rightarrow> auth_state exec" where
  "sgsn_auth_state cfg mm =
     (case cfg_auth_policy cfg of
        SGSN_AUTH_POLICY_OPEN \<Rightarrow> Inr SGSN_AUTH_ACCEPTED
      | SGSN_AUTH_POLICY_REMOTE \<Rightarrow> auth_state_remote cfg mm
      | pol \<Rightarrow>
          if av_imsi mm = [] then Inr SGSN_AUTH_UNKNOWN
          else if pol = SGSN_AUTH_POLICY_CLOSED \<and> strncmp_eq (av_mccmnc mm) (av_imsi mm) (if av_mnc_3_digits mm then 6 else 5)
          then Inr SGSN_AUTH_ACCEPTED
          else if sgsn_acl_lookup (av_imsi mm) (cfg_imsi_acl cfg) \<noteq> None then Inr SGSN_AUTH_ACCEPTED
          else Inr SGSN_AUTH_REJECTED)"


subsection \<open>The APNs of a subscriber as a map\<close>

text \<open>
  The list of PDP records as the map from context identifiers that it stands for.  Every context identifier occurs once,
  which the insertion of data keeps.
\<close>

definition pdp_map :: "sgsn_subscriber_data \<Rightarrow> nat \<rightharpoonup> sgsn_subscriber_pdp_data" where
  "pdp_map sd = map_of (map (\<lambda>p. (pd_context_id p, p)) (sd_pdp_list sd))"

definition pdp_ids_distinct :: "sgsn_subscriber_data \<Rightarrow> bool" where
  "pdp_ids_distinct sd \<longleftrightarrow> distinct (map pd_context_id (sd_pdp_list sd))"

definition pdp_record :: "(octets \<Rightarrow> string) \<Rightarrow> osmo_gsup_pdp_info \<Rightarrow> sgsn_subscriber_pdp_data" where
  "pdp_record to_str i =
     \<lparr>pd_context_id = gpi_context_id i, pd_type_org = gpi_pdp_type_org i, pd_type_nr = gpi_pdp_type_nr i, pd_address = gpi_pdp_address i,
      pd_apn_str = to_str (gpi_apn_enc i), pd_qos_subscribed = (case gpi_qos_enc i of None \<Rightarrow> [] | Some q \<Rightarrow> q),
      pd_charg = copy_charg (gpi_pdp_charg_enc i)\<rparr>"

definition pdp_info_map :: "(octets \<Rightarrow> string) \<Rightarrow> osmo_gsup_pdp_info list \<Rightarrow> nat \<rightharpoonup> sgsn_subscriber_pdp_data" where
  "pdp_info_map to_str is = map_of (rev (map (\<lambda>i. (gpi_context_id i, pdp_record to_str i)) (filter pdp_info_accepted is)))"

lemma set_pdp_info_record: "pd_context_id p = gpi_context_id i \<Longrightarrow> set_pdp_info to_str i p = pdp_record to_str i"
  by (simp add: set_pdp_info_def pdp_record_def)

lemma set_pdp_info_id: "pd_context_id (set_pdp_info to_str i p) = pd_context_id p"
  by (simp add: set_pdp_info_def)

lemma upd_first_absent: "\<forall>x\<in>set xs. \<not> P x \<Longrightarrow> upd_first P f (xs @ [y]) = xs @ upd_first P f [y]"
  by (induction xs) auto

lemma pdp_record_id [simp]: "pd_context_id (pdp_record to_str i) = gpi_context_id i"
  by (simp add: pdp_record_def)

lemma map_of_upd_first:
  assumes "k \<in> key ` set ps" and "\<And>p. key p = k \<Longrightarrow> f p = v" and "key v = k"
  shows "map_of (map (\<lambda>p. (key p, p)) (upd_first (\<lambda>p. key p = k) f ps)) = (map_of (map (\<lambda>p. (key p, p)) ps))(k \<mapsto> v)"
  using assms(1)
proof (induction ps)
  case (Cons p ps)
  show ?case
  proof (cases "key p = k")
    case True
    then show ?thesis using assms(2,3) by (auto simp: fun_eq_iff)
  next
    case False
    then show ?thesis using Cons by (auto simp: fun_upd_twist)
  qed
qed simp

lemma map_of_append_new:
  "key v \<notin> key ` set ps \<Longrightarrow> map_of (map (\<lambda>p. (key p, p)) (ps @ [v])) = (map_of (map (\<lambda>p. (key p, p)) ps))(key v \<mapsto> v)"
  by (induction ps) (auto simp: fun_upd_twist)

lemma insert_pdp_info_step:
  fixes sd :: sgsn_subscriber_data
  assumes "pdp_ids_distinct sd" "pdp_info_accepted i" and sd'_def: "sd' = insert_pdp_infos to_str [i] sd"
  shows "pdp_ids_distinct sd' \<and> pdp_map sd' = (pdp_map sd)(gpi_context_id i \<mapsto> pdp_record to_str i)"
proof (cases "\<exists>p\<in>set (sd_pdp_list sd). pd_context_id p = gpi_context_id i")
  case True
  then have "gprs_subscr_pdp_data_get_by_id (gpi_context_id i) sd \<noteq> None"
    by (auto simp: gprs_subscr_pdp_data_get_by_id_def find_None_iff)
  then have s: "sd' = sd\<lparr>sd_pdp_list := upd_first (\<lambda>p. pd_context_id p = gpi_context_id i) (set_pdp_info to_str i) (sd_pdp_list sd)\<rparr>"
    using assms(2) by (auto simp: sd'_def)
  have mem: "gpi_context_id i \<in> pd_context_id ` set (sd_pdp_list sd)" using True by (metis image_eqI)
  show ?thesis
    using assms(1) mem map_of_upd_first [where key = pd_context_id and k = "gpi_context_id i" and ps = "sd_pdp_list sd"
      and f = "set_pdp_info to_str i" and v = "pdp_record to_str i", OF _ set_pdp_info_record]
    by (auto simp: s pdp_ids_distinct_def pdp_map_def map_upd_first set_pdp_info_id)
next
  case False
  then have n: "gprs_subscr_pdp_data_get_by_id (gpi_context_id i) sd = None"
    by (auto simp: gprs_subscr_pdp_data_get_by_id_def find_None_iff)
  have "sd_pdp_list sd' = sd_pdp_list sd @ [pdp_record to_str i]"
    using False n assms(2) by (simp add: sd'_def upd_first_absent set_pdp_info_record)
  moreover have "gpi_context_id i \<notin> pd_context_id ` set (sd_pdp_list sd)" using False by auto
  ultimately show ?thesis using assms(1)
    using map_of_append_new [of pd_context_id "pdp_record to_str i" "sd_pdp_list sd"] by (auto simp: pdp_ids_distinct_def pdp_map_def)
qed

lemma insert_pdp_infos_Cons: "insert_pdp_infos to_str (i # is) sd = insert_pdp_infos to_str is (insert_pdp_infos to_str [i] sd)"
  by simp

lemma insert_pdp_infos_map:
  "pdp_ids_distinct sd \<Longrightarrow>
   pdp_ids_distinct (insert_pdp_infos to_str is sd) \<and> pdp_map (insert_pdp_infos to_str is sd) = pdp_map sd ++ pdp_info_map to_str is"
proof (induction "is" arbitrary: sd)
  case Nil
  then show ?case by (simp add: pdp_info_map_def)
next
  case (Cons i "is")
  show ?case
  proof (cases "pdp_info_accepted i")
    case True
    let ?sd = "insert_pdp_infos to_str [i] sd"
    note S = insert_pdp_info_step [OF Cons.prems True refl, of to_str]
    have "pdp_info_map to_str (i # is) = [gpi_context_id i \<mapsto> pdp_record to_str i] ++ pdp_info_map to_str is"
      using True by (simp add: pdp_info_map_def)
    moreover have "(pdp_map sd)(gpi_context_id i \<mapsto> pdp_record to_str i) ++ m = pdp_map sd ++ ([gpi_context_id i \<mapsto> pdp_record to_str i] ++ m)" for m
      by (auto simp: fun_eq_iff map_add_def split: option.splits)
    ultimately show ?thesis using Cons.IH [of ?sd] S
      by (simp only: insert_pdp_infos_Cons [of _ i "is"] simp_thms)
  next
    case False
    then show ?thesis using Cons by (simp add: pdp_info_map_def)
  qed
qed

text \<open>
  C11. Subscriber data from the HLR refine a map: the map from context identifiers to the subscriber's access points
  after the insertion is the old one, or the empty one if the message says that it is complete (and
  is not an update location result without any access point), overridden with the accepted elements of the message, of which the
  last one with an identifier counts.  Identifiers stay distinct.
\<close>

theorem insert_data_refines:
  assumes "pdp_ids_distinct sd" and sd'_def: "sd' = gprs_subscr_gsup_insert_data to_str msg sd"
  shows "pdp_ids_distinct sd' \<and>
    pdp_map sd' = (if gsm_pdp_info_compl msg \<and> (gsm_pdp_infos msg = [] \<longrightarrow> \<not> gsm_update_location_result msg) then Map.empty else pdp_map sd)
                  ++ pdp_info_map to_str (gsm_pdp_infos msg)"
proof -
  define sd1 where "sd1 = sd\<lparr>sd_msisdn := copy_number MSISDN_SIZE (gsm_msisdn_enc msg) (sd_msisdn sd),
                  sd_hlr := copy_number HLR_SIZE (gsm_hlr_enc msg) (sd_hlr sd), sd_charg := copy_charg (gsm_pdp_charg_enc msg)\<rparr>"
  have 1: "pdp_ids_distinct sd1" "pdp_map sd1 = pdp_map sd"
    using assms(1) by (simp_all add: sd1_def pdp_ids_distinct_def pdp_map_def)
  have 2: "pdp_ids_distinct (sd1\<lparr>sd_pdp_list := []\<rparr>)" "pdp_map (sd1\<lparr>sd_pdp_list := []\<rparr>) = Map.empty"
    by (simp_all add: pdp_ids_distinct_def pdp_map_def)
  show ?thesis using 1 2 insert_pdp_infos_map [of sd1] insert_pdp_infos_map [of "sd1\<lparr>sd_pdp_list := []\<rparr>"]
    by (auto simp: sd'_def gprs_subscr_gsup_insert_data_def gprs_subscr_pdp_data_clear_def Let_def sd1_def [symmetric])
qed

definition info_example :: "nat \<Rightarrow> u8 \<Rightarrow> osmo_gsup_pdp_info" where
  "info_example k apn = \<lparr>gpi_context_id = k, gpi_pdp_type_org = 1, gpi_pdp_type_nr = 33, gpi_apn_enc = [1, apn], gpi_qos_enc = Some [7, 7, 7],
     gpi_pdp_address = ([], []), gpi_pdp_charg_enc = None\<rparr>"

definition gsup_example :: osmo_gsup_data where
  "gsup_example = \<lparr>gsm_update_location_result = False, gsm_msisdn_enc = None, gsm_hlr_enc = None, gsm_pdp_charg_enc = None,
     gsm_pdp_info_compl = True, gsm_pdp_infos = [info_example 1 97, info_example 2 98, info_example 1 99]\<rparr>"

theorem insert_data_refines_witness:
  "pdp_map (gprs_subscr_gsup_insert_data (map (\<lambda>b. char_of (unat b))) gsup_example sgsn_subscriber_data_alloc) 1 =
     Some (pdp_record (map (\<lambda>b. char_of (unat b))) (info_example 1 99))"
  using insert_data_refines [OF _ refl, of sgsn_subscriber_data_alloc "map (\<lambda>b. char_of (unat b))" gsup_example]
  by (simp add: pdp_ids_distinct_def sgsn_subscriber_data_alloc_def gsup_example_def pdp_info_map_def pdp_info_accepted_def
      info_example_def APN_STR_SIZE_def QOS_SUBSCRIBED_SIZE_def)

subsection \<open>The access control list as a set\<close>

lemma acl_lookup_in: "sgsn_acl_lookup imsi acl = (if imsi \<in> set acl then Some imsi else None)"
  unfolding sgsn_acl_lookup_def by (induction acl) auto

lemma remove_first_distinct: "distinct xs \<Longrightarrow> remove_first (\<lambda>x. x = e) xs = filter (\<lambda>x. x \<noteq> e) xs"
  using remove_first_filter [of "\<lambda>x. x" xs e] by simp

lemma acl_add_set:
  "distinct acl \<Longrightarrow> length imsi < OSMO_IMSI_BUF_SIZE \<Longrightarrow> sgsn_acl_add imsi acl = (rc, acl') \<Longrightarrow>
   set acl' = insert imsi (set acl) \<and> distinct acl' \<and> (rc = 0 \<longleftrightarrow> imsi \<notin> set acl)"
  by (auto simp: acl_lookup_in sgsn_acl_add_def EEXIST_def OSMO_IMSI_BUF_SIZE_def split: if_splits)

lemma acl_del_set:
  "distinct acl \<Longrightarrow> sgsn_acl_del imsi acl = (rc, acl') \<Longrightarrow>
   set acl' = set acl - {imsi} \<and> distinct acl' \<and> (rc = 0 \<longleftrightarrow> imsi \<in> set acl)"
  by (auto simp: acl_lookup_in sgsn_acl_del_def ENODEV_def remove_first_distinct split: if_splits)

subsection \<open>Authentication vectors are used once\<close>

definition usable :: "gsm_auth_tuple \<Rightarrow> bool" where
  "usable t \<longleftrightarrow> at_key_seq t \<noteq> AUTH_KEY_SEQ_INVAL \<and> at_use_count t = 0"

text \<open>The vectors that calls with any key sequence numbers hand out, one after the other.\<close>

fun drawn :: "u32 list \<Rightarrow> gsm_auth_tuple list \<Rightarrow> nat list exec" where
  "drawn [] ts = Inr []"
| "drawn (k # ks) ts =
     ebind (sgsn_auth_get_tuple k ts) (\<lambda>(r, ts). ebind (drawn ks ts) (\<lambda>is. Inr (case r of None \<Rightarrow> is | Some i \<Rightarrow> i # is)))"

lemma find_SomeD: "find P xs = Some x \<Longrightarrow> x \<in> set xs \<and> P x"
  by (auto simp: find_Some_iff)

lemma unat_mod5: "unat (w mod 5) = unat (w::u32) mod 5"
  by (simp add: unat_mod)

lemma get_tuple_loop_result:
  assumes "length ts = 5"
  shows "get_tuple_loop n idx ts =
    Inr (case find (\<lambda>i. usable (ts ! i)) (map (\<lambda>c. (unat (idx + 1) + c) mod 5) [0..<n]) of
           None \<Rightarrow> (None, ts)
         | Some i \<Rightarrow> (Some i, ts[i := (ts ! i)\<lparr>at_use_count := 1\<rparr>]))"
proof (induction n arbitrary: idx)
  case 0
  then show ?case by simp
next
  case (Suc n)
  let ?j = "(idx + 1) mod 5"
  have j: "unat ?j = unat (idx + 1) mod 5" by (rule unat_mod5)
  have "unat (?j + 1) = (unat ?j + 1) mod 4294967296" by (simp add: unat_word_ariths)
  moreover have "unat ?j < 5" by (simp add: j)
  ultimately have "unat (?j + 1) = unat ?j + 1" by simp
  then have s: "(unat (?j + 1) + c) mod 5 = (unat (idx + 1) + Suc c) mod 5" for c
    by (simp add: j) (metis mod_Suc_eq mod_add_left_eq)
  have u: "[0..<Suc n] = 0 # map Suc [0..<n]" by (simp add: upt_conv_Cons map_Suc_upt)
  show ?case
    by (simp add: u NUM_AUTH_TRIPLETS_def Let_def assms Suc.IH usable_def j comp_def s del: upt_Suc split: option.splits)
qed

lemma cyclic_all: "set (map (\<lambda>c. (k + c) mod 5) [0..<5]) = {0..<5::nat}"
proof -
  have "k mod 5 = 0 \<or> k mod 5 = 1 \<or> k mod 5 = 2 \<or> k mod 5 = 3 \<or> k mod 5 = 4" by arith
  then have "set (map (\<lambda>c. (k mod 5 + c) mod 5) [0..<5]) = {0..<5}" by (elim disjE) (simp_all add: upt_rec atLeastLessThan_nat_numeral, auto)
  then show ?thesis by (simp add: mod_add_left_eq)
qed

lemma get_tuple_result:
  assumes "length ts = 5"
  obtains "sgsn_auth_get_tuple k ts = Inr (None, ts)" "\<forall>i<5. \<not> usable (ts ! i)"
  | i where "sgsn_auth_get_tuple k ts = Inr (Some i, ts[i := (ts ! i)\<lparr>at_use_count := 1\<rparr>])" "i < 5" "usable (ts ! i)"
proof -
  let ?start = "if k = of_int AUTH_KEY_SEQ_INVAL then of_nat (NUM_AUTH_TRIPLETS - 1) else k"
  let ?is = "map (\<lambda>c. (unat (?start + 1) + c) mod 5) [0..<5]"
  have e: "sgsn_auth_get_tuple k ts = get_tuple_loop 5 ?start ts" unfolding sgsn_auth_get_tuple_def NUM_AUTH_TRIPLETS_def ..
  have all: "set ?is = {0..<5}" by (rule cyclic_all)
  show ?thesis
  proof (cases "find (\<lambda>i. usable (ts ! i)) ?is")
    case None
    then have "\<forall>i<5. \<not> usable (ts ! i)" using all by (auto simp only: find_None_iff atLeastLessThan_iff)
    then show ?thesis using that(1) None by (simp only: e get_tuple_loop_result [OF assms] option.case)
  next
    case (Some i)
    then have "i < 5" "usable (ts ! i)" using all find_SomeD [OF Some] by auto
    then show ?thesis using that(2) Some by (simp only: e get_tuple_loop_result [OF assms] option.case)
  qed
qed

lemma usable_after_use:
  "i < 5 \<Longrightarrow> length ts = 5 \<Longrightarrow> usable (ts ! i) \<Longrightarrow>
   {j. j < 5 \<and> usable (ts[i := (ts ! i)\<lparr>at_use_count := 1\<rparr>] ! j)} = {j. j < 5 \<and> usable (ts ! j)} - {i}"
  by (auto simp: nth_list_update usable_def)

lemma card_usable_remove:
  "i < 5 \<Longrightarrow> usable (ts ! i) \<Longrightarrow> Suc (card ({j. j < 5 \<and> usable (ts ! j)} - {i})) = card {j. j < 5 \<and> usable (ts ! j)}"
  by (intro card_Suc_Diff1) auto

text \<open>
  C12. Authentication vectors are used once: whatever key sequence numbers the calls of \<open>sgsn_auth_get_tuple\<close> have, they
  hand out different vectors, all of them valid and unused at the start; and a call finds none only when
  there is none left, so that they are handed out as long as there are any.
\<close>

theorem auth_tuples_fresh:
  assumes "length ts = NUM_AUTH_TRIPLETS"
  shows "\<exists>is. drawn ks ts = Inr is \<and> distinct is \<and> set is \<subseteq> {i. i < NUM_AUTH_TRIPLETS \<and> usable (ts ! i)} \<and>
    length is = min (length ks) (card {i. i < NUM_AUTH_TRIPLETS \<and> usable (ts ! i)})"
  using assms unfolding NUM_AUTH_TRIPLETS_def
proof (induction ks arbitrary: ts)
  case Nil
  then show ?case by simp
next
  case (Cons k ks)
  let ?U = "{i. i < 5 \<and> usable (ts ! i)}"
  show ?case
  proof (rule get_tuple_result [OF Cons.prems, of k])
    assume g: "sgsn_auth_get_tuple k ts = Inr (None, ts)" "\<forall>i<5. \<not> usable (ts ! i)"
    then have e: "?U = {}" by auto
    show ?thesis using Cons.IH [OF Cons.prems] g(1) by (simp add: e split_def)
  next
    fix i
    assume g: "sgsn_auth_get_tuple k ts = Inr (Some i, ts[i := (ts ! i)\<lparr>at_use_count := 1\<rparr>])" "i < 5" "usable (ts ! i)"
    let ?ts = "ts[i := (ts ! i)\<lparr>at_use_count := 1\<rparr>]"
    obtain "is" where "is": "drawn ks ?ts = Inr is" "distinct is" "set is \<subseteq> ?U - {i}" "length is = min (length ks) (card (?U - {i}))"
      using Cons.IH [of ?ts] Cons.prems usable_after_use [OF g(2) Cons.prems g(3)] by auto
    have "drawn (k # ks) ts = Inr (i # is)" using g(1) "is"(1) by simp
    moreover have "distinct (i # is)" "set (i # is) \<subseteq> ?U" using "is"(2,3) g(2,3) by auto
    moreover have "length (i # is) = min (length (k # ks)) (card ?U)" using "is"(4) card_usable_remove [OF g(2,3)] by simp
    ultimately show ?thesis by blast
  qed
qed

theorem auth_tuples_fresh_witness:
  "\<exists>is. drawn [7, 0, 3] (auth_tuples [[1], [2]] (replicate 5 no_tuple)) = Inr is \<and> distinct is \<and> length is = 2"
proof -
  let ?ts = "auth_tuples [[1], [2]] (replicate 5 no_tuple)"
  have "?ts = [\<lparr>at_use_count = 0, at_key_seq = 0, at_vec = [1]\<rparr>, \<lparr>at_use_count = 0, at_key_seq = 1, at_vec = [2]\<rparr>, no_tuple, no_tuple, no_tuple]"
    by code_simp
  moreover from this have "{i. i < NUM_AUTH_TRIPLETS \<and> usable (?ts ! i)} = {0, 1}"
    by (auto simp: NUM_AUTH_TRIPLETS_def usable_def no_tuple_def AUTH_KEY_SEQ_INVAL_def less_Suc_eq numeral_eq_Suc)
  ultimately have "length ?ts = NUM_AUTH_TRIPLETS" "card {i. i < NUM_AUTH_TRIPLETS \<and> usable (?ts ! i)} = 2"
    by (simp_all add: NUM_AUTH_TRIPLETS_def)
  then show ?thesis using auth_tuples_fresh [of ?ts "[7, 0, 3]"] by (auto simp del: drawn.simps)
qed

end
