(* ===== verification/Mm_Ctx.thy ===== *)
theory Mm_Ctx
  imports Routing_Area Llc_Entity Gprs_Subscriber
begin

unbundle bit_operations_syntax

section \<open>Mobility management contexts (src/src/sgsn/mmctx.c)\<close>

text \<open>
  The list of MM contexts and the five hash tables they are found in, the allocation of P-TMSIs, and the
  places of the GMM procedures that change an indexed member.  A context has an identity in place of an
  address.  A hash table is the list of its entries, each a key and the identity of a context, the newest first;
  which keys share a bucket, and the hash of an IMSI, are parameters, since the hash functions are libosmocore's.  Random numbers come
  from a parameter too, that gives the return code and the value of each call.  Of the members only those are kept that
  these functions and the state machines of GMM use.
\<close>

subsection \<open>Data\<close>

datatype sgsn_ran_type = MM_CTX_T_GERAN_Gb | MM_CTX_T_UTRAN_Iu

datatype gmm_fsm_states =
  ST_GMM_DEREGISTERED | ST_GMM_COMMON_PROC_INIT | ST_GMM_REGISTERED_NORMAL | ST_GMM_REGISTERED_SUSPENDED | ST_GMM_DEREGISTERED_INIT

datatype mm_state_gb_fsm_states = ST_MM_IDLE | ST_MM_READY | ST_MM_STANDBY

datatype mm_state_iu_fsm_states = ST_PMM_DETACHED | ST_PMM_CONNECTED | ST_PMM_IDLE

record sgsn_mm_ctx =
  mc_id :: nat
  mc_ran_type :: sgsn_ran_type
  mc_imsi :: string
  mc_p_tmsi :: u32
  mc_p_tmsi_old :: u32
  mc_ra :: routing_area_id
  mc_tlli :: u32
  mc_tlli_new :: u32
  mc_llme :: "nat option"
  mc_ue_ctx :: "nat option"
  mc_gmm_fsm :: gmm_fsm_states
  mc_gb_fsm :: mm_state_gb_fsm_states
  mc_iu_fsm :: mm_state_iu_fsm_states
  mc_T :: nat
  mc_timer_pending :: bool

type_synonym htab = "(u32 \<times> nat) list"

record mm_store =
  ms_list :: "sgsn_mm_ctx list"
  ms_by_imsi :: htab
  ms_by_ptmsi :: htab
  ms_by_ptmsi_old :: htab
  ms_by_tlli :: htab
  ms_by_tlli_new :: htab
  ms_next :: nat
  ms_rand :: nat

record hash_env =
  he_bucket :: "u32 \<Rightarrow> nat"
  he_jhash :: "string \<Rightarrow> u32"

definition mm_init :: mm_store where
  "mm_init = \<lparr>ms_list = [], ms_by_imsi = [], ms_by_ptmsi = [], ms_by_ptmsi_old = [], ms_by_tlli = [], ms_by_tlli_new = [],
     ms_next = 0, ms_rand = 0\<rparr>"

definition mm_upd :: "nat \<Rightarrow> (sgsn_mm_ctx \<Rightarrow> sgsn_mm_ctx) \<Rightarrow> mm_store \<Rightarrow> mm_store" where
  "mm_upd i f st = st\<lparr>ms_list := map (\<lambda>c. if mc_id c = i then f c else c) (ms_list st)\<rparr>"

text \<open>The context at an address, if it is linked in the list.\<close>

definition mm_at :: "mm_store \<Rightarrow> nat \<Rightarrow> sgsn_mm_ctx option" where
  "mm_at st i = find (\<lambda>c. mc_id c = i) (ms_list st)"

subsection \<open>Hash tables\<close>

definition hash_del :: "nat \<Rightarrow> htab \<Rightarrow> htab" where
  "hash_del i tab = filter (\<lambda>(k, j). j \<noteq> i) tab"

definition hash_add :: "u32 \<Rightarrow> nat \<Rightarrow> htab \<Rightarrow> htab" where
  "hash_add k i tab = (k, i) # tab"

definition hash_possible :: "hash_env \<Rightarrow> htab \<Rightarrow> u32 \<Rightarrow> nat list" where
  "hash_possible he tab key = map snd (filter (\<lambda>(k, i). he_bucket he k = he_bucket he key) tab)"

text \<open>The first context of a bucket that is in the list and satisfies a condition; a context that is unlinked
  leaves the hash tables at the same time (\<open>sgsn_mm_ctx_list_linked\<close> alone could not tell).\<close>

fun first_active :: "mm_store \<Rightarrow> (sgsn_mm_ctx \<Rightarrow> bool) \<Rightarrow> nat list \<Rightarrow> sgsn_mm_ctx option" where
  "first_active st P [] = None"
| "first_active st P (i # is) =
     (case mm_at st i of None \<Rightarrow> first_active st P is | Some c \<Rightarrow> if P c then Some c else first_active st P is)"

definition sgsn_imsi_hashkey :: "hash_env \<Rightarrow> string \<Rightarrow> u32" where
  "sgsn_imsi_hashkey he imsi = he_jhash he imsi"

definition sgsn_mm_ctx_rehash_imsi :: "hash_env \<Rightarrow> sgsn_mm_ctx \<Rightarrow> mm_store \<Rightarrow> mm_store" where
  "sgsn_mm_ctx_rehash_imsi he c st =
     (let tab = hash_del (mc_id c) (ms_by_imsi st) in
      st\<lparr>ms_by_imsi := (if mc_imsi c \<noteq> [] then hash_add (sgsn_imsi_hashkey he (mc_imsi c)) (mc_id c) tab else tab)\<rparr>)"

definition sgsn_mm_ctx_rehash_ptmsi :: "sgsn_mm_ctx \<Rightarrow> mm_store \<Rightarrow> mm_store" where
  "sgsn_mm_ctx_rehash_ptmsi c st =
     (let tab = hash_del (mc_id c) (ms_by_ptmsi st); old = hash_del (mc_id c) (ms_by_ptmsi_old st) in
      st\<lparr>ms_by_ptmsi := (if mc_p_tmsi c \<noteq> 0 \<and> mc_p_tmsi c \<noteq> GSM_RESERVED_TMSI then hash_add (mc_p_tmsi c) (mc_id c) tab else tab),
         ms_by_ptmsi_old := (if mc_p_tmsi_old c \<noteq> 0 then hash_add (mc_p_tmsi_old c) (mc_id c) old else old)\<rparr>)"

definition sgsn_mm_ctx_rehash_tlli :: "sgsn_mm_ctx \<Rightarrow> mm_store \<Rightarrow> mm_store" where
  "sgsn_mm_ctx_rehash_tlli c st =
     (let tab = hash_del (mc_id c) (ms_by_tlli st); new = hash_del (mc_id c) (ms_by_tlli_new st) in
      st\<lparr>ms_by_tlli := (if mc_tlli c \<noteq> 0 \<and> mc_tlli c \<noteq> TLLI_UNASSIGNED then hash_add (mc_tlli c) (mc_id c) tab else tab),
         ms_by_tlli_new := (if mc_tlli_new c \<noteq> 0 \<and> mc_tlli_new c \<noteq> TLLI_UNASSIGNED then hash_add (mc_tlli_new c) (mc_id c) new else new)\<rparr>)"

definition sgsn_mm_ctx_hash_remove :: "nat \<Rightarrow> mm_store \<Rightarrow> mm_store" where
  "sgsn_mm_ctx_hash_remove i st =
     st\<lparr>ms_by_imsi := hash_del i (ms_by_imsi st), ms_by_ptmsi := hash_del i (ms_by_ptmsi st),
        ms_by_ptmsi_old := hash_del i (ms_by_ptmsi_old st), ms_by_tlli := hash_del i (ms_by_tlli st),
        ms_by_tlli_new := hash_del i (ms_by_tlli_new st)\<rparr>"

definition sgsn_mm_ctx_unlink :: "nat \<Rightarrow> mm_store \<Rightarrow> mm_store" where
  "sgsn_mm_ctx_unlink i st =
     (let st = sgsn_mm_ctx_hash_remove i st in st\<lparr>ms_list := filter (\<lambda>c. mc_id c \<noteq> i) (ms_list st)\<rparr>)"

subsection \<open>Lookup\<close>

definition sgsn_mm_ctx_by_ue_ctx :: "nat \<Rightarrow> mm_store \<Rightarrow> sgsn_mm_ctx option" where
  "sgsn_mm_ctx_by_ue_ctx ue st = find (\<lambda>c. mc_ran_type c = MM_CTX_T_UTRAN_Iu \<and> mc_ue_ctx c = Some ue) (ms_list st)"

definition sgsn_mm_ctx_by_llme :: "nat \<Rightarrow> mm_store \<Rightarrow> sgsn_mm_ctx option" where
  "sgsn_mm_ctx_by_llme llme st = find (\<lambda>c. mc_ran_type c = MM_CTX_T_GERAN_Gb \<and> mc_llme c = Some llme) (ms_list st)"

definition sgsn_mm_ctx_by_tlli :: "hash_env \<Rightarrow> area_cmp \<Rightarrow> u32 \<Rightarrow> routing_area_id \<Rightarrow> mm_store \<Rightarrow> sgsn_mm_ctx option" where
  "sgsn_mm_ctx_by_tlli he cmp tlli raid st =
     (let P = (\<lambda>c. rai_same cmp raid (mc_ra c) \<and> (tlli = mc_tlli c \<or> tlli = mc_tlli_new c)) in
      case first_active st P (hash_possible he (ms_by_tlli st) tlli) of
        Some c \<Rightarrow> Some c
      | None \<Rightarrow> first_active st P (hash_possible he (ms_by_tlli_new st) tlli))"

text \<open>\<open>llmes\<close> are the LLC entities, of which the two TLLIs are compared as well.\<close>

definition sgsn_mm_ctx_by_any_tlli :: "llme list \<Rightarrow> u32 \<Rightarrow> mm_store \<Rightarrow> sgsn_mm_ctx option" where
  "sgsn_mm_ctx_by_any_tlli llmes tlli st =
     (if tlli = 0 then None
      else find (\<lambda>c. mc_ran_type c = MM_CTX_T_GERAN_Gb \<and>
                  (mc_tlli c = tlli \<or> mc_tlli_new c = tlli \<or>
                   (\<exists>m\<in>set llmes. mc_llme c = Some (llme_id m) \<and> (llme_tlli m = tlli \<or> llme_old_tlli m = tlli)))) (ms_list st))"

definition sgsn_mm_ctx_by_ptmsi :: "hash_env \<Rightarrow> u32 \<Rightarrow> mm_store \<Rightarrow> sgsn_mm_ctx option" where
  "sgsn_mm_ctx_by_ptmsi he p st =
     (case first_active st (\<lambda>c. p = mc_p_tmsi c) (hash_possible he (ms_by_ptmsi st) p) of
        Some c \<Rightarrow> Some c
      | None \<Rightarrow> first_active st (\<lambda>c. mc_p_tmsi_old c \<noteq> 0 \<and> mc_p_tmsi_old c = p) (hash_possible he (ms_by_ptmsi_old st) p))"

definition sgsn_mm_ctx_by_imsi :: "hash_env \<Rightarrow> string \<Rightarrow> mm_store \<Rightarrow> sgsn_mm_ctx option" where
  "sgsn_mm_ctx_by_imsi he imsi st =
     (if imsi = [] then None
      else first_active st (\<lambda>c. imsi = mc_imsi c) (hash_possible he (ms_by_imsi st) (sgsn_imsi_hashkey he imsi)))"

subsection \<open>Allocation\<close>

definition mm_ctx_zero :: "nat \<Rightarrow> sgsn_ran_type \<Rightarrow> routing_area_id \<Rightarrow> sgsn_mm_ctx" where
  "mm_ctx_zero i rt raid =
     \<lparr>mc_id = i, mc_ran_type = rt, mc_imsi = [], mc_p_tmsi = 0, mc_p_tmsi_old = 0, mc_ra = raid, mc_tlli = 0, mc_tlli_new = 0,
      mc_llme = None, mc_ue_ctx = None, mc_gmm_fsm = ST_GMM_DEREGISTERED, mc_gb_fsm = ST_MM_IDLE, mc_iu_fsm = ST_PMM_DETACHED,
      mc_T = 0, mc_timer_pending = False\<rparr>"

definition sgsn_mm_ctx_alloc :: "(nat \<Rightarrow> sgsn_mm_ctx) \<Rightarrow> mm_store \<Rightarrow> nat \<times> mm_store" where
  "sgsn_mm_ctx_alloc mk st =
     (ms_next st, st\<lparr>ms_list := mk (ms_next st) # ms_list st, ms_next := Suc (ms_next st)\<rparr>)"

definition sgsn_mm_ctx_alloc_gb :: "u32 \<Rightarrow> routing_area_id \<Rightarrow> mm_store \<Rightarrow> nat \<times> mm_store" where
  "sgsn_mm_ctx_alloc_gb tlli raid st =
     (let mk = (\<lambda>i. (mm_ctx_zero i MM_CTX_T_GERAN_Gb raid)\<lparr>mc_tlli := tlli\<rparr>); (i, st) = sgsn_mm_ctx_alloc mk st in
      (i, sgsn_mm_ctx_rehash_tlli (mk i) st))"

definition sgsn_mm_ctx_alloc_iu :: "nat \<Rightarrow> routing_area_id \<Rightarrow> mm_store \<Rightarrow> nat \<times> mm_store" where
  "sgsn_mm_ctx_alloc_iu ue raid st = sgsn_mm_ctx_alloc (\<lambda>i. (mm_ctx_zero i MM_CTX_T_UTRAN_Iu raid)\<lparr>mc_ue_ctx := Some ue\<rparr>) st"

subsection \<open>P-TMSIs\<close>

definition GSM23003_TMSI_SGSN_MASK :: u32 where "GSM23003_TMSI_SGSN_MASK = 0xC0000000"

definition ptmsi_unusable :: "hash_env \<Rightarrow> u32 \<Rightarrow> mm_store \<Rightarrow> bool" where
  "ptmsi_unusable he v st \<longleftrightarrow>
     v \<ge> GSM23003_TMSI_SGSN_MASK \<or> v OR GSM23003_TMSI_SGSN_MASK = GSM_RESERVED_TMSI \<or>
     sgsn_mm_ctx_by_ptmsi he (v OR GSM23003_TMSI_SGSN_MASK) st \<noteq> None"

fun alloc_ptmsi_loop :: "hash_env \<Rightarrow> (nat \<Rightarrow> int \<times> u32) \<Rightarrow> nat \<Rightarrow> mm_store \<Rightarrow> u32 \<times> mm_store" where
  "alloc_ptmsi_loop he rng max_retries st =
     (let (rc, v) = rng (ms_rand st); st = st\<lparr>ms_rand := Suc (ms_rand st)\<rparr> in
      if rc < 0 then (GSM_RESERVED_TMSI, st)
      else if ptmsi_unusable he v st then
        (case max_retries of 0 \<Rightarrow> (GSM_RESERVED_TMSI, st) | Suc n \<Rightarrow> alloc_ptmsi_loop he rng n st)
      else (v OR GSM23003_TMSI_SGSN_MASK, st))"

declare alloc_ptmsi_loop.simps [simp del]

definition sgsn_alloc_ptmsi :: "hash_env \<Rightarrow> (nat \<Rightarrow> int \<times> u32) \<Rightarrow> mm_store \<Rightarrow> u32 \<times> mm_store" where
  "sgsn_alloc_ptmsi he rng st = alloc_ptmsi_loop he rng 100 st"

subsection \<open>Changes of the indexed members\<close>

text \<open>
  The places where the GMM procedures set the IMSI, the P-TMSIs and the TLLIs of a context, each followed by the
  call that files it anew.
\<close>

definition mm_set :: "nat \<Rightarrow> (sgsn_mm_ctx \<Rightarrow> sgsn_mm_ctx) \<Rightarrow> (sgsn_mm_ctx \<Rightarrow> mm_store \<Rightarrow> mm_store) \<Rightarrow> mm_store \<Rightarrow> mm_store" where
  "mm_set i f rehash st = (case mm_at st i of None \<Rightarrow> st | Some c \<Rightarrow> rehash (f c) (mm_upd i f st))"

definition mm_set_imsi :: "hash_env \<Rightarrow> nat \<Rightarrow> string \<Rightarrow> mm_store \<Rightarrow> mm_store" where
  "mm_set_imsi he i imsi = mm_set i (\<lambda>c. c\<lparr>mc_imsi := take GSM23003_IMSI_MAX_DIGITS imsi\<rparr>) (sgsn_mm_ctx_rehash_imsi he)"

definition mm_set_ptmsi :: "nat \<Rightarrow> u32 \<Rightarrow> mm_store \<Rightarrow> mm_store" where
  "mm_set_ptmsi i p = mm_set i (\<lambda>c. c\<lparr>mc_p_tmsi := p\<rparr>) sgsn_mm_ctx_rehash_ptmsi"

definition mm_confirm_ptmsi :: "nat \<Rightarrow> mm_store \<Rightarrow> mm_store" where
  "mm_confirm_ptmsi i = mm_set i (\<lambda>c. c\<lparr>mc_p_tmsi_old := 0\<rparr>) sgsn_mm_ctx_rehash_ptmsi"

definition mm_set_tlli :: "nat \<Rightarrow> u32 \<Rightarrow> mm_store \<Rightarrow> mm_store" where
  "mm_set_tlli i tlli = mm_set i (\<lambda>c. c\<lparr>mc_tlli := tlli\<rparr>) sgsn_mm_ctx_rehash_tlli"

text \<open>\<open>local_tlli\<close> is \<^verbatim>\<open>gprs_tmsi2tlli (p_tmsi, TLLI_LOCAL)\<close> of libosmocore.\<close>

definition mm_set_tlli_new :: "(u32 \<Rightarrow> u32) \<Rightarrow> nat \<Rightarrow> mm_store \<Rightarrow> mm_store" where
  "mm_set_tlli_new local_tlli i = mm_set i (\<lambda>c. c\<lparr>mc_tlli_new := local_tlli (mc_p_tmsi c)\<rparr>) sgsn_mm_ctx_rehash_tlli"

definition mm_confirm_tlli :: "nat \<Rightarrow> mm_store \<Rightarrow> mm_store" where
  "mm_confirm_tlli i = mm_set i (\<lambda>c. c\<lparr>mc_tlli := mc_tlli_new c\<rparr>) sgsn_mm_ctx_rehash_tlli"

text \<open>The first part of \<open>ptmsi_update\<close>, before the event for the state machine.\<close>

definition ptmsi_renew :: "hash_env \<Rightarrow> (nat \<Rightarrow> int \<times> u32) \<Rightarrow> nat \<Rightarrow> mm_store \<Rightarrow> mm_store" where
  "ptmsi_renew he rng i st =
     (case mm_at st i of
        None \<Rightarrow> st
      | Some c \<Rightarrow>
          if mc_gmm_fsm c \<noteq> ST_GMM_COMMON_PROC_INIT then
            let (p, st) = sgsn_alloc_ptmsi he rng st in
            if p \<noteq> GSM_RESERVED_TMSI
            then mm_set i (\<lambda>c. c\<lparr>mc_p_tmsi_old := mc_p_tmsi c, mc_p_tmsi := p\<rparr>) sgsn_mm_ctx_rehash_ptmsi st
            else st
          else st)"


subsection \<open>Tables that file the contexts\<close>

text \<open>
  A table is right for a list of contexts when its entries are exactly the keys of those contexts that have a
  valid one.  The locale is what a table and the function that files a context in it promise; the five
  tables are interpretations of it.
\<close>

definition tab_ok :: "(sgsn_mm_ctx \<Rightarrow> u32) \<Rightarrow> (sgsn_mm_ctx \<Rightarrow> bool) \<Rightarrow> sgsn_mm_ctx list \<Rightarrow> htab \<Rightarrow> bool" where
  "tab_ok key valid cs tab \<longleftrightarrow> set tab = (\<lambda>c. (key c, mc_id c)) ` {c \<in> set cs. valid c}"

definition file_in :: "(sgsn_mm_ctx \<Rightarrow> u32) \<Rightarrow> (sgsn_mm_ctx \<Rightarrow> bool) \<Rightarrow> sgsn_mm_ctx \<Rightarrow> htab \<Rightarrow> htab" where
  "file_in key valid c tab = (let tab = hash_del (mc_id c) tab in if valid c then hash_add (key c) (mc_id c) tab else tab)"

lemma mm_at_in: "mm_at st i = Some c \<Longrightarrow> c \<in> set (ms_list st) \<and> mc_id c = i"
  by (auto simp: mm_at_def dest: find_SomeD)

lemma mm_at_distinct: "distinct (map mc_id (ms_list st)) \<Longrightarrow> c \<in> set (ms_list st) \<Longrightarrow> mm_at st (mc_id c) = Some c"
  by (auto simp: mm_at_def find_Some_iff in_set_conv_nth distinct_conv_nth)

lemma first_active_Some: "first_active st P is = Some c \<Longrightarrow> c \<in> set (ms_list st) \<and> P c \<and> mc_id c \<in> set is"
  by (induction "is") (auto split: option.split_asm if_split_asm dest: mm_at_in)

lemma first_active_None: "first_active st P is = None \<Longrightarrow> i \<in> set is \<Longrightarrow> mm_at st i = Some c \<Longrightarrow> \<not> P c"
  by (induction "is") (auto split: option.split_asm if_split_asm)

lemma set_hash_del: "set (hash_del i tab) = {e \<in> set tab. snd e \<noteq> i}"
  by (auto simp: hash_del_def)

lemma image_replace:
  assumes "c \<in> S" "p c" and u: "\<And>x. x \<in> S \<Longrightarrow> p x \<Longrightarrow> x = c"
  shows "(\<lambda>x. if p x then f x else x) ` S = insert (f c) {x \<in> S. \<not> p x}"
proof (intro equalityI subsetI)
  fix y
  assume "y \<in> (\<lambda>x. if p x then f x else x) ` S"
  then obtain x where x: "x \<in> S" "y = (if p x then f x else x)" by blast
  show "y \<in> insert (f c) {x \<in> S. \<not> p x}"
  proof (cases "p x")
    case True
    then have "x = c" using u x(1) by blast
    then show ?thesis using x(2) True by simp
  qed (use x in simp)
next
  fix y
  assume "y \<in> insert (f c) {x \<in> S. \<not> p x}"
  then consider "y = f c" | "y \<in> S" "\<not> p y" by blast
  then show "y \<in> (\<lambda>x. if p x then f x else x) ` S"
  proof cases
    case 1
    then show ?thesis using assms(1,2) by (intro image_eqI [of _ _ c]) simp_all
  next
    case 2
    then show ?thesis by (intro image_eqI [of _ _ y]) simp_all
  qed
qed

locale mm_index =
  fixes key :: "sgsn_mm_ctx \<Rightarrow> u32"
    and valid :: "sgsn_mm_ctx \<Rightarrow> bool"
    and tab_of :: "mm_store \<Rightarrow> htab"
    and refile :: "sgsn_mm_ctx \<Rightarrow> mm_store \<Rightarrow> mm_store"
  assumes refile_tab: "tab_of (refile c st) = file_in key valid c (tab_of st)"
    and refile_list: "ms_list (refile c st) = ms_list st"
    and tab_upd: "tab_of (mm_upd i f st) = tab_of st"
    and tab_unlink: "tab_of (sgsn_mm_ctx_unlink i st) = hash_del i (tab_of st)"
begin

lemma set_ok:
  assumes "distinct (map mc_id (ms_list st))" "mc_id (f c) = i" "mm_at st i = Some c" "tab_ok key valid (ms_list st) (tab_of st)"
  shows "tab_ok key valid (ms_list (refile (f c) (mm_upd i f st))) (tab_of (refile (f c) (mm_upd i f st)))"
proof -
  have c: "c \<in> set (ms_list st)" "mc_id c = i" using mm_at_in [OF assms(3)] by auto
  have u: "c' = c" if "c' \<in> set (ms_list st)" "mc_id c' = i" for c'
    using assms(1) c that by (auto simp: distinct_map inj_on_def)
  have "set (ms_list (mm_upd i f st)) = insert (f c) {c' \<in> set (ms_list st). mc_id c' \<noteq> i}"
    using image_replace [where p = "\<lambda>x. mc_id x = i" and f = f, OF c u] by (simp add: mm_upd_def)
  then have l: "{c' \<in> set (ms_list (mm_upd i f st)). valid c'} =
      (if valid (f c) then {f c} else {}) \<union> {c' \<in> {c' \<in> set (ms_list st). valid c'}. mc_id c' \<noteq> i}"
    by auto
  have "set (file_in key valid (f c) (tab_of st)) =
      (if valid (f c) then {(key (f c), i)} else {}) \<union> {e \<in> (\<lambda>c. (key c, mc_id c)) ` {c' \<in> set (ms_list st). valid c'}. snd e \<noteq> i}"
    using assms(2,4) by (simp add: file_in_def Let_def hash_add_def set_hash_del tab_ok_def)
  also have "{e \<in> (\<lambda>c. (key c, mc_id c)) ` {c' \<in> set (ms_list st). valid c'}. snd e \<noteq> i} =
      (\<lambda>c. (key c, mc_id c)) ` {c' \<in> {c' \<in> set (ms_list st). valid c'}. mc_id c' \<noteq> i}"
    by auto
  finally show ?thesis using assms(2) unfolding tab_ok_def refile_list refile_tab tab_upd l image_Un by (cases "valid (f c)") simp_all
qed

lemma add_ok:
  assumes "\<forall>c'\<in>set cs. mc_id c' \<noteq> mc_id c" "tab_ok key valid cs tab"
  shows "tab_ok key valid (c # cs) (file_in key valid c tab)"
  using assms by (auto simp: tab_ok_def file_in_def set_hash_del hash_add_def Let_def)

lemma unlink_ok:
  "tab_ok key valid (ms_list st) (tab_of st) \<Longrightarrow> tab_ok key valid (ms_list (sgsn_mm_ctx_unlink i st)) (tab_of (sgsn_mm_ctx_unlink i st))"
  by (auto simp: tab_ok_def tab_unlink set_hash_del) (auto simp: sgsn_mm_ctx_unlink_def sgsn_mm_ctx_hash_remove_def Let_def)

lemma lookup_Some: "first_active st P (hash_possible he (tab_of st) k) = Some c \<Longrightarrow> c \<in> set (ms_list st) \<and> P c"
  by (auto dest: first_active_Some)

lemma lookup_None:
  assumes "distinct (map mc_id (ms_list st))" "tab_ok key valid (ms_list st) (tab_of st)"
    and "first_active st P (hash_possible he (tab_of st) k) = None" "c \<in> set (ms_list st)" "valid c" "key c = k"
  shows "\<not> P c"
proof -
  have "(k, mc_id c) \<in> set (tab_of st)" using assms(2,4,5,6) by (auto simp: tab_ok_def)
  then have "mc_id c \<in> set (hash_possible he (tab_of st) k)" by (force simp: hash_possible_def)
  then show ?thesis using first_active_None [OF assms(3)] mm_at_distinct [OF assms(1,4)] by blast
qed

end

definition imsi_key :: "hash_env \<Rightarrow> sgsn_mm_ctx \<Rightarrow> u32" where "imsi_key he c = sgsn_imsi_hashkey he (mc_imsi c)"
definition has_imsi :: "sgsn_mm_ctx \<Rightarrow> bool" where "has_imsi c \<longleftrightarrow> mc_imsi c \<noteq> []"
definition has_ptmsi :: "sgsn_mm_ctx \<Rightarrow> bool" where "has_ptmsi c \<longleftrightarrow> mc_p_tmsi c \<noteq> 0 \<and> mc_p_tmsi c \<noteq> GSM_RESERVED_TMSI"
definition has_ptmsi_old :: "sgsn_mm_ctx \<Rightarrow> bool" where "has_ptmsi_old c \<longleftrightarrow> mc_p_tmsi_old c \<noteq> 0"
definition has_tlli :: "sgsn_mm_ctx \<Rightarrow> bool" where "has_tlli c \<longleftrightarrow> mc_tlli c \<noteq> 0 \<and> mc_tlli c \<noteq> TLLI_UNASSIGNED"
definition has_tlli_new :: "sgsn_mm_ctx \<Rightarrow> bool" where "has_tlli_new c \<longleftrightarrow> mc_tlli_new c \<noteq> 0 \<and> mc_tlli_new c \<noteq> TLLI_UNASSIGNED"

lemmas valid_defs = has_imsi_def has_ptmsi_def has_ptmsi_old_def has_tlli_def has_tlli_new_def imsi_key_def
lemmas rehash_defs = sgsn_mm_ctx_rehash_imsi_def sgsn_mm_ctx_rehash_ptmsi_def sgsn_mm_ctx_rehash_tlli_def file_in_def Let_def mm_upd_def
  sgsn_mm_ctx_unlink_def sgsn_mm_ctx_hash_remove_def

interpretation imsi_ix: mm_index "imsi_key he" has_imsi ms_by_imsi "sgsn_mm_ctx_rehash_imsi he" for he
  by unfold_locales (simp_all add: rehash_defs valid_defs)

interpretation ptmsi_ix: mm_index mc_p_tmsi has_ptmsi ms_by_ptmsi sgsn_mm_ctx_rehash_ptmsi
  by unfold_locales (simp_all add: rehash_defs valid_defs)

interpretation ptmsi_old_ix: mm_index mc_p_tmsi_old has_ptmsi_old ms_by_ptmsi_old sgsn_mm_ctx_rehash_ptmsi
  by unfold_locales (simp_all add: rehash_defs valid_defs)

interpretation tlli_ix: mm_index mc_tlli has_tlli ms_by_tlli sgsn_mm_ctx_rehash_tlli
  by unfold_locales (simp_all add: rehash_defs valid_defs)

interpretation tlli_new_ix: mm_index mc_tlli_new has_tlli_new ms_by_tlli_new sgsn_mm_ctx_rehash_tlli
  by unfold_locales (simp_all add: rehash_defs valid_defs)


subsection \<open>The invariant of the store\<close>

definition mm_inv :: "hash_env \<Rightarrow> mm_store \<Rightarrow> bool" where
  "mm_inv he st \<longleftrightarrow>
     distinct (map mc_id (ms_list st)) \<and> (\<forall>c\<in>set (ms_list st). mc_id c < ms_next st) \<and>
     tab_ok (imsi_key he) has_imsi (ms_list st) (ms_by_imsi st) \<and>
     tab_ok mc_p_tmsi has_ptmsi (ms_list st) (ms_by_ptmsi st) \<and>
     tab_ok mc_p_tmsi_old has_ptmsi_old (ms_list st) (ms_by_ptmsi_old st) \<and>
     tab_ok mc_tlli has_tlli (ms_list st) (ms_by_tlli st) \<and>
     tab_ok mc_tlli_new has_tlli_new (ms_list st) (ms_by_tlli_new st)"

text \<open>A change of a context that leaves the indexed members alone.\<close>

definition keeps_index :: "(sgsn_mm_ctx \<Rightarrow> sgsn_mm_ctx) \<Rightarrow> bool" where
  "keeps_index f \<longleftrightarrow>
     (\<forall>c. mc_id (f c) = mc_id c \<and> mc_imsi (f c) = mc_imsi c \<and> mc_p_tmsi (f c) = mc_p_tmsi c \<and> mc_p_tmsi_old (f c) = mc_p_tmsi_old c \<and>
          mc_tlli (f c) = mc_tlli c \<and> mc_tlli_new (f c) = mc_tlli_new c)"

inductive mm_reachable :: "hash_env \<Rightarrow> mm_store \<Rightarrow> bool" for he where
  start: "mm_reachable he mm_init"
| alloc_gb: "mm_reachable he st \<Longrightarrow> mm_reachable he (snd (sgsn_mm_ctx_alloc_gb tlli raid st))"
| alloc_iu: "mm_reachable he st \<Longrightarrow> mm_reachable he (snd (sgsn_mm_ctx_alloc_iu ue raid st))"
| set_imsi: "mm_reachable he st \<Longrightarrow> mm_reachable he (mm_set_imsi he i imsi st)"
| set_ptmsi: "mm_reachable he st \<Longrightarrow> mm_reachable he (mm_set_ptmsi i p st)"
| confirm_ptmsi: "mm_reachable he st \<Longrightarrow> mm_reachable he (mm_confirm_ptmsi i st)"
| set_tlli: "mm_reachable he st \<Longrightarrow> mm_reachable he (mm_set_tlli i tlli st)"
| set_tlli_new: "mm_reachable he st \<Longrightarrow> mm_reachable he (mm_set_tlli_new local_tlli i st)"
| confirm_tlli: "mm_reachable he st \<Longrightarrow> mm_reachable he (mm_confirm_tlli i st)"
| renew: "mm_reachable he st \<Longrightarrow> mm_reachable he (ptmsi_renew he rng i st)"
| other: "mm_reachable he st \<Longrightarrow> keeps_index f \<Longrightarrow> mm_reachable he (mm_upd i f st)"
| unlink: "mm_reachable he st \<Longrightarrow> mm_reachable he (sgsn_mm_ctx_unlink i st)"

lemma tab_ok_cong:
  assumes "map (\<lambda>c. (mc_id c, valid c, key c)) cs' = map (\<lambda>c. (mc_id c, valid c, key c)) cs" "tab_ok key valid cs tab"
  shows "tab_ok key valid cs' tab"
proof -
  have "(\<lambda>c. (key c, mc_id c)) ` {c \<in> set ds. valid c} = {e. (snd e, True, fst e) \<in> set (map (\<lambda>c. (mc_id c, valid c, key c)) ds)}" for ds
    by force
  then show ?thesis using assms by (simp add: tab_ok_def del: set_map)
qed

lemma mm_upd_keeps:
  assumes "\<And>c. g (f c) = g c"
  shows "map g (ms_list (mm_upd i f st)) = map g (ms_list st)"
  using assms by (simp add: mm_upd_def comp_def)

lemma ids_mm_upd: "(\<And>c. mc_id (f c) = mc_id c) \<Longrightarrow> map mc_id (ms_list (mm_upd i f st)) = map mc_id (ms_list st)"
  by (rule mm_upd_keeps)

lemma below_cong: "map mc_id cs' = map mc_id cs \<Longrightarrow> \<forall>c\<in>set cs. mc_id c < n \<Longrightarrow> \<forall>c\<in>set cs'. mc_id c < n"
  by (metis (no_types, lifting) image_iff list.set_map)

lemma mm_upd_tabs [simp]:
  "ms_by_imsi (mm_upd i f st) = ms_by_imsi st" "ms_by_ptmsi (mm_upd i f st) = ms_by_ptmsi st" "ms_by_ptmsi_old (mm_upd i f st) = ms_by_ptmsi_old st"
  "ms_by_tlli (mm_upd i f st) = ms_by_tlli st" "ms_by_tlli_new (mm_upd i f st) = ms_by_tlli_new st" "ms_next (mm_upd i f st) = ms_next st"
  by (simp_all add: mm_upd_def)

lemma rehash_frame [simp]:
  "ms_list (sgsn_mm_ctx_rehash_imsi he c st) = ms_list st" "ms_list (sgsn_mm_ctx_rehash_ptmsi c st) = ms_list st" "ms_list (sgsn_mm_ctx_rehash_tlli c st) = ms_list st"
  "ms_next (sgsn_mm_ctx_rehash_imsi he c st) = ms_next st" "ms_next (sgsn_mm_ctx_rehash_ptmsi c st) = ms_next st" "ms_next (sgsn_mm_ctx_rehash_tlli c st) = ms_next st"
  "ms_by_ptmsi (sgsn_mm_ctx_rehash_imsi he c st) = ms_by_ptmsi st" "ms_by_ptmsi_old (sgsn_mm_ctx_rehash_imsi he c st) = ms_by_ptmsi_old st"
  "ms_by_tlli (sgsn_mm_ctx_rehash_imsi he c st) = ms_by_tlli st" "ms_by_tlli_new (sgsn_mm_ctx_rehash_imsi he c st) = ms_by_tlli_new st"
  "ms_by_imsi (sgsn_mm_ctx_rehash_ptmsi c st) = ms_by_imsi st"
  "ms_by_tlli (sgsn_mm_ctx_rehash_ptmsi c st) = ms_by_tlli st" "ms_by_tlli_new (sgsn_mm_ctx_rehash_ptmsi c st) = ms_by_tlli_new st"
  "ms_by_imsi (sgsn_mm_ctx_rehash_tlli c st) = ms_by_imsi st"
  "ms_by_ptmsi (sgsn_mm_ctx_rehash_tlli c st) = ms_by_ptmsi st" "ms_by_ptmsi_old (sgsn_mm_ctx_rehash_tlli c st) = ms_by_ptmsi_old st"
  by (simp_all add: sgsn_mm_ctx_rehash_imsi_def sgsn_mm_ctx_rehash_ptmsi_def sgsn_mm_ctx_rehash_tlli_def Let_def)

lemma mm_inv_other:
  assumes "mm_inv he st" "keeps_index f"
  shows "mm_inv he (mm_upd i f st)"
proof -
  have k: "map (\<lambda>c. (mc_id c, v c, k c)) (ms_list (mm_upd i f st)) = map (\<lambda>c. (mc_id c, v c, k c)) (ms_list st)"
    if "\<And>c. v (f c) = v c \<and> k (f c) = k c" for v :: "sgsn_mm_ctx \<Rightarrow> bool" and k :: "sgsn_mm_ctx \<Rightarrow> u32"
    using that assms(2) by (intro mm_upd_keeps) (simp add: keeps_index_def)
  have "map mc_id (ms_list (mm_upd i f st)) = map mc_id (ms_list st)" using assms(2) by (intro ids_mm_upd) (simp add: keeps_index_def)
  then have "distinct (map mc_id (ms_list (mm_upd i f st)))" "\<forall>c\<in>set (ms_list (mm_upd i f st)). mc_id c < ms_next st"
    using assms(1) by (simp_all add: mm_inv_def below_cong)
  then show ?thesis using assms unfolding mm_inv_def mm_upd_tabs
    by (simp add: tab_ok_cong [OF k] keeps_index_def valid_defs)
qed

text \<open>What a change of one group of members followed by its filing keeps.\<close>

lemma mm_set_tab:
  assumes "\<And>c. mc_id (f c) = mc_id c \<and> valid (f c) = valid c \<and> key (f c) = key c" "tab_ok key valid (ms_list st) tab"
  shows "tab_ok key valid (ms_list (mm_upd i f st)) tab"
  using assms by (intro tab_ok_cong [OF mm_upd_keeps]) auto

lemma mm_inv_set_imsi: "mm_inv he st \<Longrightarrow> mm_inv he (mm_set_imsi he i imsi st)"
proof (cases "mm_at st i")
  case (Some c)
  let ?f = "\<lambda>c::sgsn_mm_ctx. c\<lparr>mc_imsi := take GSM23003_IMSI_MAX_DIGITS imsi\<rparr>"
  assume inv: "mm_inv he st"
  have "mc_id (?f c) = i" using mm_at_in [OF Some] by simp
  note new = imsi_ix.set_ok [where f = ?f and c = c and i = i and st = st and he = he, OF _ this Some]
  show ?thesis using inv new below_cong [OF ids_mm_upd [of ?f i st]]
    unfolding mm_inv_def mm_set_imsi_def mm_set_def Some option.case
    by (simp add: ids_mm_upd mm_set_tab [where f = ?f] valid_defs)
qed (simp add: mm_set_imsi_def mm_set_def)

lemma mm_inv_set_ptmsi:
  assumes "mm_inv he st" and f: "\<And>c. mc_id (f c) = mc_id c \<and> mc_imsi (f c) = mc_imsi c \<and> mc_tlli (f c) = mc_tlli c \<and> mc_tlli_new (f c) = mc_tlli_new c"
  shows "mm_inv he (mm_set i f sgsn_mm_ctx_rehash_ptmsi st)"
proof (cases "mm_at st i")
  case (Some c)
  have i: "mc_id (f c) = i" using mm_at_in [OF Some] f by simp
  show ?thesis using assms ptmsi_ix.set_ok [where f = f and c = c and i = i and st = st, OF _ i Some] ptmsi_old_ix.set_ok [where f = f and c = c and i = i and st = st, OF _ i Some] below_cong [OF ids_mm_upd [of f i st]]
    unfolding mm_inv_def mm_set_def Some option.case
    by (simp add: ids_mm_upd mm_set_tab [where f = f] valid_defs)
qed (simp add: mm_set_def assms)

lemma mm_inv_set_tlli:
  assumes "mm_inv he st" and f: "\<And>c. mc_id (f c) = mc_id c \<and> mc_imsi (f c) = mc_imsi c \<and> mc_p_tmsi (f c) = mc_p_tmsi c \<and> mc_p_tmsi_old (f c) = mc_p_tmsi_old c"
  shows "mm_inv he (mm_set i f sgsn_mm_ctx_rehash_tlli st)"
proof (cases "mm_at st i")
  case (Some c)
  have i: "mc_id (f c) = i" using mm_at_in [OF Some] f by simp
  show ?thesis using assms tlli_ix.set_ok [where f = f and c = c and i = i and st = st, OF _ i Some] tlli_new_ix.set_ok [where f = f and c = c and i = i and st = st, OF _ i Some] below_cong [OF ids_mm_upd [of f i st]]
    unfolding mm_inv_def mm_set_def Some option.case
    by (simp add: ids_mm_upd mm_set_tab [where f = f] valid_defs)
qed (simp add: mm_set_def assms)

lemma mm_inv_unlink: "mm_inv he st \<Longrightarrow> mm_inv he (sgsn_mm_ctx_unlink i st)"
proof -
  assume inv: "mm_inv he st"
  have "ms_list (sgsn_mm_ctx_unlink i st) = filter (\<lambda>c. mc_id c \<noteq> i) (ms_list st)" "ms_next (sgsn_mm_ctx_unlink i st) = ms_next st"
    by (simp_all add: sgsn_mm_ctx_unlink_def sgsn_mm_ctx_hash_remove_def Let_def)
  then show ?thesis using inv imsi_ix.unlink_ok [of he st i] ptmsi_ix.unlink_ok [of st i] ptmsi_old_ix.unlink_ok [of st i]
      tlli_ix.unlink_ok [of st i] tlli_new_ix.unlink_ok [of st i]
    by (simp add: mm_inv_def distinct_map_filter)
qed


lemma mm_inv_rand: "mm_inv he (st\<lparr>ms_rand := n\<rparr>) = mm_inv he st"
  by (simp add: mm_inv_def)

lemma mm_inv_alloc:
  assumes "mm_inv he st" "mc_id c = ms_next st" "mc_imsi c = []" "mc_p_tmsi c = 0" "mc_p_tmsi_old c = 0" "mc_tlli_new c = 0"
  shows "mm_inv he (sgsn_mm_ctx_rehash_tlli c (st\<lparr>ms_list := c # ms_list st, ms_next := Suc (ms_next st)\<rparr>))"
proof -
  have fresh: "\<forall>c'\<in>set (ms_list st). mc_id c' \<noteq> mc_id c" using assms(1,2) by (auto simp: mm_inv_def)
  have none: "tab_ok key valid (c # ms_list st) tab" if "\<not> valid c" "tab_ok key valid (ms_list st) tab"
    for key :: "sgsn_mm_ctx \<Rightarrow> u32" and valid tab
    using that by (auto simp: tab_ok_def)
  let ?st = "st\<lparr>ms_list := c # ms_list st, ms_next := Suc (ms_next st)\<rparr>"
  have "tab_ok mc_tlli has_tlli (c # ms_list st) (ms_by_tlli (sgsn_mm_ctx_rehash_tlli c ?st))"
    "tab_ok mc_tlli_new has_tlli_new (c # ms_list st) (ms_by_tlli_new (sgsn_mm_ctx_rehash_tlli c ?st))"
    using assms(1) tlli_ix.add_ok [OF fresh] tlli_new_ix.add_ok [OF fresh] by (simp_all add: tlli_ix.refile_tab tlli_new_ix.refile_tab mm_inv_def)
  then show ?thesis using assms fresh by (auto simp: mm_inv_def none valid_defs image_iff less_Suc_eq)
qed

lemma rehash_tlli_none:
  "mm_inv he st \<Longrightarrow> mc_id c = ms_next st \<Longrightarrow> mc_tlli c = 0 \<Longrightarrow> mc_tlli_new c = 0 \<Longrightarrow>
   sgsn_mm_ctx_rehash_tlli c (st\<lparr>ms_list := c # ms_list st, ms_next := Suc (ms_next st)\<rparr>) =
     st\<lparr>ms_list := c # ms_list st, ms_next := Suc (ms_next st)\<rparr>"
proof -
  assume inv: "mm_inv he st" and c: "mc_id c = ms_next st" "mc_tlli c = 0" "mc_tlli_new c = 0"
  have "\<forall>c'\<in>set (ms_list st). mc_id c' \<noteq> mc_id c" using inv c(1) by (auto simp: mm_inv_def)
  then have "hash_del (mc_id c) (ms_by_tlli st) = ms_by_tlli st" "hash_del (mc_id c) (ms_by_tlli_new st) = ms_by_tlli_new st"
    using inv unfolding hash_del_def mm_inv_def tab_ok_def by (auto intro!: filter_True)
  then show ?thesis using c by (simp add: sgsn_mm_ctx_rehash_tlli_def Let_def)
qed

subsection \<open>Allocation of P-TMSIs\<close>

lemma first_active_rand [simp]: "first_active (st\<lparr>ms_rand := n\<rparr>) P is = first_active st P is"
  by (induction "is") (simp_all add: mm_at_def split: option.split)

lemma ptmsi_unusable_rand [simp]: "ptmsi_unusable he v (st\<lparr>ms_rand := n\<rparr>) = ptmsi_unusable he v st"
  by (simp add: ptmsi_unusable_def sgsn_mm_ctx_by_ptmsi_def cong: option.case_cong)

lemma alloc_ptmsi_loop_result:
  assumes "alloc_ptmsi_loop he rng r st = (p, st')"
  shows "\<exists>n. 0 < n \<and> n \<le> Suc r \<and> st' = st\<lparr>ms_rand := ms_rand st + n\<rparr> \<and>
    (p \<noteq> GSM_RESERVED_TMSI \<longrightarrow> (\<exists>v. \<not> ptmsi_unusable he v st \<and> p = v OR GSM23003_TMSI_SGSN_MASK)) \<and>
    (p = GSM_RESERVED_TMSI \<longrightarrow> fst (rng (ms_rand st + n - 1)) < 0 \<or>
       n = Suc r \<and> (\<forall>k<n. ptmsi_unusable he (snd (rng (ms_rand st + k))) st))"
  using assms
proof (induction r arbitrary: st)
  case 0
  obtain rc v where r: "rng (ms_rand st) = (rc, v)" by fastforce
  have "v OR GSM23003_TMSI_SGSN_MASK \<noteq> GSM_RESERVED_TMSI" if "\<not> ptmsi_unusable he v st" using that by (simp add: ptmsi_unusable_def)
  then show ?case using 0 r by (intro exI [of _ 1]) (auto simp: alloc_ptmsi_loop.simps Let_def split: if_splits)
next
  case (Suc r)
  obtain rc v where r: "rng (ms_rand st) = (rc, v)" by fastforce
  show ?case
  proof (cases "0 \<le> rc \<and> ptmsi_unusable he v st")
    case False
    have "v OR GSM23003_TMSI_SGSN_MASK \<noteq> GSM_RESERVED_TMSI" if "\<not> ptmsi_unusable he v st" using that by (simp add: ptmsi_unusable_def)
    then show ?thesis using Suc.prems r False
      by (intro exI [of _ 1]) (auto simp: alloc_ptmsi_loop.simps [of he rng "Suc r"] Let_def split: if_splits)
  next
    case True
    let ?st = "st\<lparr>ms_rand := Suc (ms_rand st)\<rparr>"
    have "alloc_ptmsi_loop he rng r ?st = (p, st')" using Suc.prems True r
      by (simp add: alloc_ptmsi_loop.simps [of he rng "Suc r"] Let_def)
    from Suc.IH [OF this] obtain n where n: "0 < n" "n \<le> Suc r" "st' = ?st\<lparr>ms_rand := ms_rand ?st + n\<rparr>"
      "p \<noteq> GSM_RESERVED_TMSI \<longrightarrow> (\<exists>v. \<not> ptmsi_unusable he v st \<and> p = v OR GSM23003_TMSI_SGSN_MASK)"
      "p = GSM_RESERVED_TMSI \<longrightarrow> fst (rng (ms_rand ?st + n - 1)) < 0 \<or>
         n = Suc r \<and> (\<forall>k<n. ptmsi_unusable he (snd (rng (ms_rand ?st + k))) st)" by auto
    have all: "\<forall>k<Suc n. ptmsi_unusable he (snd (rng (ms_rand st + k))) st"
      if "\<forall>k<n. ptmsi_unusable he (snd (rng (ms_rand ?st + k))) st"
      using that True r by (auto simp: less_Suc_eq_0_disj)
    show ?thesis using n all by (intro exI [of _ "Suc n"]) auto
  qed
qed

lemma mm_inv_renew: "mm_inv he st \<Longrightarrow> mm_inv he (ptmsi_renew he rng i st)"
proof (cases "mm_at st i")
  case (Some c)
  assume inv: "mm_inv he st"
  obtain p st' where a: "sgsn_alloc_ptmsi he rng st = (p, st')" by fastforce
  then obtain n where "st' = st\<lparr>ms_rand := n\<rparr>" using alloc_ptmsi_loop_result unfolding sgsn_alloc_ptmsi_def by blast
  then have "mm_inv he st'" using inv by (simp add: mm_inv_rand)
  then show ?thesis using inv a Some mm_inv_set_ptmsi [of he st' "\<lambda>c. c\<lparr>mc_p_tmsi_old := mc_p_tmsi c, mc_p_tmsi := p\<rparr>" i]
    by (simp add: ptmsi_renew_def)
qed (simp add: ptmsi_renew_def)

lemma mm_reachable_inv: "mm_reachable he st \<Longrightarrow> mm_inv he st"
proof (induction rule: mm_reachable.induct)
  case start
  show ?case by (simp add: mm_inv_def mm_init_def tab_ok_def)
next
  case (alloc_gb st tlli raid)
  then show ?case using mm_inv_alloc [of he st "(mm_ctx_zero (ms_next st) MM_CTX_T_GERAN_Gb raid)\<lparr>mc_tlli := tlli\<rparr>"]
    by (simp add: sgsn_mm_ctx_alloc_gb_def sgsn_mm_ctx_alloc_def mm_ctx_zero_def)
next
  case (alloc_iu st ue raid)
  let ?c = "(mm_ctx_zero (ms_next st) MM_CTX_T_UTRAN_Iu raid)\<lparr>mc_ue_ctx := Some ue\<rparr>"
  show ?case using alloc_iu.IH mm_inv_alloc [of he st ?c] rehash_tlli_none [of he st ?c]
    by (simp add: sgsn_mm_ctx_alloc_iu_def sgsn_mm_ctx_alloc_def mm_ctx_zero_def)
qed (simp_all add: mm_inv_set_imsi mm_inv_set_ptmsi mm_inv_set_tlli mm_inv_other mm_inv_unlink mm_inv_renew
      mm_set_ptmsi_def mm_confirm_ptmsi_def mm_set_tlli_def mm_set_tlli_new_def mm_confirm_tlli_def)

subsection \<open>Lookups find what is there\<close>

lemma by_ptmsi_found: "sgsn_mm_ctx_by_ptmsi he p st = Some c \<Longrightarrow> c \<in> set (ms_list st) \<and> (p = mc_p_tmsi c \<or> p = mc_p_tmsi_old c)"
  by (auto simp: sgsn_mm_ctx_by_ptmsi_def split: option.split_asm dest: ptmsi_ix.lookup_Some ptmsi_old_ix.lookup_Some)

lemma by_ptmsi_missing:
  assumes "mm_inv he st" "sgsn_mm_ctx_by_ptmsi he p st = None" "p \<noteq> 0" "p \<noteq> GSM_RESERVED_TMSI" "c \<in> set (ms_list st)"
  shows "p \<noteq> mc_p_tmsi c \<and> p \<noteq> mc_p_tmsi_old c"
  using assms ptmsi_ix.lookup_None [of st "\<lambda>c. p = mc_p_tmsi c" he p c]
    ptmsi_old_ix.lookup_None [of st "\<lambda>c. mc_p_tmsi_old c \<noteq> 0 \<and> mc_p_tmsi_old c = p" he p c]
  by (auto simp: sgsn_mm_ctx_by_ptmsi_def mm_inv_def valid_defs split: option.split_asm)

lemma by_imsi_found: "sgsn_mm_ctx_by_imsi he imsi st = Some c \<Longrightarrow> c \<in> set (ms_list st) \<and> mc_imsi c = imsi"
  by (auto simp: sgsn_mm_ctx_by_imsi_def split: if_splits dest: imsi_ix.lookup_Some)

lemma by_imsi_missing:
  assumes "mm_inv he st" "sgsn_mm_ctx_by_imsi he imsi st = None" "imsi \<noteq> []" "c \<in> set (ms_list st)"
  shows "mc_imsi c \<noteq> imsi"
  using assms imsi_ix.lookup_None [of st he "\<lambda>c. imsi = mc_imsi c" he "sgsn_imsi_hashkey he imsi" c]
  by (auto simp: sgsn_mm_ctx_by_imsi_def mm_inv_def valid_defs)

lemma by_tlli_found:
  "sgsn_mm_ctx_by_tlli he cmp tlli raid st = Some c \<Longrightarrow>
   c \<in> set (ms_list st) \<and> rai_same cmp raid (mc_ra c) \<and> (tlli = mc_tlli c \<or> tlli = mc_tlli_new c)"
  by (auto simp: sgsn_mm_ctx_by_tlli_def Let_def split: option.split_asm dest: tlli_ix.lookup_Some tlli_new_ix.lookup_Some)

lemma by_tlli_missing:
  assumes "mm_inv he st" "sgsn_mm_ctx_by_tlli he cmp tlli raid st = None" "tlli \<noteq> 0" "tlli \<noteq> TLLI_UNASSIGNED"
    and "c \<in> set (ms_list st)" "rai_same cmp raid (mc_ra c)"
  shows "tlli \<noteq> mc_tlli c \<and> tlli \<noteq> mc_tlli_new c"
  using assms tlli_ix.lookup_None [of st "\<lambda>c. rai_same cmp raid (mc_ra c) \<and> (tlli = mc_tlli c \<or> tlli = mc_tlli_new c)" he tlli c]
    tlli_new_ix.lookup_None [of st "\<lambda>c. rai_same cmp raid (mc_ra c) \<and> (tlli = mc_tlli c \<or> tlli = mc_tlli_new c)" he tlli c]
  by (auto simp: sgsn_mm_ctx_by_tlli_def mm_inv_def valid_defs Let_def split: option.split_asm)

text \<open>
  C9. The hash tables are an index of the list of contexts: in every state that allocation, the procedures that change an
  identity and the removal of contexts lead to, a lookup by P-TMSI, by IMSI or by TLLI and routing area
  returns a context of the list that has the identity, and finds none only if the list has none, whatever the
  hash functions are.
\<close>

theorem mm_lookup_exact:
  assumes "mm_reachable he st"
  shows "(case sgsn_mm_ctx_by_ptmsi he p st of
            Some c \<Rightarrow> c \<in> set (ms_list st) \<and> (p = mc_p_tmsi c \<or> p = mc_p_tmsi_old c)
          | None \<Rightarrow> p = 0 \<or> p = GSM_RESERVED_TMSI \<or> (\<forall>c\<in>set (ms_list st). p \<noteq> mc_p_tmsi c \<and> p \<noteq> mc_p_tmsi_old c)) \<and>
    (case sgsn_mm_ctx_by_imsi he imsi st of
            Some c \<Rightarrow> c \<in> set (ms_list st) \<and> mc_imsi c = imsi
          | None \<Rightarrow> imsi = [] \<or> (\<forall>c\<in>set (ms_list st). mc_imsi c \<noteq> imsi)) \<and>
    (case sgsn_mm_ctx_by_tlli he cmp tlli raid st of
            Some c \<Rightarrow> c \<in> set (ms_list st) \<and> rai_same cmp raid (mc_ra c) \<and> (tlli = mc_tlli c \<or> tlli = mc_tlli_new c)
          | None \<Rightarrow> tlli = 0 \<or> tlli = TLLI_UNASSIGNED \<or>
                    (\<forall>c\<in>set (ms_list st). rai_same cmp raid (mc_ra c) \<longrightarrow> tlli \<noteq> mc_tlli c \<and> tlli \<noteq> mc_tlli_new c))"
proof -
  note inv = mm_reachable_inv [OF assms]
  show ?thesis
  proof (intro conjI, goal_cases)
    case 1
    then show ?case using by_ptmsi_missing [OF inv, of p] by_ptmsi_found [of he p st] by (cases "sgsn_mm_ctx_by_ptmsi he p st") auto
  next
    case 2
    then show ?case using by_imsi_missing [OF inv, of imsi] by_imsi_found [of he imsi st] by (cases "sgsn_mm_ctx_by_imsi he imsi st") auto
  next
    case 3
    then show ?case using by_tlli_missing [OF inv, of cmp tlli raid] by_tlli_found [of he cmp tlli raid st]
      by (cases "sgsn_mm_ctx_by_tlli he cmp tlli raid st") auto
  qed
qed

definition hash_example :: hash_env where
  "hash_example = \<lparr>he_bucket = (\<lambda>k. 0), he_jhash = (\<lambda>s. 0)\<rparr>"

definition mm_example :: mm_store where
  "mm_example = mm_set_ptmsi 1 0xC0000011 (mm_set_imsi hash_example 0 ''262420000000001''
     (snd (sgsn_mm_ctx_alloc_gb 0xC0000012 (rai_example 1) (snd (sgsn_mm_ctx_alloc_gb 0x78000001 (rai_example 1) mm_init)))))"

lemmas mm_example_eval = mm_example_def hash_example_def mm_init_def mm_set_ptmsi_def mm_set_imsi_def mm_set_def mm_at_def mm_upd_def
  sgsn_mm_ctx_alloc_gb_def sgsn_mm_ctx_alloc_def mm_ctx_zero_def sgsn_mm_ctx_rehash_tlli_def sgsn_mm_ctx_rehash_ptmsi_def
  sgsn_mm_ctx_rehash_imsi_def hash_del_def hash_add_def sgsn_mm_ctx_by_ptmsi_def hash_possible_def Let_def TLLI_UNASSIGNED_def
  GSM_RESERVED_TMSI_def GSM23003_IMSI_MAX_DIGITS_def

lemma mm_example_reachable: "mm_reachable hash_example mm_example"
  unfolding mm_example_def by (intro mm_reachable.intros)

theorem mm_lookup_exact_witness:
  "\<exists>c. sgsn_mm_ctx_by_ptmsi hash_example 0xC0000011 mm_example = Some c \<and> mc_id c = 1 \<and> c \<in> set (ms_list mm_example)"
proof -
  have "map_option mc_id (sgsn_mm_ctx_by_ptmsi hash_example 0xC0000011 mm_example) = Some 1"
    by (simp add: mm_example_eval)
  then show ?thesis
    using mm_lookup_exact [OF mm_example_reachable, where p = "0xC0000011"] by auto
qed

text \<open>
  C26. Allocation of a P-TMSI ends after at most 101 random numbers and changes nothing else.  What it returns has the two
  most significant bits set and is the current or old P-TMSI of no context; it returns the reserved
  value only if the source of random numbers fails or all 101 numbers are unusable.
\<close>

theorem alloc_ptmsi_fresh:
  assumes "mm_reachable he st"
  shows "\<exists>p n. sgsn_alloc_ptmsi he rng st = (p, st\<lparr>ms_rand := ms_rand st + n\<rparr>) \<and> 0 < n \<and> n \<le> 101 \<and>
    (if p = GSM_RESERVED_TMSI
     then fst (rng (ms_rand st + n - 1)) < 0 \<or> n = 101 \<and> (\<forall>k<101. ptmsi_unusable he (snd (rng (ms_rand st + k))) st)
     else GSM23003_TMSI_SGSN_MASK \<le> p \<and> (\<forall>c\<in>set (ms_list st). mc_p_tmsi c \<noteq> p \<and> mc_p_tmsi_old c \<noteq> p))"
proof -
  obtain p st' where a: "sgsn_alloc_ptmsi he rng st = (p, st')" by fastforce
  obtain n where n: "0 < n" "n \<le> 101" "st' = st\<lparr>ms_rand := ms_rand st + n\<rparr>"
    "p \<noteq> GSM_RESERVED_TMSI \<longrightarrow> (\<exists>v. \<not> ptmsi_unusable he v st \<and> p = v OR GSM23003_TMSI_SGSN_MASK)"
    "p = GSM_RESERVED_TMSI \<longrightarrow> fst (rng (ms_rand st + n - 1)) < 0 \<or> n = 101 \<and> (\<forall>k<n. ptmsi_unusable he (snd (rng (ms_rand st + k))) st)"
    using alloc_ptmsi_loop_result [OF a [unfolded sgsn_alloc_ptmsi_def]] by auto
  have "GSM23003_TMSI_SGSN_MASK \<le> p \<and> (\<forall>c\<in>set (ms_list st). mc_p_tmsi c \<noteq> p \<and> mc_p_tmsi_old c \<noteq> p)" if r: "p \<noteq> GSM_RESERVED_TMSI"
  proof -
    obtain v where v: "\<not> ptmsi_unusable he v st" "p = v OR GSM23003_TMSI_SGSN_MASK" using n(4) r by blast
    have m: "GSM23003_TMSI_SGSN_MASK \<le> p" by (simp add: v(2) le_word_or1)
    then have "p \<noteq> 0" by (auto simp: GSM23003_TMSI_SGSN_MASK_def)
    moreover have "sgsn_mm_ctx_by_ptmsi he p st = None" using v by (simp add: ptmsi_unusable_def)
    ultimately show ?thesis using m by_ptmsi_missing [OF mm_reachable_inv [OF assms] _ _ r] by metis
  qed
  then show ?thesis using a n by (intro exI [of _ p] exI [of _ n]) auto
qed

theorem alloc_ptmsi_fresh_witness:
  "\<exists>p n. sgsn_alloc_ptmsi hash_example (\<lambda>k. (0, if k = 0 then 17 else 18)) mm_example = (p, mm_example\<lparr>ms_rand := n\<rparr>) \<and>
     (\<forall>c\<in>set (ms_list mm_example). mc_p_tmsi c \<noteq> p) \<and> p = 0xC0000012"
proof -
  have "fst (sgsn_alloc_ptmsi hash_example (\<lambda>k. (0, if k = 0 then 17 else 18)) mm_example) = 0xC0000012"
    by (simp add: mm_example_eval sgsn_alloc_ptmsi_def alloc_ptmsi_loop.simps [of _ _ 100] alloc_ptmsi_loop.simps [of _ _ 99]
        ptmsi_unusable_def GSM23003_TMSI_SGSN_MASK_def)
  then show ?thesis
    using alloc_ptmsi_fresh [OF mm_example_reachable, of "\<lambda>k. (0, if k = 0 then 17 else 18)"] by (auto simp: GSM_RESERVED_TMSI_def)
qed

end
