(* ===== verification/Mm_Fsm.thy ===== *)
theory Mm_Fsm
  imports Mm_Ctx
begin

unbundle bit_operations_syntax

section \<open>State machines of mobility management (src/src/sgsn/gprs\_gmm\_fsm.c, gprs\_mm\_state\_gb\_fsm.c, gprs\_mm\_state\_iu\_fsm.c)\<close>

text \<open>
  Every MM context has three state machines: GMM, and the states of mobility management on Gb and on Iu.  They run on
  the state machines of libosmocore, of which a parameter says whether a state admits an event and
  whether it may be left for another one; an event that is not admitted and a change that is not allowed do nothing.  Entering
  the state Idle of Gb releases the LLC entity, so that the operations act on a context together with the LLC layer.
  The timers of the state machines are their environment: an expiry is an event.  Of the machine for Iu
  the release of the connection and the error indication of a direct tunnel are left out, which act on the PDP
  contexts in libgtp.
\<close>

record fsm_lib =
  fl_event_ok :: "u32 \<Rightarrow> nat \<Rightarrow> bool"
  fl_state_ok :: "u32 \<Rightarrow> nat \<Rightarrow> bool"

text \<open>What libosmocore documents: masks have the bit of every event or state that is permitted.\<close>

definition fsm_lib_ok :: "fsm_lib \<Rightarrow> bool" where
  "fsm_lib_ok lib \<longleftrightarrow> (\<forall>m k. k < 32 \<longrightarrow> fl_event_ok lib m k = bit m k \<and> fl_state_ok lib m k = bit m k)"

definition fsm_bit :: "nat \<Rightarrow> u32" where "fsm_bit k = push_bit k 1"

subsection \<open>Mobility management on Gb\<close>

datatype mm_state_gb_fsm_events = E_MM_GPRS_ATTACH | E_MM_GPRS_DETACH | E_MM_PDU_RECEPTION | E_MM_READY_TIMER_EXPIRY | E_MM_RA_UPDATE

fun gb_state_nr :: "mm_state_gb_fsm_states \<Rightarrow> nat" where
  "gb_state_nr ST_MM_IDLE = 0" | "gb_state_nr ST_MM_READY = 1" | "gb_state_nr ST_MM_STANDBY = 2"

fun gb_event_nr :: "mm_state_gb_fsm_events \<Rightarrow> nat" where
  "gb_event_nr E_MM_GPRS_ATTACH = 0" | "gb_event_nr E_MM_GPRS_DETACH = 1" | "gb_event_nr E_MM_PDU_RECEPTION = 2"
| "gb_event_nr E_MM_READY_TIMER_EXPIRY = 3" | "gb_event_nr E_MM_RA_UPDATE = 4"

fun gb_in_event_mask :: "mm_state_gb_fsm_states \<Rightarrow> u32" where
  "gb_in_event_mask ST_MM_IDLE = fsm_bit (gb_event_nr E_MM_GPRS_ATTACH) OR fsm_bit (gb_event_nr E_MM_PDU_RECEPTION)"
| "gb_in_event_mask ST_MM_READY = fsm_bit (gb_event_nr E_MM_READY_TIMER_EXPIRY) OR fsm_bit (gb_event_nr E_MM_RA_UPDATE) OR
     fsm_bit (gb_event_nr E_MM_GPRS_DETACH) OR fsm_bit (gb_event_nr E_MM_PDU_RECEPTION)"
| "gb_in_event_mask ST_MM_STANDBY = fsm_bit (gb_event_nr E_MM_PDU_RECEPTION) OR fsm_bit (gb_event_nr E_MM_GPRS_DETACH)"

fun gb_out_state_mask :: "mm_state_gb_fsm_states \<Rightarrow> u32" where
  "gb_out_state_mask ST_MM_IDLE = fsm_bit (gb_state_nr ST_MM_READY)"
| "gb_out_state_mask ST_MM_READY = fsm_bit (gb_state_nr ST_MM_IDLE) OR fsm_bit (gb_state_nr ST_MM_STANDBY)"
| "gb_out_state_mask ST_MM_STANDBY = fsm_bit (gb_state_nr ST_MM_IDLE) OR fsm_bit (gb_state_nr ST_MM_READY)"

definition st_mm_idle_on_enter :: "sgsn_mm_ctx \<times> llc \<Rightarrow> (sgsn_mm_ctx \<times> llc) exec" where
  "st_mm_idle_on_enter = (\<lambda>(c, llc).
     let c = (if mc_T c = 3350 \<and> mc_timer_pending c then c\<lparr>mc_timer_pending := False\<rparr> else c) in
     case mc_llme c of
       None \<Rightarrow> Inr (c, llc)
     | Some l \<Rightarrow> ebind (gprs_llgmm_unassign l llc) (\<lambda>(_, llc). Inr (c\<lparr>mc_llme := None\<rparr>, llc)))"

definition mm_state_gb_fsm_state_chg :: "fsm_lib \<Rightarrow> mm_state_gb_fsm_states \<Rightarrow> sgsn_mm_ctx \<times> llc \<Rightarrow> (sgsn_mm_ctx \<times> llc) exec" where
  "mm_state_gb_fsm_state_chg lib s = (\<lambda>(c, llc).
     if fl_state_ok lib (gb_out_state_mask (mc_gb_fsm c)) (gb_state_nr s) then
       let c = c\<lparr>mc_gb_fsm := s\<rparr> in if s = ST_MM_IDLE then st_mm_idle_on_enter (c, llc) else Inr (c, llc)
     else Inr (c, llc))"

definition st_mm_idle :: "fsm_lib \<Rightarrow> mm_state_gb_fsm_events \<Rightarrow> sgsn_mm_ctx \<times> llc \<Rightarrow> (sgsn_mm_ctx \<times> llc) exec" where
  "st_mm_idle lib ev x = (case ev of E_MM_GPRS_ATTACH \<Rightarrow> mm_state_gb_fsm_state_chg lib ST_MM_READY x | _ \<Rightarrow> Inr x)"

definition st_mm_ready :: "fsm_lib \<Rightarrow> mm_state_gb_fsm_events \<Rightarrow> sgsn_mm_ctx \<times> llc \<Rightarrow> (sgsn_mm_ctx \<times> llc) exec" where
  "st_mm_ready lib ev x =
     (case ev of
        E_MM_READY_TIMER_EXPIRY \<Rightarrow> mm_state_gb_fsm_state_chg lib ST_MM_STANDBY x
      | E_MM_GPRS_DETACH \<Rightarrow> mm_state_gb_fsm_state_chg lib ST_MM_IDLE x
      | _ \<Rightarrow> Inr x)"

definition st_mm_standby :: "fsm_lib \<Rightarrow> mm_state_gb_fsm_events \<Rightarrow> sgsn_mm_ctx \<times> llc \<Rightarrow> (sgsn_mm_ctx \<times> llc) exec" where
  "st_mm_standby lib ev x =
     (case ev of
        E_MM_PDU_RECEPTION \<Rightarrow> mm_state_gb_fsm_state_chg lib ST_MM_READY x
      | E_MM_GPRS_DETACH \<Rightarrow> mm_state_gb_fsm_state_chg lib ST_MM_IDLE x
      | _ \<Rightarrow> Inr x)"

definition mm_state_gb_fsm :: "fsm_lib \<Rightarrow> mm_state_gb_fsm_events \<Rightarrow> sgsn_mm_ctx \<times> llc \<Rightarrow> (sgsn_mm_ctx \<times> llc) exec" where
  "mm_state_gb_fsm lib ev x =
     (if fl_event_ok lib (gb_in_event_mask (mc_gb_fsm (fst x))) (gb_event_nr ev) then
        case mc_gb_fsm (fst x) of
          ST_MM_IDLE \<Rightarrow> st_mm_idle lib ev x
        | ST_MM_READY \<Rightarrow> st_mm_ready lib ev x
        | ST_MM_STANDBY \<Rightarrow> st_mm_standby lib ev x
      else Inr x)"

definition mm_state_gb_fsm_timer_cb :: "fsm_lib \<Rightarrow> sgsn_mm_ctx \<times> llc \<Rightarrow> (sgsn_mm_ctx \<times> llc) exec" where
  "mm_state_gb_fsm_timer_cb lib x =
     (case mc_gb_fsm (fst x) of ST_MM_READY \<Rightarrow> mm_state_gb_fsm lib E_MM_READY_TIMER_EXPIRY x | _ \<Rightarrow> Inr x)"

subsection \<open>Mobility management on Iu\<close>

datatype mm_state_iu_fsm_events =
  E_PMM_PS_ATTACH | E_PMM_PS_DETACH | E_PMM_PS_CONN_ESTABLISH | E_PMM_RA_UPDATE

fun iu_state_nr :: "mm_state_iu_fsm_states \<Rightarrow> nat" where
  "iu_state_nr ST_PMM_DETACHED = 0" | "iu_state_nr ST_PMM_CONNECTED = 1" | "iu_state_nr ST_PMM_IDLE = 2"

fun iu_event_nr :: "mm_state_iu_fsm_events \<Rightarrow> nat" where
  "iu_event_nr E_PMM_PS_ATTACH = 0" | "iu_event_nr E_PMM_PS_DETACH = 1" | "iu_event_nr E_PMM_PS_CONN_ESTABLISH = 3" | "iu_event_nr E_PMM_RA_UPDATE = 4"

text \<open>The events 2 and 5 are those that are left out.\<close>

fun iu_in_event_mask :: "mm_state_iu_fsm_states \<Rightarrow> u32" where
  "iu_in_event_mask ST_PMM_DETACHED = fsm_bit (iu_event_nr E_PMM_PS_ATTACH) OR fsm_bit (iu_event_nr E_PMM_PS_DETACH) OR fsm_bit 2 OR fsm_bit 5"
| "iu_in_event_mask ST_PMM_CONNECTED = fsm_bit 2 OR fsm_bit (iu_event_nr E_PMM_PS_CONN_ESTABLISH) OR fsm_bit (iu_event_nr E_PMM_RA_UPDATE) OR
     fsm_bit (iu_event_nr E_PMM_PS_DETACH) OR fsm_bit 5"
| "iu_in_event_mask ST_PMM_IDLE = fsm_bit (iu_event_nr E_PMM_PS_DETACH) OR fsm_bit (iu_event_nr E_PMM_PS_CONN_ESTABLISH) OR
     fsm_bit (iu_event_nr E_PMM_PS_ATTACH) OR fsm_bit (iu_event_nr E_PMM_RA_UPDATE) OR fsm_bit 2 OR fsm_bit 5"

fun iu_out_state_mask :: "mm_state_iu_fsm_states \<Rightarrow> u32" where
  "iu_out_state_mask ST_PMM_DETACHED = fsm_bit (iu_state_nr ST_PMM_CONNECTED)"
| "iu_out_state_mask ST_PMM_CONNECTED = fsm_bit (iu_state_nr ST_PMM_DETACHED) OR fsm_bit (iu_state_nr ST_PMM_IDLE)"
| "iu_out_state_mask ST_PMM_IDLE = fsm_bit (iu_state_nr ST_PMM_DETACHED) OR fsm_bit (iu_state_nr ST_PMM_CONNECTED)"

definition mm_state_iu_fsm_state_chg :: "fsm_lib \<Rightarrow> mm_state_iu_fsm_states \<Rightarrow> sgsn_mm_ctx \<Rightarrow> sgsn_mm_ctx" where
  "mm_state_iu_fsm_state_chg lib s c =
     (if fl_state_ok lib (iu_out_state_mask (mc_iu_fsm c)) (iu_state_nr s) then c\<lparr>mc_iu_fsm := s\<rparr> else c)"

definition sgsn_mm_ctx_iu_ranap_release_free :: "sgsn_mm_ctx \<Rightarrow> sgsn_mm_ctx" where
  "sgsn_mm_ctx_iu_ranap_release_free c = (if mc_ue_ctx c = None then c else c\<lparr>mc_ue_ctx := None\<rparr>)"

text \<open>The requests that are sent for the PDP contexts change nothing of the MM context.\<close>

definition sgsn_mm_ctx_iu_activate_rabs :: "sgsn_mm_ctx \<Rightarrow> sgsn_mm_ctx exec" where
  "sgsn_mm_ctx_iu_activate_rabs c = ebind (osmo_assert (mc_ran_type c = MM_CTX_T_UTRAN_Iu)) (\<lambda>_. Inr c)"

definition st_pmm_detached :: "fsm_lib \<Rightarrow> mm_state_iu_fsm_events \<Rightarrow> sgsn_mm_ctx \<Rightarrow> sgsn_mm_ctx exec" where
  "st_pmm_detached lib ev c = (case ev of E_PMM_PS_ATTACH \<Rightarrow> Inr (mm_state_iu_fsm_state_chg lib ST_PMM_CONNECTED c) | _ \<Rightarrow> Inr c)"

definition st_pmm_connected :: "fsm_lib \<Rightarrow> mm_state_iu_fsm_events \<Rightarrow> sgsn_mm_ctx \<Rightarrow> sgsn_mm_ctx exec" where
  "st_pmm_connected lib ev c =
     (case ev of
        E_PMM_PS_DETACH \<Rightarrow> Inr (mm_state_iu_fsm_state_chg lib ST_PMM_DETACHED (sgsn_mm_ctx_iu_ranap_release_free c))
      | _ \<Rightarrow> Inr c)"

definition st_pmm_idle :: "fsm_lib \<Rightarrow> mm_state_iu_fsm_events \<Rightarrow> sgsn_mm_ctx \<Rightarrow> sgsn_mm_ctx exec" where
  "st_pmm_idle lib ev c =
     (case ev of
        E_PMM_PS_DETACH \<Rightarrow> Inr (mm_state_iu_fsm_state_chg lib ST_PMM_DETACHED c)
      | _ \<Rightarrow> sgsn_mm_ctx_iu_activate_rabs (mm_state_iu_fsm_state_chg lib ST_PMM_CONNECTED c))"

definition mm_state_iu_fsm :: "fsm_lib \<Rightarrow> mm_state_iu_fsm_events \<Rightarrow> sgsn_mm_ctx \<Rightarrow> sgsn_mm_ctx exec" where
  "mm_state_iu_fsm lib ev c =
     (if fl_event_ok lib (iu_in_event_mask (mc_iu_fsm c)) (iu_event_nr ev) then
        case mc_iu_fsm c of
          ST_PMM_DETACHED \<Rightarrow> st_pmm_detached lib ev c
        | ST_PMM_CONNECTED \<Rightarrow> st_pmm_connected lib ev c
        | ST_PMM_IDLE \<Rightarrow> st_pmm_idle lib ev c
      else Inr c)"

subsection \<open>GMM\<close>

datatype gmm_fsm_events =
  E_GMM_COMMON_PROC_INIT_REQ | E_GMM_COMMON_PROC_SUCCESS | E_GMM_ATTACH_SUCCESS | E_GMM_SUSPEND | E_GMM_RESUME | E_GMM_CLEANUP
| E_GMM_RAT_CHANGE sgsn_ran_type "nat option"

fun gmm_state_nr :: "gmm_fsm_states \<Rightarrow> nat" where
  "gmm_state_nr ST_GMM_DEREGISTERED = 0" | "gmm_state_nr ST_GMM_COMMON_PROC_INIT = 1" | "gmm_state_nr ST_GMM_REGISTERED_NORMAL = 2"
| "gmm_state_nr ST_GMM_REGISTERED_SUSPENDED = 3" | "gmm_state_nr ST_GMM_DEREGISTERED_INIT = 4"

fun gmm_event_nr :: "gmm_fsm_events \<Rightarrow> nat" where
  "gmm_event_nr E_GMM_COMMON_PROC_INIT_REQ = 0" | "gmm_event_nr E_GMM_COMMON_PROC_SUCCESS = 1" | "gmm_event_nr E_GMM_ATTACH_SUCCESS = 2"
| "gmm_event_nr E_GMM_SUSPEND = 3" | "gmm_event_nr E_GMM_RESUME = 4" | "gmm_event_nr E_GMM_CLEANUP = 5" | "gmm_event_nr (E_GMM_RAT_CHANGE _ _) = 6"

fun gmm_in_event_mask :: "gmm_fsm_states \<Rightarrow> u32" where
  "gmm_in_event_mask ST_GMM_DEREGISTERED = fsm_bit (gmm_event_nr E_GMM_COMMON_PROC_INIT_REQ) OR fsm_bit (gmm_event_nr E_GMM_ATTACH_SUCCESS)"
| "gmm_in_event_mask ST_GMM_COMMON_PROC_INIT = fsm_bit (gmm_event_nr E_GMM_COMMON_PROC_SUCCESS) OR fsm_bit (gmm_event_nr E_GMM_ATTACH_SUCCESS) OR
     fsm_bit (gmm_event_nr E_GMM_COMMON_PROC_INIT_REQ)"
| "gmm_in_event_mask ST_GMM_REGISTERED_NORMAL = fsm_bit (gmm_event_nr E_GMM_COMMON_PROC_INIT_REQ) OR fsm_bit (gmm_event_nr E_GMM_COMMON_PROC_SUCCESS) OR
     fsm_bit (gmm_event_nr E_GMM_SUSPEND)"
| "gmm_in_event_mask ST_GMM_REGISTERED_SUSPENDED = fsm_bit (gmm_event_nr E_GMM_RESUME) OR fsm_bit (gmm_event_nr E_GMM_COMMON_PROC_INIT_REQ)"
| "gmm_in_event_mask ST_GMM_DEREGISTERED_INIT = 0"

fun gmm_out_state_mask :: "gmm_fsm_states \<Rightarrow> u32" where
  "gmm_out_state_mask ST_GMM_DEREGISTERED = fsm_bit (gmm_state_nr ST_GMM_COMMON_PROC_INIT)"
| "gmm_out_state_mask ST_GMM_COMMON_PROC_INIT = fsm_bit (gmm_state_nr ST_GMM_DEREGISTERED) OR fsm_bit (gmm_state_nr ST_GMM_REGISTERED_NORMAL)"
| "gmm_out_state_mask ST_GMM_REGISTERED_NORMAL = fsm_bit (gmm_state_nr ST_GMM_DEREGISTERED) OR fsm_bit (gmm_state_nr ST_GMM_COMMON_PROC_INIT) OR
     fsm_bit (gmm_state_nr ST_GMM_DEREGISTERED_INIT) OR fsm_bit (gmm_state_nr ST_GMM_REGISTERED_SUSPENDED)"
| "gmm_out_state_mask ST_GMM_REGISTERED_SUSPENDED = fsm_bit (gmm_state_nr ST_GMM_DEREGISTERED) OR fsm_bit (gmm_state_nr ST_GMM_REGISTERED_NORMAL) OR
     fsm_bit (gmm_state_nr ST_GMM_COMMON_PROC_INIT)"
| "gmm_out_state_mask ST_GMM_DEREGISTERED_INIT = fsm_bit (gmm_state_nr ST_GMM_DEREGISTERED)"

definition gmm_allstate_event_mask :: u32 where
  "gmm_allstate_event_mask = fsm_bit (gmm_event_nr E_GMM_CLEANUP) OR fsm_bit 6"

definition gmm_fsm_state_chg :: "fsm_lib \<Rightarrow> gmm_fsm_states \<Rightarrow> sgsn_mm_ctx \<Rightarrow> sgsn_mm_ctx" where
  "gmm_fsm_state_chg lib s c =
     (if fl_state_ok lib (gmm_out_state_mask (mc_gmm_fsm c)) (gmm_state_nr s) then c\<lparr>mc_gmm_fsm := s\<rparr> else c)"

definition st_gmm_deregistered :: "fsm_lib \<Rightarrow> gmm_fsm_events \<Rightarrow> sgsn_mm_ctx \<Rightarrow> sgsn_mm_ctx" where
  "st_gmm_deregistered lib ev c =
     (case ev of
        E_GMM_COMMON_PROC_INIT_REQ \<Rightarrow> gmm_fsm_state_chg lib ST_GMM_COMMON_PROC_INIT c
      | E_GMM_ATTACH_SUCCESS \<Rightarrow> gmm_fsm_state_chg lib ST_GMM_REGISTERED_NORMAL c
      | _ \<Rightarrow> c)"

definition st_gmm_common_proc_init :: "fsm_lib \<Rightarrow> gmm_fsm_events \<Rightarrow> sgsn_mm_ctx \<Rightarrow> sgsn_mm_ctx" where
  "st_gmm_common_proc_init lib ev c =
     (case ev of
        E_GMM_COMMON_PROC_SUCCESS \<Rightarrow> gmm_fsm_state_chg lib ST_GMM_REGISTERED_NORMAL c
      | E_GMM_ATTACH_SUCCESS \<Rightarrow> gmm_fsm_state_chg lib ST_GMM_REGISTERED_NORMAL c
      | _ \<Rightarrow> c)"

definition st_gmm_registered_normal :: "fsm_lib \<Rightarrow> gmm_fsm_events \<Rightarrow> sgsn_mm_ctx \<Rightarrow> sgsn_mm_ctx" where
  "st_gmm_registered_normal lib ev c =
     (case ev of
        E_GMM_COMMON_PROC_INIT_REQ \<Rightarrow> gmm_fsm_state_chg lib ST_GMM_COMMON_PROC_INIT c
      | E_GMM_SUSPEND \<Rightarrow> gmm_fsm_state_chg lib ST_GMM_REGISTERED_SUSPENDED c
      | _ \<Rightarrow> c)"

definition st_gmm_registered_suspended :: "fsm_lib \<Rightarrow> gmm_fsm_events \<Rightarrow> sgsn_mm_ctx \<Rightarrow> sgsn_mm_ctx" where
  "st_gmm_registered_suspended lib ev c =
     (case ev of
        E_GMM_RESUME \<Rightarrow> gmm_fsm_state_chg lib ST_GMM_REGISTERED_NORMAL c
      | E_GMM_COMMON_PROC_INIT_REQ \<Rightarrow> gmm_fsm_state_chg lib ST_GMM_COMMON_PROC_INIT c
      | _ \<Rightarrow> c)"

text \<open>The two events of \<open>gmm_fsm_allstate_action\<close>; a change of the radio access falls through to the clean-up.\<close>

definition gmm_cleanup :: "fsm_lib \<Rightarrow> sgsn_mm_ctx \<Rightarrow> sgsn_mm_ctx" where
  "gmm_cleanup lib c = (if mc_gmm_fsm c = ST_GMM_DEREGISTERED then c else gmm_fsm_state_chg lib ST_GMM_DEREGISTERED c)"

definition gmm_rat_change :: "fsm_lib \<Rightarrow> sgsn_ran_type \<Rightarrow> nat option \<Rightarrow> sgsn_mm_ctx \<times> llc \<Rightarrow> (sgsn_mm_ctx \<times> llc) exec" where
  "gmm_rat_change lib new_ran_type llme = (\<lambda>(c, llc).
     let c = (if mc_gmm_fsm c = ST_GMM_COMMON_PROC_INIT then gmm_fsm_state_chg lib ST_GMM_DEREGISTERED c else c) in
     ebind (case mc_ran_type c of
              MM_CTX_T_GERAN_Gb \<Rightarrow> mm_state_gb_fsm lib E_MM_GPRS_DETACH (c, llc)
            | MM_CTX_T_UTRAN_Iu \<Rightarrow> ebind (mm_state_iu_fsm lib E_PMM_PS_DETACH c) (\<lambda>c. Inr (c\<lparr>mc_llme := llme\<rparr>, llc))) (\<lambda>(c, llc).
     Inr (gmm_cleanup lib (c\<lparr>mc_ran_type := new_ran_type\<rparr>), llc)))"

definition gmm_fsm :: "fsm_lib \<Rightarrow> gmm_fsm_events \<Rightarrow> sgsn_mm_ctx \<times> llc \<Rightarrow> (sgsn_mm_ctx \<times> llc) exec" where
  "gmm_fsm lib ev = (\<lambda>(c, llc).
     if fl_event_ok lib gmm_allstate_event_mask (gmm_event_nr ev) then
       (case ev of
          E_GMM_RAT_CHANGE new_ran_type llme \<Rightarrow> gmm_rat_change lib new_ran_type llme (c, llc)
        | E_GMM_CLEANUP \<Rightarrow> Inr (gmm_cleanup lib c, llc)
        | _ \<Rightarrow> Inr (c, llc))
     else if fl_event_ok lib (gmm_in_event_mask (mc_gmm_fsm c)) (gmm_event_nr ev) then
       Inr (case mc_gmm_fsm c of
              ST_GMM_DEREGISTERED \<Rightarrow> st_gmm_deregistered lib ev c
            | ST_GMM_COMMON_PROC_INIT \<Rightarrow> st_gmm_common_proc_init lib ev c
            | ST_GMM_REGISTERED_NORMAL \<Rightarrow> st_gmm_registered_normal lib ev c
            | ST_GMM_REGISTERED_SUSPENDED \<Rightarrow> st_gmm_registered_suspended lib ev c
            | ST_GMM_DEREGISTERED_INIT \<Rightarrow> c, llc)
     else Inr (c, llc))"

subsection \<open>Change of the radio access and release of a context\<close>

text \<open>\<open>iu\<close> says that the message came over Iu, and \<open>llme\<close> is the LLC entity it came through otherwise.\<close>

definition mmctx_did_rat_change :: "bool \<Rightarrow> sgsn_mm_ctx \<Rightarrow> bool" where
  "mmctx_did_rat_change iu c \<longleftrightarrow> (iu \<and> mc_ran_type c \<noteq> MM_CTX_T_UTRAN_Iu) \<or> (\<not> iu \<and> mc_ran_type c \<noteq> MM_CTX_T_GERAN_Gb)"

definition mmctx_handle_rat_change :: "fsm_lib \<Rightarrow> bool \<Rightarrow> nat option \<Rightarrow> sgsn_mm_ctx \<times> llc \<Rightarrow> (sgsn_mm_ctx \<times> llc) exec" where
  "mmctx_handle_rat_change lib iu llme x =
     (let new_ran_type = (if iu then MM_CTX_T_UTRAN_Iu else MM_CTX_T_GERAN_Gb) in
      if new_ran_type \<noteq> mc_ran_type (fst x) then gmm_fsm lib (E_GMM_RAT_CHANGE new_ran_type llme) x else Inr x)"

text \<open>
  What \<open>sgsn_mm_ctx_cleanup_free\<close> does with the LLC entity: at its start it is noted, or has to be NULL for a
  context on Iu, and at its end it is unassigned.
\<close>

definition cleanup_free_llme :: "sgsn_mm_ctx \<times> llc \<Rightarrow> llc exec" where
  "cleanup_free_llme = (\<lambda>(c, llc).
     ebind (if mc_ran_type c = MM_CTX_T_GERAN_Gb then Inr (mc_llme c) else ebind (osmo_assert (mc_llme c = None)) (\<lambda>_. Inr None)) (\<lambda>llme.
     case llme of None \<Rightarrow> Inr llc | Some l \<Rightarrow> ebind (gprs_llgmm_unassign l llc) (\<lambda>(_, llc). Inr llc)))"

definition gprs_gmm_mm_ctx_cleanup_free :: "fsm_lib \<Rightarrow> sgsn_mm_ctx \<times> llc \<Rightarrow> llc exec" where
  "gprs_gmm_mm_ctx_cleanup_free lib x =
     ebind (gmm_fsm lib E_GMM_CLEANUP x) (\<lambda>(c, llc).
     ebind (case mc_ran_type c of
              MM_CTX_T_UTRAN_Iu \<Rightarrow> ebind (mm_state_iu_fsm lib E_PMM_PS_DETACH c) (\<lambda>c. Inr (c, llc))
            | MM_CTX_T_GERAN_Gb \<Rightarrow> mm_state_gb_fsm lib E_MM_GPRS_DETACH (c, llc)) cleanup_free_llme)"

subsection \<open>Properties\<close>

lemma fsm_lib_event: "fsm_lib_ok lib \<Longrightarrow> k < 32 \<Longrightarrow> fl_event_ok lib m k = bit m k"
  by (simp add: fsm_lib_ok_def)

lemma fsm_lib_state: "fsm_lib_ok lib \<Longrightarrow> k < 32 \<Longrightarrow> fl_state_ok lib m k = bit m k"
  by (simp add: fsm_lib_ok_def)

lemma bit_fsm_bit: "bit (fsm_bit k) n \<longleftrightarrow> n = k \<and> k < 32"
  by (auto simp: fsm_bit_def bit_simps)

lemmas fsm_eval = fsm_lib_event fsm_lib_state bit_or_iff bit_fsm_bit

lemma gmm_cleanup_state: "fsm_lib_ok lib \<Longrightarrow> mc_gmm_fsm (gmm_cleanup lib c) = ST_GMM_DEREGISTERED"
  by (cases "mc_gmm_fsm c") (simp_all add: gmm_cleanup_def gmm_fsm_state_chg_def fsm_eval)

lemma gmm_cleanup_frame [simp]:
  "mc_ran_type (gmm_cleanup lib c) = mc_ran_type c" "mc_llme (gmm_cleanup lib c) = mc_llme c"
  "mc_gb_fsm (gmm_cleanup lib c) = mc_gb_fsm c" "mc_iu_fsm (gmm_cleanup lib c) = mc_iu_fsm c"
  by (simp_all add: gmm_cleanup_def gmm_fsm_state_chg_def)

lemma gmm_fsm_state_chg_frame [simp]:
  "mc_ran_type (gmm_fsm_state_chg lib s c) = mc_ran_type c" "mc_llme (gmm_fsm_state_chg lib s c) = mc_llme c"
  "mc_gb_fsm (gmm_fsm_state_chg lib s c) = mc_gb_fsm c" "mc_iu_fsm (gmm_fsm_state_chg lib s c) = mc_iu_fsm c"
  by (simp_all add: gmm_fsm_state_chg_def)

lemma gmm_rat_change_state: "fsm_lib_ok lib \<Longrightarrow> gmm_rat_change lib rt l (c, llc) = Inr (c', llc') \<Longrightarrow> mc_gmm_fsm c' = ST_GMM_DEREGISTERED"
  by (auto simp: gmm_rat_change_def Let_def ebind_Inr_iff gmm_cleanup_state)

lemma gmm_allstate_only: "fsm_lib_ok lib \<Longrightarrow> fl_event_ok lib gmm_allstate_event_mask (gmm_event_nr ev) \<longleftrightarrow> gmm_event_nr ev \<ge> 5"
  by (cases ev) (simp_all add: gmm_allstate_event_mask_def fsm_eval)

text \<open>
  C25. Registration: whatever event a context receives, its GMM state machine reaches Registered only out of the
  common procedure or from the other Registered state.  In particular the event that the attach has succeeded leaves a
  context that is Deregistered as it is, because the state change the code asks for there is not permitted.
\<close>

theorem gmm_registered_from:
  assumes "fsm_lib_ok lib" "gmm_fsm lib ev (c, llc) = Inr (c', llc')"
    and "mc_gmm_fsm c' \<in> {ST_GMM_REGISTERED_NORMAL, ST_GMM_REGISTERED_SUSPENDED}"
  shows "mc_gmm_fsm c \<in> {ST_GMM_COMMON_PROC_INIT, ST_GMM_REGISTERED_NORMAL, ST_GMM_REGISTERED_SUSPENDED}"
proof -
  note all = gmm_allstate_only [OF assms(1), of ev]
  show ?thesis
  proof (cases "gmm_event_nr ev \<ge> 5")
    case True
    then have "mc_gmm_fsm c' = ST_GMM_DEREGISTERED"
      using assms(1,2) all by (cases ev) (auto simp: gmm_fsm_def gmm_cleanup_state dest: gmm_rat_change_state)
    then show ?thesis using assms(3) by simp
  next
    case False
    then show ?thesis using assms all
      by (cases "mc_gmm_fsm c"; cases ev)
        (auto simp: gmm_fsm_def fsm_eval st_gmm_deregistered_def gmm_fsm_state_chg_def split: if_splits)
  qed
qed

definition lib_example :: fsm_lib where
  "lib_example = \<lparr>fl_event_ok = bit, fl_state_ok = bit\<rparr>"

lemma lib_example_ok: "fsm_lib_ok lib_example"
  by (simp add: fsm_lib_ok_def lib_example_def)

definition ctx_example :: sgsn_mm_ctx where
  "ctx_example = (mm_ctx_zero 0 MM_CTX_T_GERAN_Gb (rai_example 1))\<lparr>mc_gmm_fsm := ST_GMM_COMMON_PROC_INIT, mc_llme := Some 0\<rparr>"

definition llc_one :: llc where
  "llc_one = snd (llme_alloc 0x78000001 \<lparr>llc_llmes = [], llc_next = 0, llc_out = []\<rparr>)"

theorem gmm_registered_from_witness:
  "gmm_fsm lib_example E_GMM_ATTACH_SUCCESS (ctx_example, llc_one) = Inr (ctx_example\<lparr>mc_gmm_fsm := ST_GMM_REGISTERED_NORMAL\<rparr>, llc_one) \<and>
   mc_gmm_fsm ctx_example \<in> {ST_GMM_COMMON_PROC_INIT, ST_GMM_REGISTERED_NORMAL, ST_GMM_REGISTERED_SUSPENDED}"
proof -
  have g: "gmm_fsm lib_example E_GMM_ATTACH_SUCCESS (ctx_example, llc_one) = Inr (ctx_example\<lparr>mc_gmm_fsm := ST_GMM_REGISTERED_NORMAL\<rparr>, llc_one)"
    using gmm_allstate_only [OF lib_example_ok, of E_GMM_ATTACH_SUCCESS]
    by (simp add: gmm_fsm_def fsm_eval lib_example_ok ctx_example_def mm_ctx_zero_def st_gmm_common_proc_init_def gmm_fsm_state_chg_def)
  then show ?thesis using gmm_registered_from [OF lib_example_ok g] by simp
qed

text \<open>What a detach does to a context on Gb: unless it is Idle, it becomes Idle and its LLC entity is released.\<close>

lemma gb_detach:
  assumes "fsm_lib_ok lib" "mc_gb_fsm c \<noteq> ST_MM_IDLE"
  shows "mm_state_gb_fsm lib E_MM_GPRS_DETACH (c, llc) = st_mm_idle_on_enter (c\<lparr>mc_gb_fsm := ST_MM_IDLE\<rparr>, llc)"
  using assms by (cases "mc_gb_fsm c") (simp_all add: mm_state_gb_fsm_def fsm_eval st_mm_ready_def st_mm_standby_def mm_state_gb_fsm_state_chg_def)

lemma gb_detach_idle:
  "fsm_lib_ok lib \<Longrightarrow> mc_gb_fsm c = ST_MM_IDLE \<Longrightarrow> mm_state_gb_fsm lib E_MM_GPRS_DETACH (c, llc) = Inr (c, llc)"
  by (simp add: mm_state_gb_fsm_def fsm_eval)

lemma iu_detach:
  "\<exists>c'. mm_state_iu_fsm lib E_PMM_PS_DETACH c = Inr c' \<and> mc_llme c' = mc_llme c \<and> mc_ran_type c' = mc_ran_type c"
  by (auto simp: mm_state_iu_fsm_def st_pmm_detached_def st_pmm_connected_def st_pmm_idle_def mm_state_iu_fsm_state_chg_def
      sgsn_mm_ctx_iu_ranap_release_free_def split: mm_state_iu_fsm_states.split)

lemma unassign_removes:
  assumes "m \<in> set (llc_llmes llc)" "llme_id m = l" "\<forall>m\<in>set (llc_llmes llc). llme_id m = l \<longrightarrow> llme_tlli m \<noteq> TLLI_UNASSIGNED"
  shows "\<exists>llc'. gprs_llgmm_unassign l llc = Inr (0, llc') \<and> (\<forall>m\<in>set (llc_llmes llc'). llme_id m \<noteq> l)"
proof -
  obtain m' where f: "find (\<lambda>m. llme_id m = l) (llc_llmes llc) = Some m'"
    using assms(1,2) by (cases "find (\<lambda>m. llme_id m = l) (llc_llmes llc)") (auto simp: find_None_iff)
  then have "llme_tlli m' \<noteq> TLLI_UNASSIGNED" using assms(3) find_SomeD [OF f] by auto
  then show ?thesis using f by (simp add: gprs_llgmm_unassign_def gprs_llgmm_assign_def llme_at_def llme_free_def)
qed

lemma idle_on_enter_releases:
  assumes "mc_llme c = Some l" "gprs_llgmm_unassign l llc = Inr (r, llc')"
  shows "\<exists>c'. st_mm_idle_on_enter (c, llc) = Inr (c', llc') \<and> mc_llme c' = None \<and> mc_gb_fsm c' = mc_gb_fsm c"
  using assms by (cases "mc_T c = 3350 \<and> mc_timer_pending c") (auto simp: st_mm_idle_on_enter_def Let_def)

lemma rat_change_to_iu:
  assumes "fsm_lib_ok lib" "mc_ran_type c = MM_CTX_T_GERAN_Gb"
  shows "mmctx_handle_rat_change lib True l (c, llc) =
    ebind (mm_state_gb_fsm lib E_MM_GPRS_DETACH
             (if mc_gmm_fsm c = ST_GMM_COMMON_PROC_INIT then gmm_fsm_state_chg lib ST_GMM_DEREGISTERED c else c, llc)) (\<lambda>(c, llc).
    Inr (gmm_cleanup lib (c\<lparr>mc_ran_type := MM_CTX_T_UTRAN_Iu\<rparr>), llc))"
  using assms gmm_allstate_only [OF assms(1), of "E_GMM_RAT_CHANGE MM_CTX_T_UTRAN_Iu l"] by (simp add: mmctx_handle_rat_change_def gmm_fsm_def gmm_rat_change_def Let_def)

lemma cleanup_iu:
  assumes "fsm_lib_ok lib" "mc_ran_type c = MM_CTX_T_UTRAN_Iu"
  shows "gprs_gmm_mm_ctx_cleanup_free lib (c, llc) = (if mc_llme c = None then Inr llc else Inl Assert_fail)"
proof -
  obtain c' where "mm_state_iu_fsm lib E_PMM_PS_DETACH (gmm_cleanup lib c) = Inr c'" "mc_llme c' = mc_llme c" "mc_ran_type c' = mc_ran_type c"
    using iu_detach [of lib "gmm_cleanup lib c"] by auto
  then show ?thesis using assms gmm_allstate_only [OF assms(1), of E_GMM_CLEANUP]
    by (simp add: gprs_gmm_mm_ctx_cleanup_free_def gmm_fsm_def cleanup_free_llme_def)
qed

text \<open>
  C24. Change from Gb to Iu: a context that is Ready or Standby on Gb becomes Idle there and Deregistered, its LLC
  entity is released and no longer referred to, and the context can be freed afterwards.
\<close>

theorem rat_change_releases:
  assumes "fsm_lib_ok lib" "mc_ran_type c = MM_CTX_T_GERAN_Gb" "mc_gb_fsm c \<noteq> ST_MM_IDLE" "mc_llme c = Some l"
    and "\<exists>m\<in>set (llc_llmes llc). llme_id m = l" "\<forall>m\<in>set (llc_llmes llc). llme_id m = l \<longrightarrow> llme_tlli m \<noteq> TLLI_UNASSIGNED"
  shows "\<exists>c' llc'. mmctx_handle_rat_change lib True k (c, llc) = Inr (c', llc') \<and>
    mc_ran_type c' = MM_CTX_T_UTRAN_Iu \<and> mc_llme c' = None \<and> mc_gb_fsm c' = ST_MM_IDLE \<and> mc_gmm_fsm c' = ST_GMM_DEREGISTERED \<and>
    (\<forall>m\<in>set (llc_llmes llc'). llme_id m \<noteq> l) \<and> gprs_gmm_mm_ctx_cleanup_free lib (c', llc') = Inr llc'"
proof -
  let ?c = "if mc_gmm_fsm c = ST_GMM_COMMON_PROC_INIT then gmm_fsm_state_chg lib ST_GMM_DEREGISTERED c else c"
  obtain llc' where u: "gprs_llgmm_unassign l llc = Inr (0, llc')" "\<forall>m\<in>set (llc_llmes llc'). llme_id m \<noteq> l"
    using unassign_removes assms(5,6) by blast
  have g: "mc_gb_fsm ?c \<noteq> ST_MM_IDLE" "mc_llme ?c = Some l" using assms(3,4) by simp_all
  obtain c1 where c1: "st_mm_idle_on_enter (?c\<lparr>mc_gb_fsm := ST_MM_IDLE\<rparr>, llc) = Inr (c1, llc')" "mc_llme c1 = None" "mc_gb_fsm c1 = ST_MM_IDLE"
    using idle_on_enter_releases [OF _ u(1), of "?c\<lparr>mc_gb_fsm := ST_MM_IDLE\<rparr>"] g(2) by auto
  let ?c' = "gmm_cleanup lib (c1\<lparr>mc_ran_type := MM_CTX_T_UTRAN_Iu\<rparr>)"
  have "mmctx_handle_rat_change lib True k (c, llc) = Inr (?c', llc')"
    using rat_change_to_iu [OF assms(1,2), of k llc] gb_detach [OF assms(1) g(1), of llc] c1(1) by simp
  then show ?thesis using c1(2,3) u(2) cleanup_iu [OF assms(1), of ?c' llc'] gmm_cleanup_state [OF assms(1)] by simp
qed

theorem rat_change_releases_witness:
  "\<exists>c' llc'. mmctx_handle_rat_change lib_example True None (ctx_example\<lparr>mc_gb_fsm := ST_MM_READY\<rparr>, llc_one) = Inr (c', llc') \<and> mc_llme c' = None"
  using rat_change_releases [OF lib_example_ok, of "ctx_example\<lparr>mc_gb_fsm := ST_MM_READY\<rparr>" 0 llc_one None]
  by (auto simp: ctx_example_def mm_ctx_zero_def llc_one_def llme_alloc_def TLLI_UNASSIGNED_def)

text \<open>
  C32. Change from Gb to Iu before the attach is complete: a context that is still Idle on Gb but already has an LLC
  entity, as between an attach request and its completion, keeps the entity when its mobile station
  sends the next request over Iu, since Idle does not admit the event that would release it.  The next
  attempt to free the context stops the SGSN at an assertion.
\<close>

theorem rat_change_aborts:
  assumes "fsm_lib_ok lib" "mc_ran_type c = MM_CTX_T_GERAN_Gb" "mc_gb_fsm c = ST_MM_IDLE" "mc_llme c = Some l"
  shows "\<exists>c'. mmctx_handle_rat_change lib True k (c, llc) = Inr (c', llc) \<and> mc_ran_type c' = MM_CTX_T_UTRAN_Iu \<and> mc_llme c' = Some l \<and>
    gprs_gmm_mm_ctx_cleanup_free lib (c', llc) = Inl Assert_fail"
proof -
  let ?c = "if mc_gmm_fsm c = ST_GMM_COMMON_PROC_INIT then gmm_fsm_state_chg lib ST_GMM_DEREGISTERED c else c"
  let ?c' = "gmm_cleanup lib (?c\<lparr>mc_ran_type := MM_CTX_T_UTRAN_Iu\<rparr>)"
  have "mmctx_handle_rat_change lib True k (c, llc) = Inr (?c', llc)"
    using rat_change_to_iu [OF assms(1,2), of k llc] gb_detach_idle [OF assms(1), of ?c llc] assms(3) by simp
  moreover have "mc_llme ?c' = Some l" "mc_ran_type ?c' = MM_CTX_T_UTRAN_Iu" using assms(4) by simp_all
  ultimately show ?thesis using cleanup_iu [OF assms(1), of ?c' llc] by (intro exI [of _ ?c']) simp
qed

theorem rat_change_aborts_witness:
  "\<exists>c'. mmctx_handle_rat_change lib_example True None (ctx_example, llc_one) = Inr (c', llc_one) \<and>
     gprs_gmm_mm_ctx_cleanup_free lib_example (c', llc_one) = Inl Assert_fail"
  using rat_change_aborts [OF lib_example_ok, of ctx_example 0 None llc_one] by (auto simp: ctx_example_def mm_ctx_zero_def)

end
