(* ===== verification/Sgsn_Apn.thy ===== *)
theory Sgsn_Apn
  imports Gprs_Subscriber
begin

section \<open>Selection of the access point (src/src/sgsn/apn.c, src/src/sgsn/mmctx.c)\<close>

text \<open>
  The configured access points: a name, which may start with an asterisk and then stands for every name with the
  rest as its suffix, a prefix of the IMSIs it is for, and a GGSN.  A PDP context request is matched against
  them and against the access points the subscriber may use.  Strings are lists of characters without the
  terminating zero.
\<close>

subsection \<open>Strings\<close>

definition to_lower :: "char \<Rightarrow> char" where
  "to_lower c = (let n = of_char c :: nat in if 65 \<le> n \<and> n \<le> 90 then char_of (n + 32) else c)"

definition strcaseeq :: "string \<Rightarrow> string \<Rightarrow> bool" where
  "strcaseeq a b \<longleftrightarrow> map to_lower a = map to_lower b"

text \<open>\<open>strncmp (prefix, s, strlen (prefix)) == 0\<close>.\<close>

definition has_prefix :: "string \<Rightarrow> string \<Rightarrow> bool" where
  "has_prefix p s \<longleftrightarrow> take (length p) s = p"

subsection \<open>Configured access points\<close>

record apn_ctx =
  ac_id :: nat
  ac_ggsn :: "nat option"
  ac_name :: string
  ac_imsi_prefix :: string

definition star :: char where "star = CHR ''*''"

text \<open>The name without its asterisk, and whether it matches the name asked for.\<close>

definition name_ref :: "apn_ctx \<Rightarrow> string" where
  "name_ref a = (if take 1 (ac_name a) = [star] then drop 1 (ac_name a) else ac_name a)"

definition name_matches :: "apn_ctx \<Rightarrow> string \<Rightarrow> bool" where
  "name_matches a name \<longleftrightarrow>
     (if take 1 (ac_name a) = [star] then length (name_ref a) \<le> length name else length (name_ref a) = length name) \<and>
     strcaseeq (drop (length name - length (name_ref a)) name) (name_ref a)"

fun apn_match_loop :: "string \<Rightarrow> string \<Rightarrow> apn_ctx list \<Rightarrow> nat \<Rightarrow> nat \<Rightarrow> apn_ctx option \<Rightarrow> apn_ctx option" where
  "apn_match_loop name imsi [] imsi_prio name_prio found = found"
| "apn_match_loop name imsi (a # as) imsi_prio name_prio found =
     (let imsi_ref_len = length (ac_imsi_prefix a); name_ref_len = length (name_ref a) in
      if \<not> has_prefix (ac_imsi_prefix a) imsi \<or> imsi_ref_len < imsi_prio \<or> \<not> name_matches a name \<or>
         (imsi_ref_len = imsi_prio \<and> name_ref_len < name_prio)
      then apn_match_loop name imsi as imsi_prio name_prio found
      else apn_match_loop name imsi as imsi_ref_len name_ref_len (Some a))"

definition sgsn_apn_ctx_match :: "apn_ctx list \<Rightarrow> string \<Rightarrow> string \<Rightarrow> apn_ctx option" where
  "sgsn_apn_ctx_match apns name imsi = apn_match_loop name imsi apns 0 0 None"

definition sgsn_apn_ctx_allow_any_for_imsi :: "apn_ctx list \<Rightarrow> string \<Rightarrow> bool" where
  "sgsn_apn_ctx_allow_any_for_imsi apns imsi \<longleftrightarrow>
     (\<exists>a\<in>set apns. ac_imsi_prefix a \<noteq> [] \<and> has_prefix (ac_imsi_prefix a) imsi \<and> ac_name a = [star])"

definition sgsn_apn_ctx_by_name :: "apn_ctx list \<Rightarrow> string \<Rightarrow> string \<Rightarrow> apn_ctx option" where
  "sgsn_apn_ctx_by_name apns name imsi_prefix =
     find (\<lambda>a. strcaseeq name (ac_name a) \<and> strcaseeq imsi_prefix (ac_imsi_prefix a)) apns"

text \<open>\<open>k\<close> is the identity of the entry if one is allocated.\<close>

definition sgsn_apn_ctx_alloc :: "nat \<Rightarrow> string \<Rightarrow> string \<Rightarrow> apn_ctx list \<Rightarrow> apn_ctx \<times> apn_ctx list" where
  "sgsn_apn_ctx_alloc k name imsi_prefix apns =
     (let a = \<lparr>ac_id = k, ac_ggsn = None, ac_name = name, ac_imsi_prefix = imsi_prefix\<rparr> in (a, apns @ [a]))"

definition sgsn_apn_ctx_find_alloc :: "nat \<Rightarrow> string \<Rightarrow> string \<Rightarrow> apn_ctx list \<Rightarrow> apn_ctx \<times> apn_ctx list" where
  "sgsn_apn_ctx_find_alloc k name imsi_prefix apns =
     (case sgsn_apn_ctx_by_name apns name imsi_prefix of
        Some a \<Rightarrow> (a, apns)
      | None \<Rightarrow> sgsn_apn_ctx_alloc k name imsi_prefix apns)"

definition sgsn_apn_ctx_free :: "nat \<Rightarrow> apn_ctx list \<Rightarrow> apn_ctx list" where
  "sgsn_apn_ctx_free k apns = filter (\<lambda>a. ac_id a \<noteq> k) apns"

subsection \<open>The subscriber's access points\<close>

text \<open>The elements that are added to those of the request.\<close>

record tlv_extra =
  tx_sub_qos :: "octets option"
  tx_charg_char :: "octets option"

definition insert_extra :: "sgsn_subscriber_data \<Rightarrow> sgsn_subscriber_pdp_data \<Rightarrow> tlv_extra \<Rightarrow> tlv_extra" where
  "insert_extra sd pdp tp =
     (let tp = tp\<lparr>tx_sub_qos := Some (pd_qos_subscribed pdp)\<rparr> in
      case pd_charg pdp of
        Some ch \<Rightarrow> tp\<lparr>tx_charg_char := Some ch\<rparr>
      | None \<Rightarrow> (case sd_charg sd of Some ch \<Rightarrow> tp\<lparr>tx_charg_char := Some ch\<rparr> | None \<Rightarrow> tp))"

text \<open>
  The first loop of \<open>sgsn_mm_ctx_find_ggsn_ctx\<close>, when no access point was asked for.  \<open>match\<close> is what
  \<open>sgsn_apn_ctx_match\<close> finds for the name asked for, which is the empty one here, and \<open>apns_empty\<close> that no access points are
  configured.  The state is \<open>allow_any_apn\<close>, \<open>selected_apn_str\<close>, \<open>apn_ctx\<close> and the elements.
\<close>

fun default_apn_loop ::
  "bool \<Rightarrow> apn_ctx option \<Rightarrow> sgsn_subscriber_data \<Rightarrow> sgsn_subscriber_pdp_data list \<Rightarrow>
   bool \<times> string option \<times> apn_ctx option \<times> tlv_extra \<Rightarrow> bool \<times> string option \<times> apn_ctx option \<times> tlv_extra" where
  "default_apn_loop apns_empty match sd [] s = s"
| "default_apn_loop apns_empty match sd (pdp # pdps) (allow_any, selected, apn, tp) =
     (if pd_apn_str pdp = [star]
      then default_apn_loop apns_empty match sd pdps (True, Some [], apn, insert_extra sd pdp tp)
      else if \<not> apns_empty \<and> match = None then default_apn_loop apns_empty match sd pdps (allow_any, selected, None, tp)
      else (allow_any, Some (pd_apn_str pdp), if apns_empty then apn else match, insert_extra sd pdp tp))"

text \<open>The second loop, when one was asked for.\<close>

fun granted_apn_loop ::
  "string \<Rightarrow> sgsn_subscriber_data \<Rightarrow> sgsn_subscriber_pdp_data list \<Rightarrow> bool \<times> string option \<times> tlv_extra \<Rightarrow> bool \<times> string option \<times> tlv_extra" where
  "granted_apn_loop req sd [] s = s"
| "granted_apn_loop req sd (pdp # pdps) (allow_any, selected, tp) =
     (if pd_apn_str pdp = [star]
      then granted_apn_loop req sd pdps (True, Some req, insert_extra sd pdp tp)
      else if strcaseeq (pd_apn_str pdp) req then (allow_any, Some req, insert_extra sd pdp tp)
      else granted_apn_loop req sd pdps (allow_any, selected, tp))"

datatype gsm_cause = GSM_CAUSE_INV_MAND_INFO | GSM_CAUSE_REQ_SERV_OPT_NOTSUB | GSM_CAUSE_MISSING_APN

definition GSM_APN_LENGTH :: nat where "GSM_APN_LENGTH = 102"

text \<open>
  The name asked for: \<open>apn_ie\<close> is the value of the element, if the message has one, and \<open>to_str\<close> the
  conversion of libosmocore.
\<close>

definition requested_apn :: "(octets \<Rightarrow> string) \<Rightarrow> octets option \<Rightarrow> gsm_cause + string" where
  "requested_apn to_str apn_ie =
     (case apn_ie of
        None \<Rightarrow> Inr []
      | Some ie \<Rightarrow>
          if length ie \<ge> GSM_APN_LENGTH - 1 then Inl GSM_CAUSE_INV_MAND_INFO
          else Inr (if to_str ie = [star] then [] else to_str ie))"

definition select_apn ::
  "apn_ctx list \<Rightarrow> sgsn_subscriber_data option \<Rightarrow> string \<Rightarrow> string \<Rightarrow> tlv_extra \<Rightarrow> bool \<times> string option \<times> apn_ctx option \<times> tlv_extra" where
  "select_apn apns subscr imsi req tp =
     (case subscr of
        None \<Rightarrow> (True, Some req, None, tp)
      | Some sd \<Rightarrow>
          if sgsn_apn_ctx_allow_any_for_imsi apns imsi then (True, Some req, None, tp)
          else if req = [] then default_apn_loop (apns = []) (sgsn_apn_ctx_match apns req imsi) sd (sd_pdp_list sd) (False, None, None, tp)
          else let (allow_any, selected, tp) = granted_apn_loop req sd (sd_pdp_list sd) (False, None, tp) in (allow_any, selected, None, tp))"

text \<open>
  \<open>ggsn0\<close> is the GGSN with number 0, if it is configured.  The result is a cause, or the GGSN with the name that is
  copied to the caller.
\<close>

definition find_ggsn ::
  "apn_ctx list \<Rightarrow> nat option \<Rightarrow> string \<Rightarrow> bool \<times> string option \<times> apn_ctx option \<Rightarrow> gsm_cause + (nat \<times> string)" where
  "find_ggsn apns ggsn0 imsi = (\<lambda>(allow_any, selected, apn).
     if \<not> allow_any \<and> selected = None then Inl GSM_CAUSE_REQ_SERV_OPT_NOTSUB
     else
       let out = (case selected of Some s \<Rightarrow> s | None \<Rightarrow> []);
           apn = (if apn = None then (case selected of Some s \<Rightarrow> sgsn_apn_ctx_match apns s imsi | None \<Rightarrow> None) else apn);
           to_ggsn = (\<lambda>g. case g of None \<Rightarrow> Inl GSM_CAUSE_MISSING_APN | Some g \<Rightarrow> Inr (g, out)) in
       case apn of
         Some a \<Rightarrow> to_ggsn (ac_ggsn a)
       | None \<Rightarrow>
           if apns = [] then to_ggsn ggsn0
           else if allow_any \<and> (selected = None \<or> selected = Some []) then to_ggsn ggsn0
           else Inl GSM_CAUSE_MISSING_APN)"

definition sgsn_mm_ctx_find_ggsn_ctx ::
  "apn_ctx list \<Rightarrow> nat option \<Rightarrow> (octets \<Rightarrow> string) \<Rightarrow> sgsn_subscriber_data option \<Rightarrow> string \<Rightarrow> octets option \<Rightarrow> tlv_extra \<Rightarrow>
   (gsm_cause + (nat \<times> string)) \<times> tlv_extra" where
  "sgsn_mm_ctx_find_ggsn_ctx apns ggsn0 to_str subscr imsi apn_ie tp =
     (case requested_apn to_str apn_ie of
        Inl cause \<Rightarrow> (Inl cause, tp)
      | Inr req \<Rightarrow>
          let (allow_any, selected, apn, tp) = select_apn apns subscr imsi req tp in
          (find_ggsn apns ggsn0 imsi (allow_any, selected, apn), tp))"

subsection \<open>The best match\<close>

definition apn_candidates :: "string \<Rightarrow> string \<Rightarrow> apn_ctx list \<Rightarrow> apn_ctx list" where
  "apn_candidates name imsi apns = filter (\<lambda>a. has_prefix (ac_imsi_prefix a) imsi \<and> name_matches a name) apns"

text \<open>The longer IMSI prefix wins; among those of the same length the longer name.\<close>

definition apn_le :: "apn_ctx \<Rightarrow> apn_ctx \<Rightarrow> bool" where
  "apn_le a b \<longleftrightarrow> length (ac_imsi_prefix a) < length (ac_imsi_prefix b) \<or>
     (length (ac_imsi_prefix a) = length (ac_imsi_prefix b) \<and> length (name_ref a) \<le> length (name_ref b))"

definition apn_best :: "apn_ctx list \<Rightarrow> apn_ctx" where
  "apn_best cs = last (filter (\<lambda>a. \<forall>b\<in>set cs. apn_le b a) cs)"

lemma apn_le_order: "apn_le a a" "apn_le a b \<Longrightarrow> apn_le b c \<Longrightarrow> apn_le a c" "apn_le a b \<or> apn_le b a"
  by (auto simp: apn_le_def)

lemma apn_max_exists: "cs \<noteq> [] \<Longrightarrow> \<exists>a\<in>set cs. \<forall>b\<in>set cs. apn_le b a"
proof (induction cs)
  case (Cons c cs)
  show ?case
  proof (cases "cs = []")
    case False
    then obtain a where a: "a \<in> set cs" "\<forall>b\<in>set cs. apn_le b a" using Cons.IH by blast
    show ?thesis
    proof (cases "apn_le c a")
      case True
      then show ?thesis using a by auto
    next
      case False
      then have ac: "apn_le a c" using apn_le_order(3) by blast
      then have "\<forall>b\<in>set (c # cs). apn_le b c" using a(2) by (auto simp: apn_le_order(1) intro: apn_le_order(2) [OF _ ac])
      then show ?thesis by (intro bexI [of _ c]) simp_all
    qed
  qed (simp add: apn_le_order)
qed simp

lemma apn_best_skip:
  assumes "\<not> apn_le a b"
  shows "apn_best (a # b # cs) = apn_best (a # cs)"
proof -
  have ba: "apn_le b a" using assms apn_le_order(3) by blast
  have "filter (\<lambda>x. \<forall>y\<in>set (a # b # cs). apn_le y x) (a # b # cs) = filter (\<lambda>x. \<forall>y\<in>set (a # b # cs). apn_le y x) (a # cs)"
    using assms by simp
  also have "\<dots> = filter (\<lambda>x. \<forall>y\<in>set (a # cs). apn_le y x) (a # cs)"
    using apn_le_order(2) [OF ba] by (intro filter_cong) auto
  finally show ?thesis by (simp add: apn_best_def)
qed

lemma apn_best_take:
  assumes "apn_le a b"
  shows "apn_best (a # b # cs) = apn_best (b # cs)"
proof -
  let ?F = "filter (\<lambda>x. \<forall>y\<in>set (b # cs). apn_le y x) (b # cs)"
  have "?F \<noteq> []" using apn_max_exists [of "b # cs"] by (auto simp: filter_empty_conv)
  moreover have "filter (\<lambda>x. \<forall>y\<in>set (a # b # cs). apn_le y x) (b # cs) = ?F"
    using apn_le_order(2) [OF assms] by (intro filter_cong) auto
  ultimately show ?thesis unfolding apn_best_def by (simp del: set_simps filter.simps add: filter.simps(2) [of _ a])
qed

lemma apn_match_loop_best:
  "apn_match_loop name imsi as (length (ac_imsi_prefix a)) (length (name_ref a)) (Some a) = Some (apn_best (a # apn_candidates name imsi as))"
proof (induction as arbitrary: a)
  case Nil
  show ?case by (simp add: apn_candidates_def apn_best_def apn_le_order)
next
  case (Cons b bs)
  show ?case
  proof (cases "has_prefix (ac_imsi_prefix b) imsi \<and> name_matches b name")
    case True
    then have c: "apn_candidates name imsi (b # bs) = b # apn_candidates name imsi bs" by (simp add: apn_candidates_def)
    show ?thesis using True Cons.IH apn_best_skip [of a b] apn_best_take [of a b]
      by (cases "apn_le a b") (auto simp: c Let_def apn_le_def)
  next
    case False
    then have "apn_candidates name imsi (b # bs) = apn_candidates name imsi bs" by (auto simp: apn_candidates_def)
    then show ?thesis using False Cons.IH by (auto simp: Let_def)
  qed
qed

text \<open>
  C27. Matching an access point: the loop over the configured entries finds none exactly when no entry has a
  prefix of the IMSI and a name that matches, and otherwise the last of those that are best among
  them, by the length of the prefix first and of the name second.
\<close>

theorem apn_match_best:
  "sgsn_apn_ctx_match apns name imsi =
     (if apn_candidates name imsi apns = [] then None else Some (apn_best (apn_candidates name imsi apns)))"
proof (induction apns)
  case Nil
  then show ?case by (simp add: sgsn_apn_ctx_match_def apn_candidates_def)
next
  case (Cons a as)
  then show ?case using apn_match_loop_best [of name imsi as a]
    by (auto simp: sgsn_apn_ctx_match_def apn_candidates_def Let_def)
qed

lemma apn_match_loop_in:
  "apn_match_loop name imsi as p q f = Some a \<Longrightarrow> f = Some a \<or> (a \<in> set as \<and> has_prefix (ac_imsi_prefix a) imsi \<and> name_matches a name)"
  by (induction as arbitrary: p q f) (auto simp: Let_def split: if_splits)

lemma apn_match_in:
  "sgsn_apn_ctx_match apns name imsi = Some a \<Longrightarrow> a \<in> set apns \<and> has_prefix (ac_imsi_prefix a) imsi \<and> name_matches a name"
  unfolding sgsn_apn_ctx_match_def by (auto dest: apn_match_loop_in)

subsection \<open>The selected access point\<close>

text \<open>What the two loops over the subscriber's access points find when none of them is the asterisk.\<close>

definition no_wildcard :: "sgsn_subscriber_data \<Rightarrow> bool" where
  "no_wildcard sd \<longleftrightarrow> (\<forall>pdp\<in>set (sd_pdp_list sd). pd_apn_str pdp \<noteq> [star])"

lemma insert_extra_qos [simp]: "tx_sub_qos (insert_extra sd pdp tp) = Some (pd_qos_subscribed pdp)"
  by (auto simp: insert_extra_def Let_def split: option.splits)

lemma default_apn_loop_no_wildcard:
  assumes "\<forall>pdp\<in>set pdps. pd_apn_str pdp \<noteq> [star]"
  shows "default_apn_loop e m sd pdps (False, None, None, tp) =
    (if (\<not> e \<and> m = None) \<or> pdps = [] then (False, None, None, tp)
     else (False, Some (pd_apn_str (hd pdps)), if e then None else m, insert_extra sd (hd pdps) tp))"
  using assms by (induction pdps) auto

lemma granted_apn_loop_no_wildcard:
  assumes "\<forall>pdp\<in>set pdps. pd_apn_str pdp \<noteq> [star]"
  shows "granted_apn_loop req sd pdps (False, None, tp) =
    (case find (\<lambda>pdp. strcaseeq (pd_apn_str pdp) req) pdps of
       None \<Rightarrow> (False, None, tp)
     | Some pdp \<Rightarrow> (False, Some req, insert_extra sd pdp tp))"
  using assms by (induction pdps) auto

lemma strcaseeq_refl [simp]: "strcaseeq s s"
  by (simp add: strcaseeq_def)

lemma select_apn_granted:
  assumes "no_wildcard sd" "\<not> sgsn_apn_ctx_allow_any_for_imsi apns imsi"
    and "select_apn apns (Some sd) imsi req tp = (allow_any, Some name, apn, tp')"
  shows "\<not> allow_any \<and>
    (\<exists>pdp\<in>set (sd_pdp_list sd). strcaseeq (pd_apn_str pdp) name \<and> tx_sub_qos tp' = Some (pd_qos_subscribed pdp)) \<and>
    (if req = [] \<and> apns \<noteq> [] then apn \<noteq> None \<and> apn = sgsn_apn_ctx_match apns req imsi else apn = None) \<and>
    (req \<noteq> [] \<longrightarrow> name = req)"
proof (cases "req = []")
  case True
  then show ?thesis using assms default_apn_loop_no_wildcard [of "sd_pdp_list sd" "apns = []" "sgsn_apn_ctx_match apns [] imsi" sd tp]
    by (cases "sd_pdp_list sd") (auto simp: select_apn_def no_wildcard_def split: if_splits)
next
  case False
  then show ?thesis using assms granted_apn_loop_no_wildcard [of "sd_pdp_list sd" req sd tp]
    by (auto simp: select_apn_def no_wildcard_def split: option.splits dest!: find_SomeD)
qed

text \<open>
  C10. Selection of the access point: for a subscriber without the asterisk among the access points it may use, and
  an IMSI for which the configuration does not allow all of them, a GGSN is returned only with the name of one of
  the subscriber's access points, whose quality of service is then added to the request.  The GGSN is that of
  a configured entry with a prefix of the IMSI and a name that matches the one asked for, or GGSN 0 if there is no
  entry at all; a name that was asked for is the one selected.
\<close>

theorem apn_granted:
  assumes "no_wildcard sd" "\<not> sgsn_apn_ctx_allow_any_for_imsi apns imsi"
    and "requested_apn to_str apn_ie = Inr req"
    and "sgsn_mm_ctx_find_ggsn_ctx apns ggsn0 to_str (Some sd) imsi apn_ie tp = (Inr (g, name), tp')"
  shows "(\<exists>pdp\<in>set (sd_pdp_list sd). strcaseeq (pd_apn_str pdp) name \<and> tx_sub_qos tp' = Some (pd_qos_subscribed pdp)) \<and>
    (req \<noteq> [] \<longrightarrow> name = req) \<and>
    (if apns = [] then ggsn0 = Some g
     else \<exists>a\<in>set apns. ac_ggsn a = Some g \<and> has_prefix (ac_imsi_prefix a) imsi \<and> name_matches a req)"
proof -
  obtain allow_any selected apn where sel: "select_apn apns (Some sd) imsi req tp = (allow_any, selected, apn, tp')"
    and f: "find_ggsn apns ggsn0 imsi (allow_any, selected, apn) = Inr (g, name)"
    using assms(3,4) by (auto simp: sgsn_mm_ctx_find_ggsn_ctx_def split: prod.splits)
  have "\<not> allow_any"
    using sel assms(1,2) default_apn_loop_no_wildcard [of "sd_pdp_list sd" "apns = []" "sgsn_apn_ctx_match apns [] imsi" sd tp]
      granted_apn_loop_no_wildcard [of "sd_pdp_list sd" req sd tp]
    by (auto simp: select_apn_def no_wildcard_def split: if_splits option.splits)
  then have s: "selected = Some name" using f by (auto simp: find_ggsn_def Let_def split: if_splits option.splits)
  note S = select_apn_granted [OF assms(1,2) sel [unfolded s]]
  show ?thesis
  proof (cases "apns = []")
    case True
    then have "ggsn0 = Some g" using f S s
      by (auto simp: find_ggsn_def sgsn_apn_ctx_match_def split: option.splits if_splits)
    then show ?thesis using True S by simp
  next
    case False
    then obtain a where "sgsn_apn_ctx_match apns req imsi = Some a" "ac_ggsn a = Some g" using f S s
      by (cases "req = []") (auto simp: find_ggsn_def Let_def split: option.splits if_splits)
    then show ?thesis using False S apn_match_in [of apns req imsi a] by auto
  qed
qed

definition apn_example :: "apn_ctx list" where
  "apn_example = [\<lparr>ac_id = 0, ac_ggsn = Some 3, ac_name = ''internet'', ac_imsi_prefix = ''90170''\<rparr>]"

definition subscriber_example :: sgsn_subscriber_data where
  "subscriber_example = sgsn_subscriber_data_alloc
     \<lparr>sd_pdp_list := [sgsn_subscriber_pdp_data_alloc\<lparr>pd_apn_str := ''internet'', pd_qos_subscribed := [1, 2, 3]\<rparr>]\<rparr>"

definition no_extra :: tlv_extra where "no_extra = \<lparr>tx_sub_qos = None, tx_charg_char = None\<rparr>"

theorem apn_granted_witness:
  "\<exists>pdp\<in>set (sd_pdp_list subscriber_example). strcaseeq (pd_apn_str pdp) ''internet'' \<and> Some [1, 2, 3] = Some (pd_qos_subscribed pdp)"
proof -
  let ?imsi = "''901700000000001''"
  have 1: "no_wildcard subscriber_example" by (simp add: no_wildcard_def subscriber_example_def star_def)
  have 2: "\<not> sgsn_apn_ctx_allow_any_for_imsi apn_example ?imsi"
    by (simp add: sgsn_apn_ctx_allow_any_for_imsi_def apn_example_def star_def)
  have 3: "requested_apn (\<lambda>_. ''internet'') (Some [8]) = Inr ''internet''" by (simp add: requested_apn_def GSM_APN_LENGTH_def star_def)
  have 4: "sgsn_mm_ctx_find_ggsn_ctx apn_example None (\<lambda>_. ''internet'') (Some subscriber_example) ?imsi (Some [8]) no_extra =
     (Inr (3, ''internet''), \<lparr>tx_sub_qos = Some [1, 2, 3], tx_charg_char = None\<rparr>)"
    by code_simp
  show ?thesis using apn_granted [OF 1 2 3 4] by simp
qed

text \<open>
  C33. A request without an access point: the loop that should look for an access point that is both granted and
  configured matches the empty name that was asked for instead of the one that is granted.  When the configuration has
  entries, none with an empty name or a lone asterisk, every such request of a subscriber is therefore refused as
  not subscribed, also when the access points it may use are configured.
\<close>

theorem default_apn_refused:
  assumes "apns \<noteq> []" "\<forall>a\<in>set apns. name_ref a \<noteq> []" "no_wildcard sd"
  shows "sgsn_mm_ctx_find_ggsn_ctx apns ggsn0 to_str (Some sd) imsi None tp = (Inl GSM_CAUSE_REQ_SERV_OPT_NOTSUB, tp)"
proof -
  have m: "sgsn_apn_ctx_match apns [] imsi = None"
    using assms(2) apn_match_in [of apns "[]" imsi] by (cases "sgsn_apn_ctx_match apns [] imsi") (auto simp: name_matches_def split: if_splits)
  have "\<not> sgsn_apn_ctx_allow_any_for_imsi apns imsi"
    using assms(2) by (auto simp: sgsn_apn_ctx_allow_any_for_imsi_def name_ref_def)
  then show ?thesis
    using assms(1,3) m default_apn_loop_no_wildcard [of "sd_pdp_list sd" False None sd tp]
    by (simp add: sgsn_mm_ctx_find_ggsn_ctx_def requested_apn_def select_apn_def no_wildcard_def find_ggsn_def)
qed

theorem default_apn_refused_witness:
  "pd_apn_str (hd (sd_pdp_list subscriber_example)) = ac_name (hd apn_example) \<and>
   sgsn_mm_ctx_find_ggsn_ctx apn_example None (\<lambda>_. []) (Some subscriber_example) ''901700000000001'' None no_extra =
     (Inl GSM_CAUSE_REQ_SERV_OPT_NOTSUB, no_extra)"
  using default_apn_refused [of apn_example subscriber_example None "\<lambda>_. []" "''901700000000001''" no_extra]
  by (simp add: apn_example_def subscriber_example_def no_wildcard_def name_ref_def star_def sgsn_subscriber_data_alloc_def)

end
