(* ===== verification/Spec2Isabelle.thy ===== *)
theory Spec2Isabelle
  imports Llc_Inv Sndcp_Props Sndcp_Inv Gtphub_Props Mm_Fsm Sgsn_Apn
begin

text \<open>
  Verification of the packet-handling core of osmo-sgsn.

  \<^bold>\<open>The program.\<close>  osmo-sgsn has two programs.  The SGSN talks LLC and SNDCP to mobile stations behind a BSS
  (Gb), RANAP to those behind an RNC (Iu), GTP to the GGSNs and GSUP to the HLR.  A frame from the BSS is parsed
  and deciphered by LLC (src/src/gprs/gprs\_llc\_parse.c, crc24.c, src/src/sgsn/gprs\_llc.c), which hands signalling to GMM and
  session management (gprs\_gmm.c, gprs\_sm.c) and user data to SNDCP (gprs\_sndcp.c), which reassembles, decompresses
  and passes packets to libgtp.  The way back is the reverse.  LLC and SNDCP negotiate parameters in XID
  messages (gprs\_llc\_xid.c, gprs\_sndcp\_xid.c).  GMM keeps a context for every mobile station (mmctx.c), with state
  machines (gprs\_gmm\_fsm.c and others), a subscriber record from the HLR (gprs\_subscriber.c, sgsn\_auth.c)
  and a routing area (gprs\_routing\_area.c).  The second program, gtphub (src/src/gtphub/), is a proxy for
  GTP between SGSNs and GGSNs that replaces addresses, sequence numbers and TEIs.

  \<^bold>\<open>How C is modelled.\<close>  Theory \<open>Osmo_Prelude\<close>: machine integers are words of their width, so that every
  wrap-around is that of the code.  A function that can fail an assertion, leave a buffer, free
  twice or read an unset variable has a result in \<open>cfault + 'a\<close> and is composed with \<open>ebind\<close>; return codes,
  also negative ones, are ordinary results.  State is passed explicitly, as one record per component; objects that C
  addresses by pointers have identities, and lists keep the order of the linked lists.  What a component hands to
  its neighbours is recorded in the order of the calls.  Memory is never exhausted.

  \<^bold>\<open>LLC.\<close>  \<open>Crc24\<close>: the table and \<open>crc24_calc\<close>, which is shown equal to the bitwise polynomial division and to
  detect every error that lies within three consecutive octets.  \<open>Llc_Parse\<close>: \<open>gprs_llc_hdr_parse\<close> and what it may read.  \<open>Llc_Xid\<close>: XID fields, their
  round trip and bounds.  \<open>Llc_Entity\<close>, \<open>Llc_Frames\<close>: the entities with their sixteen SAPIs, TLLI assignment,
  keys, sending and receiving of frames, XID negotiation and reset.  \<open>Llc_Ui\<close>: a UI frame reaches the peer's SNDCP
  unchanged through ciphering and FCS; counters and retransmissions.  \<open>Llc_Inv\<close>: the invariant of the entities over
  all sequences of calls (\<open>llc_step\<close>, \<open>llc_reachable\<close>), and what assignment and its end do.

  \<^bold>\<open>SNDCP.\<close>  \<open>Sndcp_Xid_Enc\<close>, \<open>Sndcp_Xid_Dec\<close>, \<open>Sndcp_Xid\<close>: the data model, encoders and decoders of five
  compression algorithms and of whole messages; \<open>Sndcp_Xid_Codec\<close> and \<open>Sndcp_Xid_Props\<close>: every algorithm's parameters, a
  field, a block and a message survive the round trip, and the faults of the decoder.  \<open>Sndcp_Comp\<close>: compression
  entities (gprs\_sndcp\_comp.c, gprs\_sndcp\_pcomp.c, gprs\_sndcp\_dcomp.c).  \<open>Sndcp\<close>, \<open>Sndcp_Nego\<close>: entities,
  segmentation, reassembly and negotiation.  \<open>Sndcp_Frag\<close>: a packet that is cut into segments is put together
  again whatever the order of the segments behind the first.  \<open>Sndcp_Inv\<close>: the invariant over all sequences of calls.
  \<open>Sndcp_Props\<close>: input that stops the SGSN or lets it use freed memory.

  \<^bold>\<open>gtphub.\<close>  \<open>Gtphub_Base\<close>: expiry queues and number pools.  \<open>Gtphub\<close>: peers, addresses, ports, number mappings,
  tunnels and their reference counts.  \<open>Gtphub_Handle\<close>: checks of headers, information elements, mapping and unmapping of
  numbers, echo, restarts, name lookup.  \<open>Gtphub_Pdp\<close>: the PDP context handlers, forwarding, garbage collection and
  start.  \<open>Gtphub_Inv\<close>, \<open>Gtphub_Ops\<close>: the invariant (exact reference counts of the ports, whose addresses and peers are there; unique identities,
  pools in range, queues in order and complete) and that every handler keeps it.  Two pointers are not part of it: the tunnel of a
  pending delete, which may outlive the tunnel, and the lookup the resolver holds.  \<open>Gtphub_Tei\<close>: the choice of a replacement TEI, from
  the arrival of a create request to the tunnel it makes.  \<open>Gtphub_Props\<close>: the invariant for all reachable
  states, garbage collection, unique replacement TEIs, the round trip of sequence numbers and what becomes of a packet.

  \<^bold>\<open>Mobility management.\<close>  \<open>Routing_Area\<close>: routing areas and cells under resets and failures.  \<open>Gprs_Subscriber\<close>: subscriber
  records, subscriber data from the HLR (a refinement of a map from context identifiers), authentication vectors,
  the access control list and the state of authorization.  \<open>Mm_Ctx\<close>: the contexts, the five hash tables they are
  filed in, lookups and the allocation of P-TMSIs.  \<open>Mm_Fsm\<close>: the state machines of GMM, Gb and Iu and the change of the
  radio access, composed with the LLC entities they release.  \<open>Sgsn_Apn\<close>: the match of access points (apn.c) and the
  selection of the GGSN (mmctx.c).

  \<^bold>\<open>Interfaces.\<close>  Locale \<open>field_stream\<close> (in \<open>Osmo_Prelude\<close>): a sequence of self-delimiting fields, interpreted by LLC XID fields and by
  SNDCP compression fields.  Locale \<open>expiring\<close> (in \<open>Gtphub_Base\<close>): a queue whose items are removed by the deletion of
  what they stand for, interpreted by both expiry queues of gtphub.  Locale \<open>mm_index\<close> (in \<open>Mm_Ctx\<close>): a hash table and the
  function that files a context in it, interpreted by the five tables.

  \<^bold>\<open>Parameters.\<close>  Code outside the repository is an argument of the definitions that use it: the cipher and key
  derivation, TLV functions, comparison of area identities, hash functions, random numbers, the conversion of
  access point names and the state machine library of libosmocore; the information elements and socket
  addresses of gtphub; the compressors of SNDCP (slhc.c and v42bis.c are modelled only where they check their limits).  What is assumed of them is a named
  hypothesis (\<open>cipher_spec\<close>, \<open>tlv_put_spec\<close>, \<open>tlv_parse_spec\<close>, \<open>area_cmp_ok\<close>, \<open>fsm_lib_ok\<close>) with an instance for which it holds.

  \<^bold>\<open>Loops.\<close>  No definition has fuel.  Loops over lists recurse over the list; \<open>parse_xid_loop\<close> ends because a field has at
  least one octet, \<open>sndcp_frag_loop\<close> because a fragment carries data or its number runs on, \<open>get_tuple_loop\<close> and
  \<open>alloc_ptmsi_loop\<close> count the attempts the code allows (5 and 101).

  \<^bold>\<open>Not modelled.\<close>  Logging, statistics, timers other than as events, and input and output only: the VTY, control
  and HTTP interfaces (sgsn\_vty.c, sgsn\_ctrl.c, sgsn\_api.c), charging records (sgsn\_cdr.c), sockets and the main programs.  The message
  handlers of GMM and the attach state machine, session management and PDP contexts (gprs\_sm.c,
  sgsn\_libgtp.c, pdpctx.c), whose state is libgtp's; RANAP and SCCP (gprs\_ranap.c, iu\_client.c, sccp.c),
  where each step is a call of libosmo-ranap or libosmo-sigtran; the GSUP handlers that end in GMM; the compression algorithms themselves.
\<close>

end
